(* ===== verification/Skyuv_Prelude.thy ===== *)
theory Skyuv_Prelude
  imports Main "HOL-Library.Word" "HOL-Library.Multiset"
begin

text \<open>
  Shared vocabulary of the development: the C integer types the sources use, the
  error codes of \<^verbatim>\<open>include/skyuv/error.h\<close>, the libuv status codes the sources
  name, the build configuration, and the generic lemmas on lists, maps and words
  that more than one component needs.
\<close>

unbundle bit_operations_syntax

section \<open>C types\<close>

text \<open>
  \<^verbatim>\<open>int\<close> values that are packed bit by bit (socket ids) are 32-bit words read with
  \<open>sint\<close>; \<^verbatim>\<open>size_t\<close> and \<^verbatim>\<open>uintptr_t\<close> are those of a 64-bit platform. A pointer to
  memory whose contents the program never inspects is a number.
\<close>

type_synonym u8 = "8 word"
type_synonym u16 = "16 word"
type_synonym u32 = "32 word"
type_synonym u64 = "64 word"
type_synonym c_int32 = "32 word"
type_synonym size_t = "64 word"
type_synonym uintptr = "64 word"
type_synonym sock_id = "32 word"
type_synonym ptr = nat
type_synonym bytes = "u8 list"

definition UINT_MAX :: size_t where "UINT_MAX = 0xFFFFFFFF"

definition INT_MAX :: int where "INT_MAX = 2147483647"

section \<open>Error codes\<close>

text \<open>\<^verbatim>\<open>enum skyuv_error\<close>.\<close>

datatype skyuv_error =
    SKYUV_OK
  | SKYUV_ERROR_INVALID_ARGUMENT
  | SKYUV_ERROR_INVALID_STATE
  | SKYUV_ERROR_OUT_OF_MEMORY
  | SKYUV_ERROR_SYSTEM
  | SKYUV_ERROR_TIMEOUT
  | SKYUV_ERROR_NOT_SUPPORTED

text \<open>
  The status a libuv call returns: \<open>UV_OK\<close> is 0, the codes the sources compare with
  or produce have their own constructor, any other (negative) code is \<open>UV_OTHER\<close>.
  libuv gives the codes different numbers on different platforms; no definition
  depends on the numbers.
\<close>

datatype uv_code =
    UV_OK | UV_EOF | UV_EINVAL | UV_ENOTCONN | UV_ECANCELED | UV_ENOMEM
  | UV_EDESTADDRREQ | UV_EAGAIN | UV_EBADF | UV_EPIPE | UV_ETIMEDOUT | UV_ENOSPC
  | UV_ENOENT | UV_EEXIST | UV_ENOTDIR | UV_ENAMETOOLONG | UV_ENOTSUP | UV_EIO
  | UV_OTHER nat

section \<open>Build configuration\<close>

text \<open>
  The compile-time switches the sources test: \<^verbatim>\<open>SKYUV_SOCKET_SLOT_BITS\<close> (16 unless a
  build overrides it; the stress tests use 8), \<^verbatim>\<open>SKYUV_SOCKET_EXTERNAL_FD\<close> (1 on
  Unix, 0 on Windows) and \<^verbatim>\<open>_WIN32\<close>. \<open>cfg_ok\<close> is the range the \<^verbatim>\<open>#error\<close> directive of
  \<^verbatim>\<open>socket_internal.h\<close> enforces.
\<close>

record build_config =
  slot_bits :: nat
  external_fd_supported :: bool
  win32 :: bool

definition cfg_ok :: "build_config \<Rightarrow> bool" where
  "cfg_ok cfg \<longleftrightarrow> slot_bits cfg \<noteq> 0 \<and> slot_bits cfg \<le> 16"

section \<open>Collections of facts\<close>

named_theorems frame_simps \<open>what an operation leaves unchanged\<close>
named_theorems view_simps \<open>what an operation does to the view of one socket\<close>
named_theorems handler_defs \<open>definitions of the event-loop handlers\<close>

section \<open>Lists\<close>

lemma filter_remove1_other:
  "\<not> P x \<Longrightarrow> filter P (remove1 x xs) = filter P xs"
  by (induction xs) auto

lemma filter_remove1_same:
  "P x \<Longrightarrow> filter P (remove1 x xs) = remove1 x (filter P xs)"
  by (induction xs) auto

lemma count_list_remove1:
  "count_list (remove1 x xs) y = (if x = y then count_list xs y - 1 else count_list xs y)"
  by (induction xs) auto

lemma length_filter_single:
  assumes "filter P xs = [x]"
  shows "x \<in> set xs \<and> P x"
proof -
  have "x \<in> set (filter P xs)" using assms by simp
  then show ?thesis by simp
qed

lemma sum_list_remove1:
  fixes f :: "'a \<Rightarrow> 'b::ab_group_add"
  shows "x \<in> set xs \<Longrightarrow> sum_list (map f (remove1 x xs)) = sum_list (map f xs) - f x"
  by (induction xs) (auto simp: algebra_simps)

lemma mset_remove1_add:
  "x \<in> set xs \<Longrightarrow> add_mset x (mset (remove1 x xs)) = mset xs"
  by (simp add: mset_remove1)

section \<open>Arithmetic\<close>

lemma add_mod_neq:
  fixes a n k :: nat
  assumes "a < n" and "0 < k" and "k < n"
  shows "(a + k) mod n \<noteq> a"
  using assms by (cases "a + k < n") (auto simp: le_mod_geq)

lemma mod_wrap: "x < 2 * n \<Longrightarrow> x mod n = (if x < n then x else x - n)" for x n :: nat
  by (simp add: le_mod_geq not_less)

section \<open>Words\<close>

lemma unat_power2:
  assumes "n < LENGTH('a)"
  shows "unat ((2 :: 'a::len word) ^ n) = 2 ^ n"
proof -
  have "unat (word_of_nat (2 ^ n) :: 'a word) = 2 ^ n mod 2 ^ LENGTH('a)"
    by (rule unat_of_nat)
  also have "\<dots> = 2 ^ n" using assms by simp
  finally show ?thesis by simp
qed

lemma unat_less_exp_bit:
  fixes w :: "'a::len word"
  assumes "unat w < 2 ^ n" and "n \<le> k"
  shows "\<not> bit w k"
proof -
  have "unat w < 2 ^ k"
    using assms by (meson le_less_trans less_le_trans one_le_numeral power_increasing)
  then have "take_bit k (unat w) = unat w"
    by (simp add: take_bit_nat_eq_self)
  then have "\<not> bit (unat w) k"
    by (metis bit_take_bit_iff less_irrefl)
  then show ?thesis
    by (simp add: bit_unsigned_iff)
qed

section \<open>Decimal numbers\<close>

text \<open>The digits \<^verbatim>\<open>printf\<close> writes for a number that is not negative.\<close>

fun show_nat :: "nat \<Rightarrow> string" where
  "show_nat n = (if n < 10 then [char_of (48 + n)] else show_nat (n div 10) @ [char_of (48 + n mod 10)])"

declare show_nat.simps [simp del]

section \<open>First-in first-out buffers\<close>

text \<open>
  The contract of a queue between a producer and a consumer. \<open>can_enq\<close> says when a
  value may be appended (a bounded queue refuses when it is full). A schedule is any
  interleaving of producer and consumer steps; \<open>fifo_run\<close> collects the values that
  were accepted and the values that came out.
\<close>

datatype 'a fifo_op = Enq 'a | Deq

fun fifo_run :: "('a \<Rightarrow> 'q \<Rightarrow> bool) \<Rightarrow> ('a \<Rightarrow> 'q \<Rightarrow> 'q) \<Rightarrow> ('q \<Rightarrow> 'a option \<times> 'q) \<Rightarrow>
    'a fifo_op list \<Rightarrow> 'q \<Rightarrow> 'a list \<times> 'a list \<times> 'q" where
  "fifo_run can enq deq [] q = ([], [], q)"
| "fifo_run can enq deq (Enq x # ops) q =
     (if can x q
      then (case fifo_run can enq deq ops (enq x q) of (ins, outs, q') \<Rightarrow> (x # ins, outs, q'))
      else fifo_run can enq deq ops q)"
| "fifo_run can enq deq (Deq # ops) q =
     (case deq q of
        (None, q') \<Rightarrow> fifo_run can enq deq ops q'
      | (Some x, q') \<Rightarrow>
          (case fifo_run can enq deq ops q' of (ins, outs, q'') \<Rightarrow> (ins, x # outs, q'')))"

locale fifo_queue =
  fixes invar :: "'q \<Rightarrow> bool"
    and contents :: "'q \<Rightarrow> 'a list"
    and can_enq :: "'a \<Rightarrow> 'q \<Rightarrow> bool"
    and enq :: "'a \<Rightarrow> 'q \<Rightarrow> 'q"
    and deq :: "'q \<Rightarrow> 'a option \<times> 'q"
  assumes enq_law: "invar q \<Longrightarrow> can_enq x q \<Longrightarrow>
      invar (enq x q) \<and> contents (enq x q) = contents q @ [x]"
    and deq_empty_law: "invar q \<Longrightarrow> contents q = [] \<Longrightarrow> deq q = (None, q)"
    and deq_law: "invar q \<Longrightarrow> contents q = x # xs \<Longrightarrow>
      \<exists>q'. deq q = (Some x, q') \<and> invar q' \<and> contents q' = xs"
begin

text \<open>
  Whatever the interleaving, the values that came out followed by the values still
  queued are the initial contents followed by the accepted values: nothing is lost,
  duplicated or reordered.
\<close>

lemma fifo_order:
  assumes "invar q" and "fifo_run can_enq enq deq ops q = (ins, outs, q')"
  shows "invar q' \<and> outs @ contents q' = contents q @ ins"
  using assms
proof (induction ops arbitrary: q ins outs)
  case Nil
  then show ?case by simp
next
  case (Cons a ops)
  show ?case
  proof (cases a)
    case (Enq x)
    with Cons enq_law [of q x] show ?thesis
      by (fastforce split: if_splits prod.splits)
  next
    case Deq
    show ?thesis
    proof (cases "contents q")
      case Nil
      with Cons Deq deq_empty_law [of q] show ?thesis by (auto split: prod.splits)
    next
      case (Cons x xs)
      with deq_law [of q x xs] \<open>invar q\<close> obtain q1 where
        "deq q = (Some x, q1)" "invar q1" "contents q1 = xs" by blast
      with Deq Cons.prems Cons.IH [of q1] Cons show ?thesis
        by (auto split: prod.splits)
    qed
  qed
qed

end

end
