(* ===== verification/Socket_Id.thy ===== *)
theory Socket_Id
  imports Skyuv_Prelude
begin

text \<open>
  Socket identifiers (\<^verbatim>\<open>src/src/socket/socket_internal.c\<close>, last section, and the
  macros of \<^verbatim>\<open>socket_internal.h\<close>): an id packs a slot number and a 15-bit generation
  into a positive C \<^verbatim>\<open>int\<close>, so that an id of a closed socket does not name the next
  socket that occupies the same slot.
\<close>

section \<open>Definitions\<close>

definition SKYUV_SOCKET_SLOT_COUNT :: "build_config \<Rightarrow> u32" where
  "SKYUV_SOCKET_SLOT_COUNT cfg = push_bit (slot_bits cfg) 1"

definition SKYUV_SOCKET_GENERATION_MAX :: u16 where
  "SKYUV_SOCKET_GENERATION_MAX = 0x7fff"

definition skyuv_socket_id_slot :: "build_config \<Rightarrow> sock_id \<Rightarrow> u16" where
  "skyuv_socket_id_slot cfg i = ucast (i AND (SKYUV_SOCKET_SLOT_COUNT cfg - 1))"

definition skyuv_socket_id_generation :: "build_config \<Rightarrow> sock_id \<Rightarrow> u16" where
  "skyuv_socket_id_generation cfg i =
     ucast (drop_bit (slot_bits cfg) i AND ucast SKYUV_SOCKET_GENERATION_MAX)"

definition skyuv_socket_id_next_generation :: "u16 \<Rightarrow> u16" where
  "skyuv_socket_id_next_generation g =
     (let g' = g + 1
      in if g' = 0 \<or> g' > SKYUV_SOCKET_GENERATION_MAX then 1 else g')"

definition skyuv_socket_id_make :: "build_config \<Rightarrow> u16 \<Rightarrow> u16 \<Rightarrow> sock_id" where
  "skyuv_socket_id_make cfg slot generation =
     (if generation = 0 \<or> generation > SKYUV_SOCKET_GENERATION_MAX then - 1
      else if slot_bits cfg < 16 \<and> (ucast slot :: u32) \<ge> SKYUV_SOCKET_SLOT_COUNT cfg then - 1
      else push_bit (slot_bits cfg) (ucast generation) OR ucast slot)"

definition valid_generation :: "u16 \<Rightarrow> bool" where
  "valid_generation g \<longleftrightarrow> g \<noteq> 0 \<and> g \<le> SKYUV_SOCKET_GENERATION_MAX"

definition valid_slot :: "build_config \<Rightarrow> u16 \<Rightarrow> bool" where
  "valid_slot cfg s \<longleftrightarrow> unat s < 2 ^ slot_bits cfg"

section \<open>Bits of the packed word\<close>

lemma valid_generation_unat: "valid_generation g \<longleftrightarrow> 0 < unat g \<and> unat g < 2 ^ 15"
  by (auto simp: valid_generation_def SKYUV_SOCKET_GENERATION_MAX_def word_le_nat_alt
      unat_gt_0)

lemma slot_mask: "SKYUV_SOCKET_SLOT_COUNT cfg - 1 = mask (slot_bits cfg)"
  by (simp add: SKYUV_SOCKET_SLOT_COUNT_def mask_eq_exp_minus_1)

lemma generation_mask: "(ucast SKYUV_SOCKET_GENERATION_MAX :: u32) = mask 15"
  by (simp add: SKYUV_SOCKET_GENERATION_MAX_def mask_eq_exp_minus_1)

lemma bit_id_slot:
  "bit (skyuv_socket_id_slot cfg i) n \<longleftrightarrow> n < 16 \<and> n < slot_bits cfg \<and> bit i n"
  by (auto simp: skyuv_socket_id_slot_def slot_mask bit_word_ucast_iff bit_and_iff bit_mask_iff
      dest: bit_imp_le_length)

lemma bit_id_generation:
  "bit (skyuv_socket_id_generation cfg i) n \<longleftrightarrow> n < 15 \<and> bit i (slot_bits cfg + n)"
  by (auto simp: skyuv_socket_id_generation_def generation_mask bit_word_ucast_iff bit_and_iff
      bit_mask_iff bit_drop_bit_eq dest: bit_imp_le_length)

lemma unat_slot_count: "cfg_ok cfg \<Longrightarrow> unat (SKYUV_SOCKET_SLOT_COUNT cfg) = 2 ^ slot_bits cfg"
proof -
  assume "cfg_ok cfg"
  then have "slot_bits cfg < LENGTH(32)" by (simp add: cfg_ok_def)
  then show ?thesis
    by (simp add: SKYUV_SOCKET_SLOT_COUNT_def unat_power2)
qed

lemma unat_ucast_16_32: "unat (ucast (s :: u16) :: u32) = unat s"
  by (simp add: unsigned_ucast_eq take_bit_nat_eq_self order_less_trans [OF unsigned_less])

lemma id_make_valid:
  assumes "cfg_ok cfg" and "valid_slot cfg s" and "valid_generation g"
  shows "skyuv_socket_id_make cfg s g = push_bit (slot_bits cfg) (ucast g) OR ucast s"
proof -
  have "(ucast s :: u32) < SKYUV_SOCKET_SLOT_COUNT cfg"
    using assms(1,2)
    by (simp add: word_less_nat_alt unat_slot_count unat_ucast_16_32 valid_slot_def)
  then show ?thesis
    using assms(3)
    by (auto simp: skyuv_socket_id_make_def valid_generation_def)
qed

lemma bit_id_make:
  assumes "cfg_ok cfg" and "valid_slot cfg s" and "valid_generation g"
  shows "bit (skyuv_socket_id_make cfg s g) n \<longleftrightarrow>
    (if n < slot_bits cfg then bit s n else n < 31 \<and> bit g (n - slot_bits cfg))"
proof -
  have g: "k < 15" if "bit g k" for k
  proof (rule ccontr)
    assume "\<not> k < 15"
    with assms(3) that unat_less_exp_bit [of g 15 k] show False
      by (simp add: valid_generation_unat)
  qed
  have s: "\<not> bit s k" if "slot_bits cfg \<le> k" for k
    using assms(2) that unat_less_exp_bit [of s "slot_bits cfg" k] by (simp add: valid_slot_def)
  have b: "slot_bits cfg \<le> 16" using assms(1) by (simp add: cfg_ok_def)
  have top: "n < 31" if "bit g (n - slot_bits cfg)"
    using g [OF that] b by simp
  show ?thesis
    using b s top g [of "n - slot_bits cfg"]
    by (auto simp: id_make_valid [OF assms] bit_or_iff bit_push_bit_iff bit_word_ucast_iff)
qed

lemma slot_valid: "cfg_ok cfg \<Longrightarrow> valid_slot cfg (skyuv_socket_id_slot cfg i)"
proof -
  assume cfg: "cfg_ok cfg"
  have "take_bit (slot_bits cfg) (skyuv_socket_id_slot cfg i) = skyuv_socket_id_slot cfg i"
    by (rule bit_word_eqI) (auto simp: bit_take_bit_iff bit_id_slot)
  then have "take_bit (slot_bits cfg) (unat (skyuv_socket_id_slot cfg i))
      = unat (skyuv_socket_id_slot cfg i)"
    by (metis unsigned_take_bit_eq)
  then show ?thesis
    unfolding valid_slot_def by (metis take_bit_nat_less_exp)
qed

section \<open>Packing and unpacking\<close>

lemma id_slot_make:
  assumes "cfg_ok cfg" and "valid_slot cfg s" and "valid_generation g"
  shows "skyuv_socket_id_slot cfg (skyuv_socket_id_make cfg s g) = s"
proof (rule bit_word_eqI)
  fix n assume "n < LENGTH(16)"
  have "\<not> bit s k" if "slot_bits cfg \<le> k" for k
    using assms(2) that unat_less_exp_bit [of s "slot_bits cfg" k] by (simp add: valid_slot_def)
  then show "bit (skyuv_socket_id_slot cfg (skyuv_socket_id_make cfg s g)) n = bit s n"
    using \<open>n < LENGTH(16)\<close> by (auto simp: bit_id_slot bit_id_make [OF assms] not_less)
qed

lemma id_generation_make:
  assumes "cfg_ok cfg" and "valid_slot cfg s" and "valid_generation g"
  shows "skyuv_socket_id_generation cfg (skyuv_socket_id_make cfg s g) = g"
proof (rule bit_word_eqI)
  fix n assume "n < LENGTH(16)"
  have g: "k < 15" if "bit g k" for k
  proof (rule ccontr)
    assume "\<not> k < 15"
    with assms(3) that unat_less_exp_bit [of g 15 k] show False
      by (simp add: valid_generation_unat)
  qed
  have "slot_bits cfg \<le> 16" using assms(1) by (simp add: cfg_ok_def)
  then show "bit (skyuv_socket_id_generation cfg (skyuv_socket_id_make cfg s g)) n = bit g n"
    by (auto simp: bit_id_generation bit_id_make [OF assms] not_less dest: g)
qed

lemma id_make_inject:
  assumes "cfg_ok cfg" and "valid_slot cfg s" and "valid_generation g"
    and "valid_slot cfg s'" and "valid_generation g'"
  shows "skyuv_socket_id_make cfg s g = skyuv_socket_id_make cfg s' g' \<longleftrightarrow> s = s' \<and> g = g'"
  using assms by (metis id_slot_make id_generation_make)

lemma id_make_positive:
  assumes "cfg_ok cfg" and "valid_slot cfg s" and "valid_generation g"
  shows "0 < sint (skyuv_socket_id_make cfg s g)"
proof -
  let ?i = "skyuv_socket_id_make cfg s g"
  have "\<not> bit ?i 31"
    by (simp add: bit_id_make [OF assms] not_less) (use assms(1) in \<open>simp add: cfg_ok_def\<close>)
  then have "0 \<le> sint ?i"
    using bit_last_iff [of ?i] by simp
  moreover have "?i \<noteq> 0"
    using id_generation_make [OF assms] assms(3)
    by (auto simp: valid_generation_def skyuv_socket_id_generation_def)
  ultimately show ?thesis
    by (metis order_le_less signed_0 signed_word_eqI)
qed

section \<open>Generations\<close>

lemma next_generation_valid: "valid_generation (skyuv_socket_id_next_generation g)"
  by (auto simp: skyuv_socket_id_next_generation_def valid_generation_def Let_def not_less
      SKYUV_SOCKET_GENERATION_MAX_def)

lemma unat_next_generation:
  "valid_generation g \<Longrightarrow>
   unat (skyuv_socket_id_next_generation g) = (if unat g = 2 ^ 15 - 1 then 1 else unat g + 1)"
  unfolding valid_generation_unat skyuv_socket_id_next_generation_def Let_def
    SKYUV_SOCKET_GENERATION_MAX_def
  by (auto simp: word_less_nat_alt unat_word_ariths unat_eq_zero unat_arith_simps split: if_splits)

lemma unat_next_generation_iterate:
  assumes "valid_generation g"
  shows "valid_generation ((skyuv_socket_id_next_generation ^^ k) g) \<and>
    unat ((skyuv_socket_id_next_generation ^^ k) g) = (unat g - 1 + k) mod 32767 + 1"
proof (induction k)
  case 0
  have "unat g - 1 < 32767" and "0 < unat g" using assms by (auto simp: valid_generation_unat)
  then show ?case using assms by simp
next
  case (Suc k)
  let ?h = "(skyuv_socket_id_next_generation ^^ k) g"
  have "unat (skyuv_socket_id_next_generation ?h) = (if unat ?h = 32767 then 1 else unat ?h + 1)"
    using Suc.IH unat_next_generation [of ?h] by simp
  also have "\<dots> = (unat g - 1 + Suc k) mod 32767 + 1"
    using Suc.IH by (simp add: mod_Suc)
  finally show ?case by (simp add: next_generation_valid)
qed

section \<open>The contract the slot table relies on\<close>

text \<open>
  What the slot table needs of identifiers: packing a slot and a generation can be
  undone, the result is accepted by the \<^verbatim>\<open>id <= 0\<close> checks of the interface functions,
  and a generation comes back only after the slot has been reserved \<open>period\<close> times.
\<close>

locale slot_ids =
  fixes make :: "'s \<Rightarrow> 'g \<Rightarrow> 'i"
    and slot_of :: "'i \<Rightarrow> 's"
    and succ_gen :: "'g \<Rightarrow> 'g"
    and good_slot :: "'s \<Rightarrow> bool"
    and good_gen :: "'g \<Rightarrow> bool"
    and period :: nat
  assumes slot_of_make: "good_slot s \<Longrightarrow> good_gen g \<Longrightarrow> slot_of (make s g) = s"
    and make_inj: "good_slot s \<Longrightarrow> good_gen g \<Longrightarrow> good_gen g' \<Longrightarrow> make s g = make s g' \<Longrightarrow> g = g'"
    and good_succ: "good_gen (succ_gen g)"
    and no_early_repeat: "good_gen g \<Longrightarrow> 0 < k \<Longrightarrow> k < period \<Longrightarrow> (succ_gen ^^ k) g \<noteq> g"
    and repeats: "good_gen g \<Longrightarrow> (succ_gen ^^ period) g = g"
begin

text \<open>Two slots never share an id, whatever their generations.\<close>

lemma make_slot_disjoint:
  "good_slot s \<Longrightarrow> good_slot s' \<Longrightarrow> good_gen g \<Longrightarrow> good_gen g' \<Longrightarrow>
   make s g = make s' g' \<Longrightarrow> s = s'"
  using slot_of_make by metis

lemma good_iterate: "good_gen g \<Longrightarrow> good_gen ((succ_gen ^^ k) g)"
  by (cases k) (auto intro: good_succ)

text \<open>An id is not issued again by the next \<open>period - 1\<close> reservations of its slot.\<close>

lemma stale_id:
  assumes "good_slot s" and "good_gen g" and "0 < k" and "k < period"
  shows "make s ((succ_gen ^^ k) g) \<noteq> make s g"
  using assms make_inj good_iterate no_early_repeat by metis

end

interpretation ids: slot_ids "skyuv_socket_id_make cfg" "skyuv_socket_id_slot cfg"
    skyuv_socket_id_next_generation "\<lambda>s. cfg_ok cfg \<and> valid_slot cfg s" valid_generation 32767
  for cfg
proof
  fix s g g' assume "cfg_ok cfg \<and> valid_slot cfg s" "valid_generation g" "valid_generation g'"
    "skyuv_socket_id_make cfg s g = skyuv_socket_id_make cfg s g'"
  then show "g = g'" by (metis id_generation_make)
next
  fix g and k :: nat assume "valid_generation g" "0 < k" "k < 32767"
  moreover from this have "unat g - 1 < 32767" and "0 < unat g"
    by (auto simp: valid_generation_unat)
  ultimately have "unat ((skyuv_socket_id_next_generation ^^ k) g) \<noteq> unat g"
    using unat_next_generation_iterate [of g k] add_mod_neq [of "unat g - 1" 32767 k] by linarith
  then show "(skyuv_socket_id_next_generation ^^ k) g \<noteq> g" by auto
next
  fix g assume "valid_generation g"
  then have "0 < unat g" and "unat g - 1 < 32767" by (auto simp: valid_generation_unat)
  with \<open>valid_generation g\<close> unat_next_generation_iterate [of g 32767]
  have "unat ((skyuv_socket_id_next_generation ^^ 32767) g) = unat g"
    by (simp only: mod_add_self2 mod_less)
  then show "(skyuv_socket_id_next_generation ^^ 32767) g = g"
    by (rule unsigned_word_eqI)
qed (auto intro: id_slot_make next_generation_valid)

lemma id_make_invalid:
  assumes "cfg_ok cfg" and "\<not> (valid_slot cfg s \<and> valid_generation g)"
  shows "skyuv_socket_id_make cfg s g = - 1"
proof (cases "valid_generation g")
  case True
  with assms(2) have big: "2 ^ slot_bits cfg \<le> unat s" by (simp add: valid_slot_def)
  moreover have "unat s < 2 ^ 16" using unsigned_less [of s, where ?'a = nat] by simp
  ultimately have "(2::nat) ^ slot_bits cfg < 2 ^ 16" by (rule order_le_less_trans)
  then have "slot_bits cfg < 16" by (rule power_less_imp_less_exp [rotated]) simp
  with big show ?thesis
    by (simp add: skyuv_socket_id_make_def word_le_nat_alt unat_ucast_16_32 unat_slot_count [OF assms(1)])
next
  case False
  then show ?thesis
    by (auto simp: skyuv_socket_id_make_def valid_generation_def)
qed

lemma add_mod_self_iff:
  fixes a n k :: nat
  assumes "a < n"
  shows "(a + k) mod n = a \<longleftrightarrow> n dvd k"
proof -
  have "(a + k) mod n = (a + k mod n) mod n" by (simp add: mod_add_right_eq)
  moreover have "(a + k mod n) mod n = a \<longleftrightarrow> k mod n = 0"
    using assms add_mod_neq [of a n "k mod n"] by (cases "k mod n = 0") simp_all
  ultimately show ?thesis by (simp only: dvd_eq_mod_eq_0)
qed

section \<open>Properties\<close>

text \<open>
  C11. An identifier names its slot and its generation: it is accepted by the checks
  \<^verbatim>\<open>id <= 0\<close> of the interface functions, the slot and the generation can be read back, and
  a pair out of range gives -1.
\<close>

theorem socket_id_round_trip:
  assumes "cfg_ok cfg"
  shows "(valid_slot cfg s \<and> valid_generation g \<longrightarrow>
      skyuv_socket_id_slot cfg (skyuv_socket_id_make cfg s g) = s \<and>
      skyuv_socket_id_generation cfg (skyuv_socket_id_make cfg s g) = g \<and>
      0 < sint (skyuv_socket_id_make cfg s g)) \<and>
    (\<not> (valid_slot cfg s \<and> valid_generation g) \<longrightarrow> skyuv_socket_id_make cfg s g = - 1)"
  using assms id_slot_make [of cfg s g] id_generation_make [of cfg s g] id_make_positive [of cfg s g]
    id_make_invalid [of cfg s g] by blast

theorem socket_id_round_trip_witness:
  "let cfg = \<lparr>slot_bits = 16, external_fd_supported = True, win32 = False\<rparr>
   in skyuv_socket_id_slot cfg (skyuv_socket_id_make cfg 65535 32767) = 65535 \<and>
      0 < sint (skyuv_socket_id_make cfg 65535 32767) \<and> skyuv_socket_id_make cfg 1 0 = - 1"
proof -
  let ?cfg = "\<lparr>slot_bits = 16, external_fd_supported = True, win32 = False\<rparr>"
  have cfg: "cfg_ok ?cfg" by (simp add: cfg_ok_def)
  have "valid_slot ?cfg 65535" "valid_generation 32767" "\<not> valid_generation 0"
    by (simp_all add: valid_slot_def valid_generation_def SKYUV_SOCKET_GENERATION_MAX_def)
  with socket_id_round_trip [OF cfg, of 65535 32767] socket_id_round_trip [OF cfg, of 1 0]
  show ?thesis by (simp add: Let_def)
qed

text \<open>
  C12. A stale identifier names nobody for the next 32766 reservations of its slot: the
  identifiers the slot gets are different, and the one after 32767 reservations is the
  same again.
\<close>

theorem stale_id_period:
  assumes "cfg_ok cfg" and "valid_slot cfg s" and "valid_generation g"
  shows "skyuv_socket_id_make cfg s ((skyuv_socket_id_next_generation ^^ k) g) = skyuv_socket_id_make cfg s g
    \<longleftrightarrow> 32767 dvd k"
proof -
  let ?h = "(skyuv_socket_id_next_generation ^^ k) g"
  define n :: nat where "n = 32767"
  define a where "a = unat g - 1"
  have a: "a < n" "unat g = a + 1"
    using assms(3) by (auto simp: valid_generation_unat a_def n_def)
  have h: "valid_generation ?h" "unat ?h = (a + k) mod n + 1"
    using unat_next_generation_iterate [OF assms(3), of k] by (simp_all only: a_def n_def)
  have "skyuv_socket_id_make cfg s ?h = skyuv_socket_id_make cfg s g \<longleftrightarrow> ?h = g"
    using ids.make_inj [of cfg s ?h g] h(1) assms by auto
  also have "\<dots> \<longleftrightarrow> (a + k) mod n = a"
    by (simp only: word_unat_eq_iff a(2) h(2) add_right_cancel)
  also have "\<dots> \<longleftrightarrow> n dvd k" by (rule add_mod_self_iff [OF a(1)])
  finally show ?thesis by (simp only: n_def)
qed

theorem stale_id_period_witness:
  "let cfg = \<lparr>slot_bits = 16, external_fd_supported = True, win32 = False\<rparr>
   in skyuv_socket_id_make cfg 3 ((skyuv_socket_id_next_generation ^^ 2) 32766) \<noteq>
        skyuv_socket_id_make cfg 3 32766"
proof -
  let ?cfg = "\<lparr>slot_bits = 16, external_fd_supported = True, win32 = False\<rparr>"
  have "cfg_ok ?cfg" "valid_slot ?cfg 3" "valid_generation 32766"
    by (simp_all add: cfg_ok_def valid_slot_def valid_generation_def SKYUV_SOCKET_GENERATION_MAX_def)
  from stale_id_period [OF this, of 2] show ?thesis by (simp add: Let_def)
qed

end
