(* ===== verification/Command_Queue.thy ===== *)
theory Command_Queue
  imports Skyuv_Prelude
begin

text \<open>
  The command queue between the Skynet worker threads and the network thread
  (\<^verbatim>\<open>struct skyuv_socket_command\<close>, \<^verbatim>\<open>struct skyuv_socket_command_queue\<close> and
  \<^verbatim>\<open>skyuv_socket_command_queue_*\<close>). It is modelled twice: over a heap of linked nodes
  with a head and a tail pointer, as the C code has it, and as a list. The second
  model is the one the socket runtime uses; the refinement lemmas of this theory say
  that the pointer operations implement it. Every operation runs under the queue's
  mutex, so it is one atomic step.
\<close>

section \<open>Commands\<close>

datatype command_type =
    COMMAND_LISTEN | COMMAND_CONNECT | COMMAND_START | COMMAND_PAUSE | COMMAND_NODELAY
  | COMMAND_SEND | COMMAND_SEND_LOW | COMMAND_CLOSE | COMMAND_SHUTDOWN | COMMAND_UDP
  | COMMAND_UDP_CONNECT | COMMAND_UDP_SEND | COMMAND_BIND | COMMAND_EXIT

datatype buffer_ownership = BUFFER_BORROWED | BUFFER_OWNED

text \<open>
  A buffer handed to the runtime: the release function (NULL means the allocator's
  \<^verbatim>\<open>free\<close>) and the pointer. The union of the C structure is flattened into one
  record; \<open>command0\<close> is what \<^verbatim>\<open>calloc\<close> returns. \<open>c_address\<close> holds the bytes of the
  fixed array that \<open>c_address_size\<close> says are in use.
\<close>

type_synonym release_fn = nat
type_synonym buffer = "release_fn option \<times> ptr option"

record command =
  c_type :: command_type
  c_id :: sock_id
  c_opaque :: uintptr
  c_host :: "string option"
  c_port :: int
  c_backlog :: int
  c_data :: "ptr option"
  c_size :: size_t
  c_ownership :: buffer_ownership
  c_release :: "release_fn option"
  c_address :: bytes
  c_address_size :: size_t
  c_fd :: int

definition command0 :: command where
  "command0 = \<lparr>c_type = COMMAND_LISTEN, c_id = 0, c_opaque = 0, c_host = None, c_port = 0,
     c_backlog = 0, c_data = None, c_size = 0, c_ownership = BUFFER_BORROWED,
     c_release = None, c_address = [], c_address_size = 0, c_fd = 0\<rparr>"

definition is_send_command :: "command_type \<Rightarrow> bool" where
  "is_send_command t \<longleftrightarrow> t = COMMAND_SEND \<or> t = COMMAND_SEND_LOW \<or> t = COMMAND_UDP_SEND"

definition command_buffer :: "command \<Rightarrow> buffer" where
  "command_buffer c = (c_release c, c_data c)"

text \<open>
  The buffers a command still owns, and the buffers \<^verbatim>\<open>skyuv_socket_command_destroy\<close>
  releases: a send command that still owns its data releases it through its release
  function or through \<^verbatim>\<open>free\<close>; the host string of the other commands belongs to the
  command alone and is not tracked.
\<close>

definition skyuv_socket_command_destroy :: "command \<Rightarrow> buffer list" where
  "skyuv_socket_command_destroy c =
     (if is_send_command (c_type c) \<and> c_ownership c = BUFFER_OWNED then [command_buffer c]
      else [])"

section \<open>The queue as a list\<close>

record command_queue =
  q_mutex :: bool \<comment> \<open>\<^verbatim>\<open>mutex.implementation != NULL\<close>\<close>
  q_items :: "command list"
  q_accepting :: bool

text \<open>
  A NULL argument is \<open>None\<close>. The result of \<^verbatim>\<open>skyuv_mutex_init\<close> is a parameter.
\<close>

definition skyuv_socket_command_queue_init ::
    "skyuv_error \<Rightarrow> command_queue option \<Rightarrow> skyuv_error \<times> command_queue option" where
  "skyuv_socket_command_queue_init mutex_result q =
     (case q of None \<Rightarrow> (SKYUV_ERROR_INVALID_ARGUMENT, None)
      | Some _ \<Rightarrow>
          (if mutex_result \<noteq> SKYUV_OK
           then (mutex_result, Some \<lparr>q_mutex = False, q_items = [], q_accepting = False\<rparr>)
           else (SKYUV_OK, Some \<lparr>q_mutex = True, q_items = [], q_accepting = True\<rparr>)))"

definition skyuv_socket_command_queue_destroy ::
    "command_queue option \<Rightarrow> command_queue option \<times> buffer list" where
  "skyuv_socket_command_queue_destroy q =
     (case q of None \<Rightarrow> (None, [])
      | Some q \<Rightarrow>
          (if \<not> q_mutex q then (Some q, [])
           else (Some \<lparr>q_mutex = False, q_items = [], q_accepting = False\<rparr>,
                 concat (map skyuv_socket_command_destroy (q_items q)))))"

definition queue_push_locked :: "command_queue \<Rightarrow> command \<Rightarrow> command_queue" where
  "queue_push_locked q c = q\<lparr>q_items := q_items q @ [c]\<rparr>"

definition skyuv_socket_command_queue_push ::
    "command_queue option \<Rightarrow> command option \<Rightarrow> skyuv_error \<times> command_queue option" where
  "skyuv_socket_command_queue_push q c =
     (case (q, c) of
        (Some q, Some c) \<Rightarrow>
          (if \<not> q_mutex q then (SKYUV_ERROR_INVALID_ARGUMENT, Some q)
           else if \<not> q_accepting q \<or> c_type c = COMMAND_EXIT
           then (SKYUV_ERROR_INVALID_STATE, Some q)
           else (SKYUV_OK, Some (queue_push_locked q c)))
      | _ \<Rightarrow> (SKYUV_ERROR_INVALID_ARGUMENT, q))"

definition skyuv_socket_command_queue_stop ::
    "command_queue option \<Rightarrow> command option \<Rightarrow> skyuv_error \<times> command_queue option" where
  "skyuv_socket_command_queue_stop q c =
     (case (q, c) of
        (Some q, Some c) \<Rightarrow>
          (if \<not> q_mutex q \<or> c_type c \<noteq> COMMAND_EXIT then (SKYUV_ERROR_INVALID_ARGUMENT, Some q)
           else if \<not> q_accepting q then (SKYUV_ERROR_INVALID_STATE, Some q)
           else (SKYUV_OK, Some (queue_push_locked (q\<lparr>q_accepting := False\<rparr>) c)))
      | _ \<Rightarrow> (SKYUV_ERROR_INVALID_ARGUMENT, q))"

definition skyuv_socket_command_queue_pop ::
    "command_queue option \<Rightarrow> command option \<times> command_queue option" where
  "skyuv_socket_command_queue_pop q =
     (case q of None \<Rightarrow> (None, None)
      | Some q \<Rightarrow>
          (if \<not> q_mutex q then (None, Some q)
           else case q_items q of
             [] \<Rightarrow> (None, Some q)
           | c # cs \<Rightarrow> (Some c, Some (q\<lparr>q_items := cs\<rparr>))))"

section \<open>The queue over linked nodes\<close>

text \<open>
  \<open>h_next\<close> is the \<^verbatim>\<open>next\<close> field of every node, \<open>h_cmd\<close> the rest of the node.
\<close>

record command_heap =
  h_next :: "ptr \<Rightarrow> ptr option"
  h_cmd :: "ptr \<Rightarrow> command"

record linked_queue =
  lq_mutex :: bool
  lq_head :: "ptr option"
  lq_tail :: "ptr option"
  lq_accepting :: bool

definition linked_push_locked ::
    "command_heap \<Rightarrow> linked_queue \<Rightarrow> ptr \<Rightarrow> command_heap \<times> linked_queue" where
  "linked_push_locked h q p =
     (let h1 = h\<lparr>h_next := (h_next h)(p := None)\<rparr>
      in case lq_tail q of
           None \<Rightarrow> (h1, q\<lparr>lq_head := Some p, lq_tail := Some p\<rparr>)
         | Some t \<Rightarrow> (h1\<lparr>h_next := (h_next h1)(t := Some p)\<rparr>, q\<lparr>lq_tail := Some p\<rparr>))"

definition linked_push ::
    "command_heap \<Rightarrow> linked_queue \<Rightarrow> ptr \<Rightarrow> skyuv_error \<times> command_heap \<times> linked_queue" where
  "linked_push h q p =
     (if \<not> lq_mutex q then (SKYUV_ERROR_INVALID_ARGUMENT, h, q)
      else if \<not> lq_accepting q \<or> c_type (h_cmd h p) = COMMAND_EXIT
      then (SKYUV_ERROR_INVALID_STATE, h, q)
      else (SKYUV_OK, linked_push_locked h q p))"

definition linked_stop ::
    "command_heap \<Rightarrow> linked_queue \<Rightarrow> ptr \<Rightarrow> skyuv_error \<times> command_heap \<times> linked_queue" where
  "linked_stop h q p =
     (if \<not> lq_mutex q \<or> c_type (h_cmd h p) \<noteq> COMMAND_EXIT
      then (SKYUV_ERROR_INVALID_ARGUMENT, h, q)
      else if \<not> lq_accepting q then (SKYUV_ERROR_INVALID_STATE, h, q)
      else (SKYUV_OK, linked_push_locked h (q\<lparr>lq_accepting := False\<rparr>) p))"

definition linked_pop ::
    "command_heap \<Rightarrow> linked_queue \<Rightarrow> ptr option \<times> command_heap \<times> linked_queue" where
  "linked_pop h q =
     (if \<not> lq_mutex q then (None, h, q)
      else case lq_head q of
        None \<Rightarrow> (None, h, q)
      | Some p \<Rightarrow>
          (let q1 = q\<lparr>lq_head := h_next h p\<rparr>;
               q2 = (if lq_head q1 = None then q1\<lparr>lq_tail := None\<rparr> else q1)
           in (Some p, h\<lparr>h_next := (h_next h)(p := None)\<rparr>, q2)))"

text \<open>
  \<open>chain\<close>: following the \<^verbatim>\<open>next\<close> fields from a pointer visits exactly the listed nodes
  and ends in NULL. \<open>represents\<close>: the queue's nodes are \<open>ps\<close>, in order.
\<close>

fun chain :: "(ptr \<Rightarrow> ptr option) \<Rightarrow> ptr option \<Rightarrow> ptr list \<Rightarrow> bool" where
  "chain nxt start [] \<longleftrightarrow> start = None"
| "chain nxt start (p # ps) \<longleftrightarrow> start = Some p \<and> chain nxt (nxt p) ps"

definition represents :: "command_heap \<Rightarrow> linked_queue \<Rightarrow> ptr list \<Rightarrow> bool" where
  "represents h q ps \<longleftrightarrow>
     chain (h_next h) (lq_head q) ps \<and> distinct ps \<and>
     lq_tail q = (if ps = [] then None else Some (last ps))"

text \<open>The list queue that a linked queue with nodes \<open>ps\<close> stands for.\<close>

definition abstract_queue :: "command_heap \<Rightarrow> linked_queue \<Rightarrow> ptr list \<Rightarrow> command_queue" where
  "abstract_queue h q ps =
     \<lparr>q_mutex = lq_mutex q, q_items = map (h_cmd h) ps, q_accepting = lq_accepting q\<rparr>"

section \<open>The pointer operations implement the list operations\<close>

lemma chain_update_other:
  "p \<notin> set ps \<Longrightarrow> chain (nxt(p := v)) start ps = chain nxt start ps"
  by (induction ps arbitrary: start) auto

lemma chain_unique: "chain nxt start ps \<Longrightarrow> chain nxt start qs \<Longrightarrow> ps = qs"
proof (induction ps arbitrary: start qs)
  case Nil
  then show ?case by (cases qs) auto
next
  case (Cons p ps)
  then show ?case by (cases qs) auto
qed

lemma chain_append_node:
  assumes "chain nxt start ps" and "ps \<noteq> []" and "p \<notin> set ps" and "distinct ps"
  shows "chain (nxt(p := None, last ps := Some p)) start (ps @ [p])"
  using assms
proof (induction ps arbitrary: start)
  case Nil
  then show ?case by simp
next
  case (Cons x xs)
  show ?case
  proof (cases "xs = []")
    case True
    with Cons.prems show ?thesis by auto
  next
    case False
    with Cons.prems have "chain (nxt(p := None, last xs := Some p)) (nxt x) (xs @ [p])"
      by (intro Cons.IH) auto
    moreover have "x \<noteq> last xs" using Cons.prems False by auto
    ultimately show ?thesis using Cons.prems False by (auto simp: fun_upd_def)
  qed
qed

lemma represents_push_locked:
  assumes "represents h q ps" and "p \<notin> set ps"
  shows "represents (fst (linked_push_locked h q p)) (snd (linked_push_locked h q p)) (ps @ [p])
    \<and> h_cmd (fst (linked_push_locked h q p)) = h_cmd h
    \<and> lq_mutex (snd (linked_push_locked h q p)) = lq_mutex q
    \<and> lq_accepting (snd (linked_push_locked h q p)) = lq_accepting q"
proof (cases "ps = []")
  case True
  with assms show ?thesis
    by (simp add: represents_def linked_push_locked_def Let_def)
next
  case False
  with assms have "chain ((h_next h)(p := None, last ps := Some p)) (lq_head q) (ps @ [p])"
    by (intro chain_append_node) (auto simp: represents_def)
  with assms False show ?thesis
    by (simp add: represents_def linked_push_locked_def Let_def)
qed

lemma represents_pop_Cons:
  assumes "represents h q (p # ps)" and "lq_mutex q"
  shows "fst (linked_pop h q) = Some p
    \<and> represents (fst (snd (linked_pop h q))) (snd (snd (linked_pop h q))) ps
    \<and> h_cmd (fst (snd (linked_pop h q))) = h_cmd h
    \<and> lq_mutex (snd (snd (linked_pop h q))) = lq_mutex q
    \<and> lq_accepting (snd (snd (linked_pop h q))) = lq_accepting q"
proof (cases ps)
  case Nil
  with assms show ?thesis
    by (simp add: represents_def linked_pop_def Let_def)
next
  case (Cons r rs)
  with assms show ?thesis
    by (auto simp: represents_def linked_pop_def Let_def chain_update_other)
qed

lemma linked_pop_Nil:
  assumes "represents h q []"
  shows "linked_pop h q = (None, h, q)"
  using assms by (simp add: represents_def linked_pop_def)

text \<open>
  The refinement: on a queue that represents \<open>ps\<close>, pushing a node that is not already
  in the queue, stopping and popping give the result code and the list that the list
  operations give.
\<close>

lemma linked_push_refines:
  assumes "represents h q ps" and "p \<notin> set ps"
  defines "r \<equiv> linked_push h q p"
  defines "ps' \<equiv> (if fst r = SKYUV_OK then ps @ [p] else ps)"
  shows "represents (fst (snd r)) (snd (snd r)) ps' \<and>
    skyuv_socket_command_queue_push (Some (abstract_queue h q ps)) (Some (h_cmd h p))
      = (fst r, Some (abstract_queue (fst (snd r)) (snd (snd r)) ps'))"
  using assms(1) represents_push_locked [OF assms(1,2)]
  unfolding r_def ps'_def
  by (auto simp: linked_push_def skyuv_socket_command_queue_push_def abstract_queue_def
      queue_push_locked_def)

lemma linked_stop_refines:
  assumes "represents h q ps" and "p \<notin> set ps"
  defines "r \<equiv> linked_stop h q p"
  defines "ps' \<equiv> (if fst r = SKYUV_OK then ps @ [p] else ps)"
  shows "represents (fst (snd r)) (snd (snd r)) ps' \<and>
    skyuv_socket_command_queue_stop (Some (abstract_queue h q ps)) (Some (h_cmd h p))
      = (fst r, Some (abstract_queue (fst (snd r)) (snd (snd r)) ps'))"
proof -
  have "represents h (q\<lparr>lq_accepting := False\<rparr>) ps"
    using assms(1) by (simp add: represents_def)
  note represents_push_locked [OF this assms(2)]
  then show ?thesis
    using assms(1) unfolding r_def ps'_def
    by (auto simp: linked_stop_def skyuv_socket_command_queue_stop_def abstract_queue_def
        queue_push_locked_def)
qed

lemma linked_pop_refines:
  assumes "represents h q ps" and "lq_mutex q"
  defines "r \<equiv> linked_pop h q"
  shows "represents (fst (snd r)) (snd (snd r)) (tl ps) \<and>
    fst r = (case ps of [] \<Rightarrow> None | p # _ \<Rightarrow> Some p) \<and>
    skyuv_socket_command_queue_pop (Some (abstract_queue h q ps))
      = (map_option (h_cmd h) (fst r), Some (abstract_queue (fst (snd r)) (snd (snd r)) (tl ps)))"
proof (cases ps)
  case Nil
  with assms linked_pop_Nil [of h q] show ?thesis
    by (simp add: skyuv_socket_command_queue_pop_def abstract_queue_def)
next
  case (Cons p rest)
  with assms represents_pop_Cons [of h q p rest] show ?thesis
    by (simp add: skyuv_socket_command_queue_pop_def abstract_queue_def)
qed

section \<open>The queue as a first-in first-out buffer\<close>

text \<open>
  A linked queue that accepts commands is an instance of the FIFO contract: its
  contents are the nodes it represents, and a node may be pushed while it is not in
  the queue already and does not carry the exit command.
\<close>

definition linked_contents :: "command_heap \<times> linked_queue \<Rightarrow> ptr list" where
  "linked_contents hq = (THE ps. represents (fst hq) (snd hq) ps)"

definition linked_ok :: "command_heap \<times> linked_queue \<Rightarrow> bool" where
  "linked_ok hq \<longleftrightarrow> lq_mutex (snd hq) \<and> lq_accepting (snd hq) \<and> (\<exists>ps. represents (fst hq) (snd hq) ps)"

definition linked_can_push :: "ptr \<Rightarrow> command_heap \<times> linked_queue \<Rightarrow> bool" where
  "linked_can_push p hq \<longleftrightarrow> p \<notin> set (linked_contents hq) \<and> c_type (h_cmd (fst hq) p) \<noteq> COMMAND_EXIT"

lemma represents_unique: "represents h q ps \<Longrightarrow> represents h q qs \<Longrightarrow> ps = qs"
  by (auto simp: represents_def intro: chain_unique)

lemma linked_contents_eq: "represents (fst hq) (snd hq) ps \<Longrightarrow> linked_contents hq = ps"
  by (auto simp: linked_contents_def intro: represents_unique)

interpretation cmdq: fifo_queue linked_ok linked_contents linked_can_push
    "\<lambda>p hq. snd (linked_push (fst hq) (snd hq) p)" "\<lambda>hq. linked_pop (fst hq) (snd hq)"
proof (unfold_locales, goal_cases)
  case (1 hq p)
  then obtain ps where ps: "represents (fst hq) (snd hq) ps"
    by (auto simp: linked_ok_def)
  then have "linked_contents hq = ps" by (rule linked_contents_eq)
  moreover have "snd (linked_push (fst hq) (snd hq) p) = linked_push_locked (fst hq) (snd hq) p"
    using 1 by (simp add: linked_push_def linked_ok_def linked_can_push_def)
  ultimately show ?case
    using 1 represents_push_locked [OF ps, of p]
    by (auto simp: linked_ok_def linked_can_push_def intro: linked_contents_eq)
next
  case (2 hq)
  then have "represents (fst hq) (snd hq) []"
    by (metis linked_contents_eq linked_ok_def)
  then show ?case by (simp add: linked_pop_Nil)
next
  case (3 hq p ps)
  then have "represents (fst hq) (snd hq) (p # ps)"
    by (metis linked_contents_eq linked_ok_def)
  with 3 represents_pop_Cons [of "fst hq" "snd hq" p ps]
  have "fst (linked_pop (fst hq) (snd hq)) = Some p"
    and "linked_ok (snd (linked_pop (fst hq) (snd hq)))"
    and "linked_contents (snd (linked_pop (fst hq) (snd hq))) = ps"
    by (auto simp: linked_ok_def intro: linked_contents_eq)
  then show ?case by (metis prod.collapse)
qed

text \<open>The list queue satisfies the same contract.\<close>

definition queue_open :: "command_queue \<Rightarrow> bool" where
  "queue_open q \<longleftrightarrow> q_mutex q \<and> q_accepting q"

definition queue_takes :: "command \<Rightarrow> command_queue \<Rightarrow> bool" where
  "queue_takes c q \<longleftrightarrow> c_type c \<noteq> COMMAND_EXIT"

definition queue_push :: "command \<Rightarrow> command_queue \<Rightarrow> command_queue" where
  "queue_push c q = the (snd (skyuv_socket_command_queue_push (Some q) (Some c)))"

definition queue_pop :: "command_queue \<Rightarrow> command option \<times> command_queue" where
  "queue_pop q = map_prod id the (skyuv_socket_command_queue_pop (Some q))"

interpretation listq: fifo_queue queue_open q_items queue_takes queue_push queue_pop
  by unfold_locales
     (auto simp: queue_open_def queue_takes_def queue_push_def queue_pop_def queue_push_locked_def
       skyuv_socket_command_queue_push_def skyuv_socket_command_queue_pop_def)

section \<open>Properties\<close>

text \<open>
  C8. The pointer queue implements the list queue. On linked nodes that represent a list
  without repetition, pushing a node that is not queued, stopping with it, and popping
  return the same codes and the same command as the list operations, and leave nodes that
  represent the resulting list, with the tail pointer right.
\<close>

theorem linked_queue_refines:
  assumes "represents h q ps" and "p \<notin> set ps" and "lq_mutex q"
  shows "(case linked_push h q p of (r, h', q') \<Rightarrow>
      \<exists>ps'. represents h' q' ps' \<and>
        skyuv_socket_command_queue_push (Some (abstract_queue h q ps)) (Some (h_cmd h p))
          = (r, Some (abstract_queue h' q' ps'))) \<and>
    (case linked_stop h q p of (r, h', q') \<Rightarrow>
      \<exists>ps'. represents h' q' ps' \<and>
        skyuv_socket_command_queue_stop (Some (abstract_queue h q ps)) (Some (h_cmd h p))
          = (r, Some (abstract_queue h' q' ps'))) \<and>
    (case linked_pop h q of (r, h', q') \<Rightarrow>
      \<exists>ps'. represents h' q' ps' \<and>
        skyuv_socket_command_queue_pop (Some (abstract_queue h q ps))
          = (map_option (h_cmd h) r, Some (abstract_queue h' q' ps')))"
  using linked_push_refines [OF assms(1,2)] linked_stop_refines [OF assms(1,2)]
    linked_pop_refines [OF assms(1,3)]
  by (auto split: prod.splits)

theorem linked_queue_refines_witness:
  "let h = \<lparr>h_next = (\<lambda>p. if p = 1 then Some 2 else None), h_cmd = (\<lambda>p. command0\<lparr>c_port := int p\<rparr>)\<rparr>;
       q = \<lparr>lq_mutex = True, lq_head = Some 1, lq_tail = Some 2, lq_accepting = True\<rparr>
   in represents h q [1, 2] \<and>
      (\<exists>ps'. represents (fst (snd (linked_push h q 3))) (snd (snd (linked_push h q 3))) ps')"
proof -
  let ?h = "\<lparr>h_next = (\<lambda>p. if p = 1 then Some 2 else None), h_cmd = (\<lambda>p. command0\<lparr>c_port := int p\<rparr>)\<rparr>"
  let ?q = "\<lparr>lq_mutex = True, lq_head = Some 1, lq_tail = Some 2, lq_accepting = True\<rparr>"
  have r: "represents ?h ?q [1, 2]" by (simp add: represents_def)
  with linked_queue_refines [OF r, of 3] show ?thesis by (auto simp: Let_def split: prod.splits)
qed

text \<open>
  C9. Commands are served in the order in which they were accepted: for every
  interleaving of pushes by worker threads and pops by the network thread, the commands
  that came out followed by those still queued are the commands queued before followed
  by those accepted. Nothing is lost, duplicated or reordered.
\<close>

theorem commands_in_order:
  assumes "q_mutex q" and "q_accepting q"
    and "fifo_run queue_takes queue_push queue_pop ops q = (accepted, served, q')"
  shows "served @ q_items q' = q_items q @ accepted"
  using listq.fifo_order [OF _ assms(3)] assms(1,2) by (simp add: queue_open_def)

theorem commands_in_order_witness:
  "let c1 = command0\<lparr>c_type := COMMAND_START\<rparr>; c2 = command0\<lparr>c_type := COMMAND_CLOSE\<rparr>;
       q = \<lparr>q_mutex = True, q_items = [], q_accepting = True\<rparr>
   in case fifo_run queue_takes queue_push queue_pop [Enq c1, Enq c2, Deq] q of
        (accepted, served, q') \<Rightarrow> accepted = [c1, c2] \<and> served = [c1] \<and> served @ q_items q' = accepted"
proof -
  let ?c1 = "command0\<lparr>c_type := COMMAND_START\<rparr>" and ?c2 = "command0\<lparr>c_type := COMMAND_CLOSE\<rparr>"
  let ?q = "\<lparr>q_mutex = True, q_items = [], q_accepting = True\<rparr>"
  have r: "fifo_run queue_takes queue_push queue_pop [Enq ?c1, Enq ?c2, Deq] ?q
      = ([?c1, ?c2], [?c1], \<lparr>q_mutex = True, q_items = [?c2], q_accepting = True\<rparr>)" by code_simp
  from commands_in_order [OF _ _ r] r show ?thesis by (simp add: Let_def)
qed

end
