(* ===== verification/Udp_Address.thy ===== *)
theory Udp_Address
  imports Skyuv_Prelude
begin

text \<open>
  The address blobs that travel with UDP messages. \<^verbatim>\<open>udp_received\<close> appends to the
  payload a tag byte (1 for IPv4, 2 for IPv6), the port in network order and the
  address; \<^verbatim>\<open>decode_udp_address\<close> reads such a blob back when a message is sent, and
  \<^verbatim>\<open>socket_server_udp_address\<close> of the compatibility layer finds it behind the payload.
\<close>

section \<open>Socket addresses\<close>

text \<open>
  The fields the program reads and writes of \<^verbatim>\<open>struct sockaddr_in\<close> and
  \<^verbatim>\<open>struct sockaddr_in6\<close>: the port and the address, both as the bytes of memory.
  \<open>sockaddr0\<close> is a zeroed \<^verbatim>\<open>struct sockaddr_storage\<close>.
\<close>

datatype sockaddr =
    Sockaddr_in bytes bytes
  | Sockaddr_in6 bytes bytes
  | Sockaddr_none

fun wf_sockaddr :: "sockaddr \<Rightarrow> bool" where
  "wf_sockaddr (Sockaddr_in port addr) \<longleftrightarrow> length port = 2 \<and> length addr = 4"
| "wf_sockaddr (Sockaddr_in6 port addr) \<longleftrightarrow> length port = 2 \<and> length addr = 16"
| "wf_sockaddr Sockaddr_none \<longleftrightarrow> False"

text \<open>\<^verbatim>\<open>ntohs\<close> of a port stored in network order.\<close>

definition ntohs :: "bytes \<Rightarrow> int" where
  "ntohs port = (case port of [hi, lo] \<Rightarrow> uint hi * 256 + uint lo | _ \<Rightarrow> 0)"

section \<open>Encoding and decoding\<close>

text \<open>
  The size and the bytes \<^verbatim>\<open>udp_received\<close> writes behind the payload
  (\<^verbatim>\<open>socket_internal.c\<close>, lines 448 to 469).
\<close>

definition udp_address_size :: "sockaddr \<Rightarrow> nat" where
  "udp_address_size a = (case a of Sockaddr_in _ _ \<Rightarrow> 7 | _ \<Rightarrow> 19)"

fun encode_udp_address :: "sockaddr \<Rightarrow> bytes" where
  "encode_udp_address (Sockaddr_in port addr) = 1 # port @ addr"
| "encode_udp_address (Sockaddr_in6 port addr) = 2 # port @ addr"
| "encode_udp_address Sockaddr_none = []"

definition decode_udp_address :: "bytes option \<Rightarrow> size_t \<Rightarrow> uv_code + sockaddr" where
  "decode_udp_address encoded sz =
     (case encoded of None \<Rightarrow> Inl UV_EINVAL
      | Some bs \<Rightarrow>
          (if sz \<noteq> 7 \<and> sz \<noteq> 19 then Inl UV_EINVAL
           else if sz = 7 \<and> bs ! 0 = 1
           then Inr (Sockaddr_in (take 2 (drop 1 bs)) (take 4 (drop 3 bs)))
           else if sz = 19 \<and> bs ! 0 = 2
           then Inr (Sockaddr_in6 (take 2 (drop 1 bs)) (take 16 (drop 3 bs)))
           else Inl UV_EINVAL))"

section \<open>Round trips\<close>

lemma length_encode: "wf_sockaddr a \<Longrightarrow> length (encode_udp_address a) = udp_address_size a"
  by (cases a) (auto simp: udp_address_size_def)

lemma decode_encode:
  assumes "wf_sockaddr a"
  shows "decode_udp_address (Some (encode_udp_address a @ rest)) (of_nat (udp_address_size a))
    = Inr a"
proof (cases a)
  case (Sockaddr_in port addr)
  with assms show ?thesis
    by (auto simp: decode_udp_address_def udp_address_size_def length_Suc_conv
        numeral_eq_Suc)
next
  case (Sockaddr_in6 port addr)
  with assms show ?thesis
    by (simp add: decode_udp_address_def udp_address_size_def drop_append)
next
  case Sockaddr_none
  with assms show ?thesis by simp
qed

lemma take_blob:
  assumes "bs \<noteq> []"
  shows "take (3 + n) bs = hd bs # take 2 (drop 1 bs) @ take n (drop 3 bs)"
proof -
  have "take (3 + n) bs = take 1 bs @ take 2 (drop 1 bs) @ take n (drop 3 bs)"
    using take_add [of 1 "2 + n" bs] take_add [of 2 n "drop 1 bs"] by (simp add: numeral_3_eq_3)
  then show ?thesis using assms by (cases bs) auto
qed

lemma encode_decode:
  assumes "decode_udp_address (Some bs) sz = Inr a" and "unat sz \<le> length bs"
  shows "wf_sockaddr a \<and> encode_udp_address a = take (unat sz) bs"
proof -
  from assms(1) consider
      (v4) "sz = 7" "bs ! 0 = 1" "a = Sockaddr_in (take 2 (drop 1 bs)) (take 4 (drop 3 bs))"
    | (v6) "sz = 19" "bs ! 0 = 2" "a = Sockaddr_in6 (take 2 (drop 1 bs)) (take 16 (drop 3 bs))"
    by (auto simp: decode_udp_address_def split: if_splits)
  then show ?thesis
  proof cases
    case v4
    with assms(2) have "bs \<noteq> []" by auto
    with v4 assms(2) take_blob [of bs 4] show ?thesis by (simp add: hd_conv_nth)
  next
    case v6
    with assms(2) have "bs \<noteq> []" by auto
    with v6 assms(2) take_blob [of bs 16] show ?thesis by (simp add: hd_conv_nth)
  qed
qed

section \<open>Properties\<close>



end
