(* ===== verification/Socket_Runtime.thy ===== *)
theory Socket_Runtime
  imports Socket_Id Command_Queue Udp_Address
begin

text \<open>
  State and basic operations of the socket runtime
  (\<^verbatim>\<open>src/src/socket/socket_internal.c\<close>): sockets, events, the slot table, and what the
  program shares with libuv.

  A socket (\<^verbatim>\<open>struct skyuv_socket_entry\<close>) lives in its slot from \<^verbatim>\<open>reserve_entry\<close> until
  the code frees it, and its id does not change, so a pointer to a socket is
  represented by the socket's id. Following a pointer whose socket has been freed is
  recorded as the fault \<open>Use_after_free\<close>; calling \<^verbatim>\<open>uv_close\<close> on a handle that is
  already closing, which libuv forbids (it asserts), as \<open>Double_close\<close>.

  libuv is not part of the sources. The return codes of its functions and the
  outcome of every allocation are the fields of \<open>uv_env\<close>, an argument of each handler;
  a handler calls each of these functions at most once, so one field per function is
  general. What the loop keeps between two callbacks (requests whose callback is
  outstanding, watchers that are armed, handles that are closing) is \<open>uv_loop\<close>.
\<close>

section \<open>Types\<close>

datatype socket_state =
    STATE_INVALID | STATE_RESERVED | STATE_LISTEN_PENDING | STATE_LISTENING
  | STATE_CONNECTING | STATE_ACCEPTED_PAUSED | STATE_CONNECTED | STATE_CONNECTED_PAUSED
  | STATE_HALFCLOSE_READ | STATE_UDP | STATE_CLOSING

datatype event_type =
    EVENT_DATA | EVENT_CLOSE | EVENT_OPEN | EVENT_ACCEPT | EVENT_ERROR | EVENT_EXIT
  | EVENT_UDP | EVENT_WARNING | EVENT_REOPEN_LOG | EVENT_PROCESS_SHUTDOWN

text \<open>The \<^verbatim>\<open>value\<close> of an event: a number, or the libuv code of an error.\<close>

datatype event_value = V_int int | V_code uv_code

text \<open>\<open>ev_data\<close> is the buffer an event owns: its address and its bytes.\<close>

record event =
  ev_type :: event_type
  ev_id :: sock_id
  ev_opaque :: uintptr
  ev_value :: event_value
  ev_data :: "(ptr option \<times> bytes) option"
  ev_size :: size_t

text \<open>\<^verbatim>\<open>struct skyuv_socket_write\<close> and \<^verbatim>\<open>struct skyuv_udp_write\<close> have the same fields.\<close>

record socket_write =
  w_entry :: sock_id
  w_data :: "ptr option"
  w_size :: size_t
  w_release :: "release_fn option"

definition write_buffer :: "socket_write \<Rightarrow> buffer" where
  "write_buffer w = (w_release w, w_data w)"

text \<open>
  \<^verbatim>\<open>struct skyuv_socket_entry\<close>. The two write lists stand for the head, tail and
  \<^verbatim>\<open>next\<close> pointers.
\<close>

record entry =
  e_state :: socket_state
  e_id :: sock_id
  e_external_fd :: int
  e_opaque :: uintptr
  e_initialized :: bool
  e_is_udp :: bool
  e_udp_target :: sockaddr
  e_has_udp_target :: bool
  e_high :: "socket_write list"
  e_low :: "socket_write list"
  e_writing :: bool
  e_queued_bytes :: size_t
  e_warn_size :: size_t
  e_pump_pending :: bool
  e_read_bytes :: u64
  e_write_bytes :: u64
  e_read_time :: u64
  e_write_time :: u64
  e_accept_count :: u64
  e_reading :: bool
  e_close_requested :: bool
  e_name :: string

definition entry0 :: entry where
  "entry0 = \<lparr>e_state = STATE_INVALID, e_id = 0, e_external_fd = 0, e_opaque = 0,
     e_initialized = False, e_is_udp = False, e_udp_target = Sockaddr_none,
     e_has_udp_target = False, e_high = [], e_low = [], e_writing = False,
     e_queued_bytes = 0, e_warn_size = 0, e_pump_pending = False, e_read_bytes = 0,
     e_write_bytes = 0, e_read_time = 0, e_write_time = 0, e_accept_count = 0,
     e_reading = False, e_close_requested = False, e_name = ''''\<rparr>"

text \<open>The handles of the loop: one per socket, the wake-up handle, three signal handles.\<close>

datatype signal = Hangup | Interrupt | Termination
datatype uv_handle = H_socket sock_id | H_async | H_signal signal

text \<open>
  \<open>l_writes\<close>, \<open>l_udp_sends\<close>, \<open>l_connects\<close>: requests libuv has accepted and not yet
  called back. \<open>l_reading\<close>, \<open>l_receiving\<close>, \<open>l_listening\<close>: watchers that
  \<^verbatim>\<open>uv_read_start\<close>, \<^verbatim>\<open>uv_udp_recv_start\<close> and \<^verbatim>\<open>uv_listen\<close> have armed. \<open>l_nodelay\<close>: sockets
  whose TCP_NODELAY option is set. \<open>l_async\<close>: \<^verbatim>\<open>uv_async_send\<close> has been called and the
  wake-up callback has not run since. \<open>l_closing\<close>: handles given to \<^verbatim>\<open>uv_close\<close>; a socket's
  handle leaves the list when its close callback runs. \<open>l_submitted\<close>, \<open>l_datagrams\<close>: the buffers \<^verbatim>\<open>uv_write\<close> and
  \<^verbatim>\<open>uv_udp_send\<close> have accepted, oldest first, the latter with their target; the length of a \<^verbatim>\<open>uv_buf_t\<close> is an \<^verbatim>\<open>unsigned int\<close>.
\<close>

type_synonym uv_buf = "ptr option \<times> u32"

definition uv_buf_init :: "socket_write \<Rightarrow> uv_buf" where
  "uv_buf_init w = (w_data w, ucast (w_size w))"

record uv_loop =
  l_writes :: "socket_write list"
  l_udp_sends :: "socket_write list"
  l_connects :: "sock_id list"
  l_reading :: "sock_id \<Rightarrow> bool"
  l_receiving :: "sock_id \<Rightarrow> bool"
  l_listening :: "sock_id \<Rightarrow> bool"
  l_nodelay :: "sock_id \<Rightarrow> bool"
  l_async :: bool
  l_closing :: "uv_handle list"
  l_submitted :: "(sock_id \<times> uv_buf) list"
  l_datagrams :: "(sock_id \<times> uv_buf \<times> sockaddr) list"

datatype fault = Double_close | Use_after_free

text \<open>
  \<^verbatim>\<open>struct skyuv_socket_runtime\<close>. The slot and generation arrays are functions of the
  slot number. \<open>r_taken\<close> is the log of payload buffers the runtime has become the owner
  of, \<open>r_released\<close> the log of those it has given back to the release function, \<open>r_freed\<close> the log of receive buffers freed, \<open>r_fault\<close> the first fault.
\<close>

record runtime =
  r_loop :: uv_loop
  r_signal_initialized :: "signal \<Rightarrow> bool"
  r_process_signals_initialized :: bool
  r_process_signals_failed :: bool
  r_commands :: command_queue
  r_slots :: "u16 \<Rightarrow> entry option"
  r_generations :: "u16 \<Rightarrow> u16"
  r_next_slot :: u32
  r_events :: "event list"
  r_pump :: "sock_id list"
  r_entry_count :: u32
  r_process_shutdown_requested :: c_int32
  r_exiting :: bool
  r_exit_ready :: bool
  r_current_time :: u64
  r_taken :: "buffer list"
  r_released :: "buffer list"
  r_freed :: "ptr list"
  r_fault :: "fault option"

record uv_env =
  en_event_alloc :: "event_type \<Rightarrow> bool"
  en_alloc :: bool
  en_malloc :: "ptr option"
  en_ip4_addr :: "string \<Rightarrow> int \<Rightarrow> uv_code \<times> sockaddr"
  en_ip6_addr :: "string \<Rightarrow> int \<Rightarrow> uv_code \<times> sockaddr"
  en_tcp_init :: uv_code
  en_tcp_bind :: uv_code
  en_listen :: uv_code
  en_tcp_connect :: uv_code
  en_tcp_open :: uv_code
  en_accept :: uv_code
  en_read_start :: uv_code
  en_read_stop :: uv_code
  en_nodelay :: uv_code
  en_write :: uv_code
  en_udp_init :: uv_code
  en_udp_bind :: uv_code
  en_udp_recv_start :: uv_code
  en_udp_send :: uv_code
  en_getname :: "uv_code \<times> sockaddr"
  en_getsockname :: "uv_code \<times> sockaddr"
  en_ip_name :: "sockaddr \<Rightarrow> uv_code \<times> string"
  en_signal_init :: "signal \<Rightarrow> uv_code"
  en_signal_start :: "signal \<Rightarrow> uv_code"

section \<open>Following pointers and calling libuv\<close>

definition raise_fault :: "fault \<Rightarrow> runtime \<Rightarrow> runtime" where
  "raise_fault f rt = (if r_fault rt = None then rt\<lparr>r_fault := Some f\<rparr> else rt)"

definition find_entry :: "build_config \<Rightarrow> runtime \<Rightarrow> sock_id \<Rightarrow> entry option" where
  "find_entry cfg rt i =
     (case r_slots rt (skyuv_socket_id_slot cfg i) of
        None \<Rightarrow> None
      | Some e \<Rightarrow> if e_id e \<noteq> i then None else Some e)"

text \<open>
  Read through a pointer (the rest of the handler gets the structure it points to),
  and write through a pointer.
\<close>

definition deref :: "build_config \<Rightarrow> runtime \<Rightarrow> sock_id \<Rightarrow> (entry \<Rightarrow> runtime) \<Rightarrow> runtime" where
  "deref cfg rt i k =
     (case find_entry cfg rt i of None \<Rightarrow> raise_fault Use_after_free rt | Some e \<Rightarrow> k e)"

definition upd_entry :: "build_config \<Rightarrow> sock_id \<Rightarrow> (entry \<Rightarrow> entry) \<Rightarrow> runtime \<Rightarrow> runtime" where
  "upd_entry cfg i f rt =
     deref cfg rt i (\<lambda>e. rt\<lparr>r_slots := (r_slots rt)(skyuv_socket_id_slot cfg i \<mapsto> f e)\<rparr>)"

definition upd_loop :: "(uv_loop \<Rightarrow> uv_loop) \<Rightarrow> runtime \<Rightarrow> runtime" where
  "upd_loop f rt = rt\<lparr>r_loop := f (r_loop rt)\<rparr>"

definition uv_is_closing :: "runtime \<Rightarrow> uv_handle \<Rightarrow> bool" where
  "uv_is_closing rt h \<longleftrightarrow> h \<in> set (l_closing (r_loop rt))"

text \<open>
  \<^verbatim>\<open>uv_close\<close>: no other callback of the handle's watchers runs from now on; the
  outstanding requests are called back with \<^verbatim>\<open>UV_ECANCELED\<close>, then the close callback.
\<close>

definition uv_close :: "uv_handle \<Rightarrow> runtime \<Rightarrow> runtime" where
  "uv_close h rt =
     (if uv_is_closing rt h then raise_fault Double_close rt
      else upd_loop (\<lambda>l. l\<lparr>l_closing := l_closing l @ [h]\<rparr>) rt)"

text \<open>Before it runs the callback of a request, libuv takes the request off its list.\<close>

definition uv_write_done :: "socket_write \<Rightarrow> runtime \<Rightarrow> runtime" where
  "uv_write_done w rt = upd_loop (\<lambda>l. l\<lparr>l_writes := remove1 w (l_writes l)\<rparr>) rt"

definition uv_udp_send_done :: "socket_write \<Rightarrow> runtime \<Rightarrow> runtime" where
  "uv_udp_send_done w rt = upd_loop (\<lambda>l. l\<lparr>l_udp_sends := remove1 w (l_udp_sends l)\<rparr>) rt"

definition uv_connect_done :: "sock_id \<Rightarrow> runtime \<Rightarrow> runtime" where
  "uv_connect_done i rt = upd_loop (\<lambda>l. l\<lparr>l_connects := remove1 i (l_connects l)\<rparr>) rt"

text \<open>The entry is released and libuv forgets its handle, before the close callback.\<close>

definition uv_forget :: "uv_handle \<Rightarrow> runtime \<Rightarrow> runtime" where
  "uv_forget h rt = upd_loop (\<lambda>l. l\<lparr>l_closing := remove1 h (l_closing l),
     l_reading := (\<lambda>i. l_reading l i \<and> h \<noteq> H_socket i),
     l_receiving := (\<lambda>i. l_receiving l i \<and> h \<noteq> H_socket i),
     l_listening := (\<lambda>i. l_listening l i \<and> h \<noteq> H_socket i),
     l_nodelay := (\<lambda>i. l_nodelay l i \<and> h \<noteq> H_socket i)\<rparr>) rt"

section \<open>Events\<close>

definition enqueue_event :: "event \<Rightarrow> runtime \<Rightarrow> runtime" where
  "enqueue_event ev rt = rt\<lparr>r_events := r_events rt @ [ev]\<rparr>"

definition push_event ::
    "uv_env \<Rightarrow> event_type \<Rightarrow> sock_id \<Rightarrow> uintptr \<Rightarrow> event_value \<Rightarrow> runtime \<Rightarrow> runtime" where
  "push_event env ty i opq v rt =
     (if \<not> en_event_alloc env ty then rt
      else enqueue_event \<lparr>ev_type = ty, ev_id = i, ev_opaque = opq, ev_value = v,
             ev_data = None, ev_size = 0\<rparr> rt)"

definition free_buffer :: "ptr option \<Rightarrow> runtime \<Rightarrow> runtime" where
  "free_buffer base rt = (case base of None \<Rightarrow> rt | Some p \<Rightarrow> rt\<lparr>r_freed := r_freed rt @ [p]\<rparr>)"

definition push_data_event ::
    "build_config \<Rightarrow> uv_env \<Rightarrow> sock_id \<Rightarrow> ptr option \<Rightarrow> bytes \<Rightarrow> runtime \<Rightarrow> runtime" where
  "push_data_event cfg env i base bs rt =
     deref cfg rt i (\<lambda>e.
       if \<not> en_event_alloc env EVENT_DATA then free_buffer base rt
       else enqueue_event \<lparr>ev_type = EVENT_DATA, ev_id = e_id e, ev_opaque = e_opaque e,
              ev_value = V_int 0, ev_data = Some (base, bs), ev_size = of_nat (length bs)\<rparr>
            (upd_entry cfg i (\<lambda>e. e\<lparr>e_read_bytes := e_read_bytes e + of_nat (length bs),
              e_read_time := r_current_time rt\<rparr>) rt))"

section \<open>States\<close>

definition entry_state :: "build_config \<Rightarrow> runtime \<Rightarrow> sock_id \<Rightarrow> socket_state" where
  "entry_state cfg rt i =
     (case find_entry cfg rt i of None \<Rightarrow> STATE_INVALID | Some e \<Rightarrow> e_state e)"

definition set_entry_state ::
    "build_config \<Rightarrow> sock_id \<Rightarrow> socket_state \<Rightarrow> runtime \<Rightarrow> runtime" where
  "set_entry_state cfg i s rt = upd_entry cfg i (\<lambda>e. e\<lparr>e_state := s\<rparr>) rt"

definition skyuv_socket_state_can_receive :: "socket_state \<Rightarrow> bool" where
  "skyuv_socket_state_can_receive s \<longleftrightarrow> s = STATE_LISTENING \<or> s = STATE_CONNECTED"

definition skyuv_socket_state_is_live :: "socket_state \<Rightarrow> bool" where
  "skyuv_socket_state_is_live s \<longleftrightarrow> s \<noteq> STATE_INVALID \<and> s \<noteq> STATE_CLOSING"

section \<open>The slot table\<close>

definition update_exit_ready :: "runtime \<Rightarrow> runtime" where
  "update_exit_ready rt =
     (if r_exiting rt \<and> r_entry_count rt = 0 then rt\<lparr>r_exit_ready := True\<rparr> else rt)"

text \<open>
  \<^verbatim>\<open>reserve_entry\<close> probes the slots in turn, starting where the last call stopped. The
  result carries the new id when it is \<open>SKYUV_OK\<close>.
\<close>

fun reserve_loop ::
    "build_config \<Rightarrow> bool \<Rightarrow> uintptr \<Rightarrow> nat \<Rightarrow> runtime \<Rightarrow> skyuv_error \<times> sock_id \<times> runtime" where
  "reserve_loop cfg alloc opq 0 rt = (SKYUV_ERROR_OUT_OF_MEMORY, 0, rt)"
| "reserve_loop cfg alloc opq (Suc n) rt =
     (let slot = ucast (r_next_slot rt AND (SKYUV_SOCKET_SLOT_COUNT cfg - 1));
          rt1 = rt\<lparr>r_next_slot := r_next_slot rt + 1\<rparr>
      in if r_slots rt1 slot \<noteq> None then reserve_loop cfg alloc opq n rt1
         else if \<not> alloc then (SKYUV_ERROR_OUT_OF_MEMORY, 0, rt1)
         else let g = skyuv_socket_id_next_generation (r_generations rt1 slot);
                  i = skyuv_socket_id_make cfg slot g;
                  e = entry0\<lparr>e_state := STATE_RESERVED, e_id := i, e_external_fd := - 1,
                        e_opaque := opq\<rparr>
              in (SKYUV_OK, i,
                  rt1\<lparr>r_generations := (r_generations rt1)(slot := g),
                      r_slots := (r_slots rt1)(slot \<mapsto> e),
                      r_entry_count := r_entry_count rt1 + 1\<rparr>))"

definition reserve_entry ::
    "build_config \<Rightarrow> bool \<Rightarrow> uintptr \<Rightarrow> runtime \<Rightarrow> skyuv_error \<times> sock_id \<times> runtime" where
  "reserve_entry cfg alloc opq rt =
     reserve_loop cfg alloc opq (unat (SKYUV_SOCKET_SLOT_COUNT cfg)) rt"

text \<open>Take the entry out of its slot, as \<^verbatim>\<open>close_entry\<close> and \<^verbatim>\<open>discard_uninitialized_entry\<close> do.\<close>

definition remove_entry :: "build_config \<Rightarrow> sock_id \<Rightarrow> runtime \<Rightarrow> runtime" where
  "remove_entry cfg i rt =
     deref cfg rt i (\<lambda>e. rt\<lparr>r_slots := (r_slots rt)(skyuv_socket_id_slot cfg i := None),
                           r_entry_count := r_entry_count rt - 1\<rparr>)"

definition release_writes :: "socket_write list \<Rightarrow> runtime \<Rightarrow> runtime" where
  "release_writes ws rt = rt\<lparr>r_released := r_released rt @ map write_buffer ws\<rparr>"

definition close_entry :: "build_config \<Rightarrow> sock_id \<Rightarrow> runtime \<Rightarrow> runtime" where
  "close_entry cfg i rt =
     deref cfg rt i (\<lambda>e.
       update_exit_ready (remove_entry cfg i (release_writes (e_high e @ e_low e) rt)))"

definition discard_uninitialized_entry :: "build_config \<Rightarrow> sock_id \<Rightarrow> runtime \<Rightarrow> runtime" where
  "discard_uninitialized_entry cfg i rt = update_exit_ready (remove_entry cfg i rt)"

text \<open>The pair \<^verbatim>\<open>set_entry_state(entry, CLOSING); uv_close(handle, close_entry)\<close>.\<close>

definition begin_close :: "build_config \<Rightarrow> sock_id \<Rightarrow> runtime \<Rightarrow> runtime" where
  "begin_close cfg i rt = uv_close (H_socket i) (set_entry_state cfg i STATE_CLOSING rt)"

definition reject_entry :: "build_config \<Rightarrow> uv_env \<Rightarrow> sock_id \<Rightarrow> uv_code \<Rightarrow> runtime \<Rightarrow> runtime" where
  "reject_entry cfg env i err rt =
     deref cfg rt i (\<lambda>e.
       begin_close cfg i (push_event env EVENT_ERROR (e_id e) (e_opaque e) (V_code err) rt))"

definition finish_entry ::
    "build_config \<Rightarrow> uv_env \<Rightarrow> sock_id \<Rightarrow> event_type \<Rightarrow> event_value \<Rightarrow> runtime \<Rightarrow> runtime" where
  "finish_entry cfg env i ty v rt =
     deref cfg rt i (\<lambda>e.
       if e_state e = STATE_CLOSING then rt
       else begin_close cfg i (push_event env ty (e_id e) (e_opaque e) v rt))"

section \<open>Names\<close>

text \<open>
  \<^verbatim>\<open>snprintf\<close> with \<^verbatim>\<open>"%s:%d"\<close> or \<^verbatim>\<open>"[%s]:%d"\<close> into an array of 128 bytes; ports are not
  negative.
\<close>

definition snprintf128 :: "string \<Rightarrow> string" where
  "snprintf128 text = take 127 text"

definition format_name :: "uv_env \<Rightarrow> sockaddr \<Rightarrow> string option" where
  "format_name env a =
     (case a of
        Sockaddr_in port _ \<Rightarrow>
          (case en_ip_name env a of (r, ip) \<Rightarrow>
             if r \<noteq> UV_OK then None
             else Some (snprintf128 (ip @ '':'' @ show_nat (nat (ntohs port)))))
      | Sockaddr_in6 port _ \<Rightarrow>
          (case en_ip_name env a of (r, ip) \<Rightarrow>
             if r \<noteq> UV_OK then None
             else Some (snprintf128 (''['' @ ip @ '']:'' @ show_nat (nat (ntohs port)))))
      | Sockaddr_none \<Rightarrow> None)"

text \<open>\<open>en_getname\<close> is what \<^verbatim>\<open>uv_tcp_getpeername\<close> or \<^verbatim>\<open>uv_tcp_getsockname\<close> returns.\<close>

definition cache_tcp_name :: "build_config \<Rightarrow> uv_env \<Rightarrow> sock_id \<Rightarrow> runtime \<Rightarrow> runtime" where
  "cache_tcp_name cfg env i rt =
     (case en_getname env of (r, a) \<Rightarrow>
        if r \<noteq> UV_OK then rt
        else case format_name env a of
               None \<Rightarrow> rt
             | Some name \<Rightarrow> upd_entry cfg i (\<lambda>e. e\<lparr>e_name := name\<rparr>) rt)"

end
