(* ===== verification/Socket_Handlers.thy ===== *)
theory Socket_Handlers
  imports Socket_Runtime
begin

text \<open>
  The callbacks that libuv runs on the network thread and the handlers of the
  commands (\<^verbatim>\<open>socket_internal.c\<close>, lines 111 to 183 and 400 to 1177), in the order of
  the file. Each handler is one function from the runtime to the runtime, over the
  environment \<open>uv_env\<close> of its libuv calls.
\<close>

section \<open>Signals\<close>

definition on_hangup_signal :: "build_config \<Rightarrow> uv_env \<Rightarrow> runtime \<Rightarrow> runtime" where
  "on_hangup_signal cfg env rt =
     (if win32 cfg
      then push_event env EVENT_PROCESS_SHUTDOWN 0 0 (V_int 0)
             (rt\<lparr>r_process_shutdown_requested := 1\<rparr>)
      else push_event env EVENT_REOPEN_LOG 0 0 (V_int 0) rt)"

definition on_termination_signal :: "uv_env \<Rightarrow> runtime \<Rightarrow> runtime" where
  "on_termination_signal env rt =
     push_event env EVENT_PROCESS_SHUTDOWN 0 0 (V_int 0)
       (rt\<lparr>r_process_shutdown_requested := 1\<rparr>)"

definition initialize_process_signal ::
    "uv_env \<Rightarrow> signal \<Rightarrow> runtime \<Rightarrow> uv_code \<times> runtime" where
  "initialize_process_signal env sig rt =
     (if en_signal_init env sig \<noteq> UV_OK then (en_signal_init env sig, rt)
      else (en_signal_start env sig,
            rt\<lparr>r_signal_initialized := (r_signal_initialized rt)(sig := True)\<rparr>))"

definition close_process_signal :: "signal \<Rightarrow> runtime \<Rightarrow> runtime" where
  "close_process_signal sig rt =
     (if r_signal_initialized rt sig \<and> \<not> uv_is_closing rt (H_signal sig)
      then uv_close (H_signal sig) rt else rt)"

definition close_process_signals :: "runtime \<Rightarrow> runtime" where
  "close_process_signals rt =
     close_process_signal Hangup (close_process_signal Interrupt (close_process_signal Termination rt))"

definition initialize_process_signals :: "uv_env \<Rightarrow> runtime \<Rightarrow> skyuv_error \<times> runtime" where
  "initialize_process_signals env rt =
     (if r_process_signals_initialized rt
      then (if r_process_signals_failed rt then SKYUV_ERROR_SYSTEM else SKYUV_OK, rt)
      else
        let rt0 = rt\<lparr>r_process_signals_initialized := True\<rparr>;
            (r1, rt1) = initialize_process_signal env Hangup rt0;
            (r2, rt2) = (if r1 = UV_OK then initialize_process_signal env Interrupt rt1 else (r1, rt1));
            (r3, rt3) = (if r2 = UV_OK then initialize_process_signal env Termination rt2 else (r2, rt2))
        in if r3 \<noteq> UV_OK
           then (SKYUV_ERROR_SYSTEM, (close_process_signals rt3)\<lparr>r_process_signals_failed := True\<rparr>)
           else (SKYUV_OK, rt3))"

section \<open>Reading\<close>

text \<open>
  What a read callback reports: bytes (none of them when \<^verbatim>\<open>nread\<close> is 0) or a negative
  code.
\<close>

datatype read_result = Read_bytes bytes | Read_error uv_code

definition allocate_read_buffer :: "ptr option \<Rightarrow> ptr option \<times> nat" where
  "allocate_read_buffer malloc_result =
     (malloc_result, if malloc_result = None then 0 else 65536)"

definition read_completed ::
    "build_config \<Rightarrow> uv_env \<Rightarrow> sock_id \<Rightarrow> read_result \<Rightarrow> ptr option \<Rightarrow> runtime \<Rightarrow> runtime" where
  "read_completed cfg env i nread base rt =
     (case nread of
        Read_bytes bs \<Rightarrow>
          (if bs \<noteq> [] then push_data_event cfg env i base bs rt else free_buffer base rt)
      | Read_error err \<Rightarrow>
          (let rt1 = free_buffer base rt
           in if err = UV_EOF
              then deref cfg rt1 i (\<lambda>e.
                     if e_state e \<noteq> STATE_HALFCLOSE_READ
                     then set_entry_state cfg i STATE_HALFCLOSE_READ
                            (push_event env EVENT_CLOSE (e_id e) (e_opaque e) (V_int 0)
                              (upd_entry cfg i (\<lambda>e. e\<lparr>e_reading := False\<rparr>) rt1))
                     else rt1)
              else finish_entry cfg env i EVENT_ERROR (V_code err) rt1))"

definition udp_received ::
    "build_config \<Rightarrow> uv_env \<Rightarrow> sock_id \<Rightarrow> read_result \<Rightarrow> ptr option \<Rightarrow> sockaddr option
      \<Rightarrow> runtime \<Rightarrow> runtime" where
  "udp_received cfg env i nread base address rt =
     (case nread of
        Read_error err \<Rightarrow> finish_entry cfg env i EVENT_ERROR (V_code err) (free_buffer base rt)
      | Read_bytes bs \<Rightarrow>
          (case address of
             None \<Rightarrow> free_buffer base rt
           | Some a \<Rightarrow>
               (case en_malloc env of
                  None \<Rightarrow> free_buffer base rt
                | Some encoded \<Rightarrow>
                    (let rt1 = free_buffer base rt
                     in if \<not> en_event_alloc env EVENT_UDP then free_buffer (Some encoded) rt1
                        else deref cfg rt1 i (\<lambda>e.
                          enqueue_event \<lparr>ev_type = EVENT_UDP, ev_id = e_id e,
                              ev_opaque = e_opaque e, ev_value = V_int (int (udp_address_size a)),
                              ev_data = Some (Some encoded, bs @ encode_udp_address a),
                              ev_size = of_nat (length bs)\<rparr>
                            (upd_entry cfg i (\<lambda>e. e\<lparr>
                              e_read_bytes := e_read_bytes e + of_nat (length bs),
                              e_read_time := r_current_time rt1\<rparr>) rt1))))))"

definition udp_write_completed ::
    "build_config \<Rightarrow> uv_env \<Rightarrow> socket_write \<Rightarrow> uv_code \<Rightarrow> runtime \<Rightarrow> runtime" where
  "udp_write_completed cfg env w status rt =
     deref cfg rt (w_entry w) (\<lambda>e.
       let i = w_entry w;
           rt1 = (if status \<noteq> UV_OK \<and> e_state e \<noteq> STATE_CLOSING
                  then push_event env EVENT_ERROR (e_id e) (e_opaque e) (V_code status) rt else rt)
       in release_writes [w]
            (upd_entry cfg i (\<lambda>e. e\<lparr>e_write_bytes := e_write_bytes e + w_size w,
                e_write_time := r_current_time rt1\<rparr>) rt1))"

text \<open>\<open>start_reading\<close> returns the code of \<^verbatim>\<open>uv_read_start\<close>, \<open>en_read_start env\<close>.\<close>

definition start_reading :: "build_config \<Rightarrow> uv_env \<Rightarrow> sock_id \<Rightarrow> runtime \<Rightarrow> runtime" where
  "start_reading cfg env i rt =
     (if en_read_start env = UV_OK
      then upd_entry cfg i (\<lambda>e. e\<lparr>e_reading := True\<rparr>)
             (upd_loop (\<lambda>l. l\<lparr>l_reading := (l_reading l)(i := True)\<rparr>) rt)
      else rt)"

definition uv_read_stop :: "uv_env \<Rightarrow> sock_id \<Rightarrow> runtime \<Rightarrow> runtime" where
  "uv_read_stop env i rt =
     (if en_read_stop env = UV_OK
      then upd_loop (\<lambda>l. l\<lparr>l_reading := (l_reading l)(i := False)\<rparr>) rt else rt)"

section \<open>Writing\<close>

definition close_after_writes :: "build_config \<Rightarrow> sock_id \<Rightarrow> runtime \<Rightarrow> runtime" where
  "close_after_writes cfg i rt =
     deref cfg rt i (\<lambda>e.
       if \<not> e_close_requested e \<or> e_writing e \<or> e_high e \<noteq> [] \<or> e_low e \<noteq> [] then rt
       else begin_close cfg i rt)"

text \<open>
  The second half of \<^verbatim>\<open>pump_write\<close>: the write has been taken from its list and is given
  to \<^verbatim>\<open>uv_write\<close>.
\<close>

definition submit_write ::
    "build_config \<Rightarrow> uv_env \<Rightarrow> sock_id \<Rightarrow> socket_write \<Rightarrow> runtime \<Rightarrow> runtime" where
  "submit_write cfg env i w rt =
     (if en_write env = UV_OK
      then upd_entry cfg i (\<lambda>e. e\<lparr>e_writing := True\<rparr>)
             (upd_loop (\<lambda>l. l\<lparr>l_writes := l_writes l @ [w],
                 l_submitted := l_submitted l @ [(i, uv_buf_init w)]\<rparr>) rt)
      else
        let rt1 = release_writes [w]
                    (upd_entry cfg i (\<lambda>e. e\<lparr>e_queued_bytes := e_queued_bytes e - w_size w\<rparr>) rt)
        in deref cfg rt1 i (\<lambda>e.
             if e_state e = STATE_HALFCLOSE_READ then begin_close cfg i rt1
             else finish_entry cfg env i EVENT_ERROR (V_code (en_write env)) rt1))"

definition pump_write :: "build_config \<Rightarrow> uv_env \<Rightarrow> sock_id \<Rightarrow> runtime \<Rightarrow> runtime" where
  "pump_write cfg env i rt =
     deref cfg rt i (\<lambda>e.
       if e_writing e then rt
       else case e_high e of
              w # ws \<Rightarrow> submit_write cfg env i w (upd_entry cfg i (\<lambda>e. e\<lparr>e_high := ws\<rparr>) rt)
            | [] \<Rightarrow>
                (case e_low e of
                   w # ws \<Rightarrow> submit_write cfg env i w (upd_entry cfg i (\<lambda>e. e\<lparr>e_low := ws\<rparr>) rt)
                 | [] \<Rightarrow> rt))"

definition write_completed ::
    "build_config \<Rightarrow> uv_env \<Rightarrow> socket_write \<Rightarrow> uv_code \<Rightarrow> runtime \<Rightarrow> runtime" where
  "write_completed cfg env w status rt =
     deref cfg rt (w_entry w) (\<lambda>e.
       let i = w_entry w;
           state = e_state e;
           rt1 = (if status \<noteq> UV_OK \<and> state \<noteq> STATE_CLOSING
                  then (if state = STATE_HALFCLOSE_READ then begin_close cfg i rt
                        else finish_entry cfg env i EVENT_ERROR (V_code status) rt)
                  else rt);
           rt2 = release_writes [w]
                   (upd_entry cfg i (\<lambda>e. e\<lparr>e_queued_bytes := e_queued_bytes e - w_size w,
                      e_write_bytes := e_write_bytes e + w_size w,
                      e_write_time := r_current_time rt1, e_writing := False\<rparr>) rt1);
           rt3 = deref cfg rt2 i (\<lambda>e.
                   if e_queued_bytes e = 0 \<and> e_warn_size e > 0 \<and> e_state e \<noteq> STATE_CLOSING
                   then push_event env EVENT_WARNING (e_id e) (e_opaque e) (V_int 0)
                          (upd_entry cfg i (\<lambda>e. e\<lparr>e_warn_size := 0\<rparr>) rt2)
                   else rt2)
       in deref cfg rt3 i (\<lambda>e.
            if e_close_requested e then close_after_writes cfg i rt3
            else if e_state e \<noteq> STATE_CLOSING then pump_write cfg env i rt3
            else rt3))"

section \<open>Connecting and accepting\<close>

definition connect_completed ::
    "build_config \<Rightarrow> uv_env \<Rightarrow> sock_id \<Rightarrow> uv_code \<Rightarrow> runtime \<Rightarrow> runtime" where
  "connect_completed cfg env i status rt =
     deref cfg rt i (\<lambda>e.
       if e_state e = STATE_CLOSING then rt
       else if status \<noteq> UV_OK then reject_entry cfg env i status rt
       else if en_read_start env \<noteq> UV_OK then reject_entry cfg env i (en_read_start env) rt
       else let rt1 = cache_tcp_name cfg env i
                        (set_entry_state cfg i STATE_CONNECTED (start_reading cfg env i rt))
            in push_event env EVENT_OPEN (e_id e) (e_opaque e) (V_int 0) rt1)"

definition accept_connection ::
    "build_config \<Rightarrow> uv_env \<Rightarrow> sock_id \<Rightarrow> uv_code \<Rightarrow> runtime \<Rightarrow> runtime" where
  "accept_connection cfg env listener status rt =
     deref cfg rt listener (\<lambda>le.
       if status \<noteq> UV_OK
       then push_event env EVENT_ERROR (e_id le) (e_opaque le) (V_code status) rt
       else case reserve_entry cfg (en_alloc env) (e_opaque le) rt of
              (r, i, rt1) \<Rightarrow>
                (if r \<noteq> SKYUV_OK then rt1
                 else if en_tcp_init env \<noteq> UV_OK then discard_uninitialized_entry cfg i rt1
                 else
                   let rt2 = upd_entry cfg i (\<lambda>e. e\<lparr>e_initialized := True\<rparr>) rt1
                   in if en_accept env \<noteq> UV_OK then reject_entry cfg env i (en_accept env) rt2
                      else
                        let rt3 = cache_tcp_name cfg env i
                                    (set_entry_state cfg i STATE_ACCEPTED_PAUSED rt2);
                            rt4 = upd_entry cfg listener (\<lambda>e. e\<lparr>
                                    e_accept_count := e_accept_count e + 1,
                                    e_read_time := r_current_time rt3\<rparr>) rt3
                        in push_event env EVENT_ACCEPT (e_id le) (e_opaque le) (V_int (sint i)) rt4))"

section \<open>Commands\<close>

text \<open>
  The literal IPv4 or IPv6 address of a host: \<^verbatim>\<open>uv_ip4_addr\<close>, and \<^verbatim>\<open>uv_ip6_addr\<close> when
  that fails. A command's host is never NULL here (the interface functions check it).
\<close>

definition resolve_host :: "uv_env \<Rightarrow> command \<Rightarrow> uv_code \<times> sockaddr" where
  "resolve_host env c =
     (let host = (case c_host c of None \<Rightarrow> '''' | Some h \<Rightarrow> h);
          (r4, a4) = en_ip4_addr env host (c_port c)
      in if r4 \<noteq> UV_OK then en_ip6_addr env host (c_port c) else (r4, a4))"

definition process_listen :: "build_config \<Rightarrow> uv_env \<Rightarrow> command \<Rightarrow> runtime \<Rightarrow> runtime" where
  "process_listen cfg env c rt =
     (case find_entry cfg rt (c_id c) of
        None \<Rightarrow> rt
      | Some e \<Rightarrow>
          if e_state e \<noteq> STATE_RESERVED then rt
          else
            let i = c_id c;
                fail = (\<lambda>err. discard_uninitialized_entry cfg i
                   (push_event env EVENT_ERROR (e_id e) (e_opaque e) (V_code err)
                     (set_entry_state cfg i STATE_LISTEN_PENDING rt)))
            in if fst (resolve_host env c) \<noteq> UV_OK then fail (fst (resolve_host env c))
               else if en_tcp_init env \<noteq> UV_OK then fail (en_tcp_init env)
               else
                 let rt1 = upd_entry cfg i (\<lambda>e. e\<lparr>e_initialized := True\<rparr>)
                             (set_entry_state cfg i STATE_LISTEN_PENDING rt);
                     result = (if en_tcp_bind env = UV_OK then en_listen env else en_tcp_bind env)
                 in if result \<noteq> UV_OK then reject_entry cfg env i result rt1
                    else
                      let rt2 = cache_tcp_name cfg env i (set_entry_state cfg i STATE_LISTENING
                                  (upd_loop (\<lambda>l. l\<lparr>l_listening := (l_listening l)(i := True)\<rparr>) rt1));
                          port = (case en_getsockname env of
                                    (UV_OK, Sockaddr_in p _) \<Rightarrow> ntohs p
                                  | (UV_OK, Sockaddr_in6 p _) \<Rightarrow> ntohs p
                                  | _ \<Rightarrow> c_port c)
                      in push_event env EVENT_OPEN (e_id e) (e_opaque e) (V_int port) rt2)"

definition process_start :: "build_config \<Rightarrow> uv_env \<Rightarrow> command \<Rightarrow> runtime \<Rightarrow> runtime" where
  "process_start cfg env c rt =
     (case find_entry cfg rt (c_id c) of
        None \<Rightarrow> push_event env EVENT_ERROR (c_id c) (c_opaque c) (V_code UV_EINVAL) rt
      | Some e \<Rightarrow>
          let i = c_id c;
              rt1 = upd_entry cfg i (\<lambda>e. e\<lparr>e_opaque := c_opaque c\<rparr>) rt
          in if e_state e = STATE_LISTENING
             then push_event env EVENT_OPEN (e_id e) (c_opaque c) (V_int 0) rt1
             else if e_state e = STATE_CONNECTED
             then push_event env EVENT_OPEN (e_id e) (c_opaque c) (V_int 0) rt1
             else if e_state e \<noteq> STATE_ACCEPTED_PAUSED \<and> e_state e \<noteq> STATE_CONNECTED_PAUSED
             then push_event env EVENT_ERROR (c_id c) (c_opaque c) (V_code UV_EINVAL) rt
             else if en_read_start env \<noteq> UV_OK
             then reject_entry cfg env i (en_read_start env) rt1
             else push_event env EVENT_OPEN (e_id e) (c_opaque c) (V_int 0)
                    (set_entry_state cfg i STATE_CONNECTED (start_reading cfg env i rt1)))"

definition process_pause :: "build_config \<Rightarrow> uv_env \<Rightarrow> command \<Rightarrow> runtime \<Rightarrow> runtime" where
  "process_pause cfg env c rt =
     (case find_entry cfg rt (c_id c) of
        None \<Rightarrow> rt
      | Some e \<Rightarrow>
          if e_state e \<noteq> STATE_CONNECTED then rt
          else if en_read_stop env \<noteq> UV_OK
          then push_event env EVENT_ERROR (e_id e) (e_opaque e) (V_code (en_read_stop env)) rt
          else set_entry_state cfg (c_id c) STATE_CONNECTED_PAUSED
                 (upd_entry cfg (c_id c) (\<lambda>e. e\<lparr>e_reading := False\<rparr>)
                   (uv_read_stop env (c_id c) rt)))"

definition process_nodelay :: "build_config \<Rightarrow> uv_env \<Rightarrow> command \<Rightarrow> runtime \<Rightarrow> runtime" where
  "process_nodelay cfg env c rt =
     (case find_entry cfg rt (c_id c) of
        None \<Rightarrow> rt
      | Some e \<Rightarrow>
          if e_state e \<noteq> STATE_CONNECTED \<and> e_state e \<noteq> STATE_CONNECTED_PAUSED \<and>
             e_state e \<noteq> STATE_HALFCLOSE_READ then rt
          else if en_nodelay env = UV_OK
          then upd_loop (\<lambda>l. l\<lparr>l_nodelay := (l_nodelay l)(c_id c := True)\<rparr>) rt
          else rt)"

definition process_connect :: "build_config \<Rightarrow> uv_env \<Rightarrow> command \<Rightarrow> runtime \<Rightarrow> runtime" where
  "process_connect cfg env c rt =
     (case find_entry cfg rt (c_id c) of
        None \<Rightarrow> rt
      | Some e \<Rightarrow>
          if e_state e \<noteq> STATE_RESERVED then rt
          else
            let i = c_id c;
                fail = (\<lambda>err. discard_uninitialized_entry cfg i
                   (push_event env EVENT_ERROR (e_id e) (e_opaque e) (V_code err) rt))
            in if fst (resolve_host env c) \<noteq> UV_OK then fail (fst (resolve_host env c))
               else if en_tcp_init env \<noteq> UV_OK then fail (en_tcp_init env)
               else
                 let rt1 = set_entry_state cfg i STATE_CONNECTING
                             (upd_entry cfg i (\<lambda>e. e\<lparr>e_initialized := True\<rparr>) rt)
                 in if en_tcp_connect env \<noteq> UV_OK
                    then reject_entry cfg env i (en_tcp_connect env) rt1
                    else upd_loop (\<lambda>l. l\<lparr>l_connects := l_connects l @ [i]\<rparr>) rt1)"

definition process_bind :: "build_config \<Rightarrow> uv_env \<Rightarrow> command \<Rightarrow> runtime \<Rightarrow> runtime" where
  "process_bind cfg env c rt =
     (if \<not> external_fd_supported cfg then rt
      else case find_entry cfg rt (c_id c) of
        None \<Rightarrow> rt
      | Some e \<Rightarrow>
          if e_state e \<noteq> STATE_RESERVED then rt
          else if en_tcp_init env \<noteq> UV_OK
          then discard_uninitialized_entry cfg (c_id c)
                 (push_event env EVENT_ERROR (e_id e) (e_opaque e) (V_code (en_tcp_init env)) rt)
          else
            let i = c_id c;
                rt1 = upd_entry cfg i (\<lambda>e. e\<lparr>e_initialized := True\<rparr>) rt;
                result = (if en_tcp_open env = UV_OK then en_read_start env else en_tcp_open env)
            in if result \<noteq> UV_OK then reject_entry cfg env i result rt1
               else push_event env EVENT_OPEN (e_id e) (e_opaque e) (V_int 0)
                      (cache_tcp_name cfg env i (set_entry_state cfg i STATE_CONNECTED
                        (start_reading cfg env i rt1))))"

definition SKYUV_SOCKET_WARNING_SIZE :: size_t where
  "SKYUV_SOCKET_WARNING_SIZE = 1024 * 1024"

text \<open>
  \<^verbatim>\<open>process_udp_send\<close> and \<^verbatim>\<open>process_send\<close> also return the command: on success its buffer
  has moved to the write request and the command's ownership is \<open>BUFFER_BORROWED\<close>.
\<close>

definition command_write :: "command \<Rightarrow> socket_write" where
  "command_write c =
     \<lparr>w_entry = c_id c, w_data = c_data c, w_size = c_size c, w_release = c_release c\<rparr>"

definition udp_send_target :: "entry \<Rightarrow> command \<Rightarrow> uv_code + sockaddr" where
  "udp_send_target e c =
     (if c_address_size c > 0 then decode_udp_address (Some (c_address c)) (c_address_size c)
      else if e_has_udp_target e then Inr (e_udp_target e)
      else Inl UV_EDESTADDRREQ)"

definition process_udp_send ::
    "build_config \<Rightarrow> uv_env \<Rightarrow> command \<Rightarrow> runtime \<Rightarrow> command \<times> runtime" where
  "process_udp_send cfg env c rt =
     (case find_entry cfg rt (c_id c) of
        None \<Rightarrow> (c, push_event env EVENT_ERROR (c_id c) (c_opaque c) (V_code UV_ENOTCONN) rt)
      | Some e \<Rightarrow>
          if e_state e \<noteq> STATE_UDP
          then (c, push_event env EVENT_ERROR (c_id c) (c_opaque c) (V_code UV_ENOTCONN) rt)
          else
            let fail = (\<lambda>err. (c, push_event env EVENT_ERROR (e_id e) (e_opaque e) (V_code err) rt))
            in case udp_send_target e c of
                 Inl err \<Rightarrow> fail err
               | Inr target \<Rightarrow>
                   if \<not> en_alloc env then fail UV_ENOMEM
                   else if en_udp_send env \<noteq> UV_OK then fail (en_udp_send env)
                   else (c\<lparr>c_ownership := BUFFER_BORROWED\<rparr>,
                         upd_loop (\<lambda>l. l\<lparr>l_udp_sends := l_udp_sends l @ [command_write c],
                           l_datagrams := l_datagrams l @ [(c_id c, uv_buf_init (command_write c), target)]\<rparr>) rt))"

text \<open>The warning a growing queue causes: the new warning size and the event's value.\<close>

definition write_warning :: "entry \<Rightarrow> (size_t \<times> int) option" where
  "write_warning e =
     (if e_queued_bytes e \<ge> SKYUV_SOCKET_WARNING_SIZE \<and> e_queued_bytes e \<ge> e_warn_size e
      then let warning_kb = (e_queued_bytes e + 1023) div 1024
           in Some (if e_warn_size e = 0 then SKYUV_SOCKET_WARNING_SIZE * 2 else e_warn_size e * 2,
                    if uint warning_kb > INT_MAX then INT_MAX else sint (ucast warning_kb :: c_int32))
      else None)"

definition queue_write :: "command \<Rightarrow> entry \<Rightarrow> entry" where
  "queue_write c e =
     (if c_type c = COMMAND_SEND_LOW then e\<lparr>e_low := e_low e @ [command_write c]\<rparr>
      else e\<lparr>e_high := e_high e @ [command_write c]\<rparr>)
     \<lparr>e_queued_bytes := e_queued_bytes e + c_size c\<rparr>"

text \<open>The part of \<^verbatim>\<open>process_send\<close> that runs once the write has been allocated.\<close>

definition enqueue_write ::
    "build_config \<Rightarrow> uv_env \<Rightarrow> command \<Rightarrow> entry \<Rightarrow> runtime \<Rightarrow> runtime" where
  "enqueue_write cfg env c e rt =
     (let i = c_id c;
          rt1 = upd_entry cfg i (queue_write c) rt;
          rt2 = (case write_warning (queue_write c e) of
                   None \<Rightarrow> rt1
                 | Some (warn, kb) \<Rightarrow>
                     push_event env EVENT_WARNING (e_id e) (e_opaque e) (V_int kb)
                       (upd_entry cfg i (\<lambda>e. e\<lparr>e_warn_size := warn\<rparr>) rt1))
      in if \<not> e_writing e \<and> \<not> e_pump_pending e
         then (upd_entry cfg i (\<lambda>e. e\<lparr>e_pump_pending := True\<rparr>) rt2)\<lparr>r_pump := r_pump rt2 @ [i]\<rparr>
         else rt2)"

definition process_send ::
    "build_config \<Rightarrow> uv_env \<Rightarrow> command \<Rightarrow> runtime \<Rightarrow> command \<times> runtime" where
  "process_send cfg env c rt =
     (let i = c_id c; state = entry_state cfg rt i
      in if state = STATE_UDP then process_udp_send cfg env c rt
         else if state \<noteq> STATE_CONNECTED \<and> state \<noteq> STATE_CONNECTED_PAUSED \<and>
                 state \<noteq> STATE_HALFCLOSE_READ
         then (c, push_event env EVENT_ERROR (c_id c) (c_opaque c) (V_code UV_ENOTCONN) rt)
         else case find_entry cfg rt i of
           None \<Rightarrow> (c, raise_fault Use_after_free rt)
         | Some e \<Rightarrow>
             if e_close_requested e
             then (c, push_event env EVENT_ERROR (c_id c) (c_opaque c) (V_code UV_ECANCELED) rt)
             else if \<not> en_alloc env
             then (c, push_event env EVENT_ERROR (e_id e) (e_opaque e) (V_code UV_ENOMEM) rt)
             else (c\<lparr>c_ownership := BUFFER_BORROWED\<rparr>, enqueue_write cfg env c e rt))"

definition process_udp :: "build_config \<Rightarrow> uv_env \<Rightarrow> command \<Rightarrow> runtime \<Rightarrow> runtime" where
  "process_udp cfg env c rt =
     (case find_entry cfg rt (c_id c) of
        None \<Rightarrow> rt
      | Some e \<Rightarrow>
          if e_state e \<noteq> STATE_RESERVED then rt
          else
            let i = c_id c;
                rt1 = upd_entry cfg i (\<lambda>e. e\<lparr>e_is_udp := True\<rparr>) rt;
                rt2 = upd_entry cfg i (\<lambda>e. e\<lparr>e_initialized := True\<rparr>) rt1;
                result = (if en_udp_bind env = UV_OK then en_udp_recv_start env else en_udp_bind env)
            in if fst (resolve_host env c) \<noteq> UV_OK
               then discard_uninitialized_entry cfg i (push_event env EVENT_ERROR (e_id e)
                      (e_opaque e) (V_code (fst (resolve_host env c))) rt)
               else if en_udp_init env \<noteq> UV_OK
               then discard_uninitialized_entry cfg i (push_event env EVENT_ERROR (e_id e)
                      (e_opaque e) (V_code (en_udp_init env)) rt1)
               else if result \<noteq> UV_OK then reject_entry cfg env i result rt2
               else set_entry_state cfg i STATE_UDP
                      (upd_loop (\<lambda>l. l\<lparr>l_receiving := (l_receiving l)(i := True)\<rparr>) rt2))"

definition process_udp_connect ::
    "build_config \<Rightarrow> uv_env \<Rightarrow> command \<Rightarrow> runtime \<Rightarrow> runtime" where
  "process_udp_connect cfg env c rt =
     (case find_entry cfg rt (c_id c) of
        None \<Rightarrow> rt
      | Some e \<Rightarrow>
          if e_state e \<noteq> STATE_UDP then rt
          else case resolve_host env c of (result, address) \<Rightarrow>
            if result = UV_OK
            then upd_entry cfg (c_id c)
                   (\<lambda>e. e\<lparr>e_udp_target := address, e_has_udp_target := True\<rparr>) rt
            else rt)"

definition process_close :: "build_config \<Rightarrow> uv_env \<Rightarrow> command \<Rightarrow> runtime \<Rightarrow> runtime" where
  "process_close cfg env c rt =
     (case find_entry cfg rt (c_id c) of
        None \<Rightarrow> rt
      | Some e \<Rightarrow>
          if e_state e = STATE_CLOSING then rt
          else
            let i = c_id c;
                rt1 = upd_entry cfg i (\<lambda>e. e\<lparr>e_opaque := c_opaque c\<rparr>) rt;
                rt2 = (if e_state e \<noteq> STATE_HALFCLOSE_READ
                       then push_event env EVENT_CLOSE (e_id e) (c_opaque c) (V_int 0) rt1 else rt1)
            in if \<not> e_initialized e then discard_uninitialized_entry cfg i rt2
               else if c_type c = COMMAND_CLOSE \<and> \<not> e_is_udp e \<and> e_queued_bytes e > 0
               then close_after_writes cfg i
                      (upd_entry cfg i (\<lambda>e. e\<lparr>e_reading := False, e_close_requested := True\<rparr>)
                        (uv_read_stop env i rt2))
               else begin_close cfg i rt2)"

text \<open>The body of the loop of \<^verbatim>\<open>process_exit\<close>, then the whole handler.\<close>

definition exit_slot :: "build_config \<Rightarrow> u16 \<Rightarrow> runtime \<Rightarrow> runtime" where
  "exit_slot cfg slot rt =
     (case r_slots rt slot of
        None \<Rightarrow> rt
      | Some e \<Rightarrow>
          if \<not> e_initialized e then discard_uninitialized_entry cfg (e_id e) rt
          else if \<not> uv_is_closing rt (H_socket (e_id e)) then begin_close cfg (e_id e) rt
          else rt)"

definition exit_slots :: "build_config \<Rightarrow> u16 list" where
  "exit_slots cfg = map of_nat [0..<unat (SKYUV_SOCKET_SLOT_COUNT cfg)]"

definition process_exit :: "build_config \<Rightarrow> runtime \<Rightarrow> runtime" where
  "process_exit cfg rt =
     update_exit_ready (uv_close H_async (close_process_signals
       (fold (exit_slot cfg) (exit_slots cfg) (rt\<lparr>r_exiting := True\<rparr>))))"

section \<open>The wake-up callback\<close>

text \<open>
  One iteration of the first loop of \<^verbatim>\<open>consume_commands\<close>: the handler of the command,
  then \<^verbatim>\<open>skyuv_socket_command_destroy\<close>.
\<close>

definition dispatch_command ::
    "build_config \<Rightarrow> uv_env \<Rightarrow> command \<Rightarrow> runtime \<Rightarrow> command \<times> runtime" where
  "dispatch_command cfg env c rt =
     (case c_type c of
        COMMAND_LISTEN \<Rightarrow> (c, process_listen cfg env c rt)
      | COMMAND_CONNECT \<Rightarrow> (c, process_connect cfg env c rt)
      | COMMAND_BIND \<Rightarrow> (c, process_bind cfg env c rt)
      | COMMAND_UDP \<Rightarrow> (c, process_udp cfg env c rt)
      | COMMAND_UDP_CONNECT \<Rightarrow> (c, process_udp_connect cfg env c rt)
      | COMMAND_UDP_SEND \<Rightarrow> process_udp_send cfg env c rt
      | COMMAND_START \<Rightarrow> (c, process_start cfg env c rt)
      | COMMAND_PAUSE \<Rightarrow> (c, process_pause cfg env c rt)
      | COMMAND_NODELAY \<Rightarrow> (c, process_nodelay cfg env c rt)
      | COMMAND_SEND \<Rightarrow> process_send cfg env c rt
      | COMMAND_SEND_LOW \<Rightarrow> process_send cfg env c rt
      | COMMAND_CLOSE \<Rightarrow> (c, process_close cfg env c rt)
      | COMMAND_SHUTDOWN \<Rightarrow> (c, process_close cfg env c rt)
      | COMMAND_EXIT \<Rightarrow> (c, process_exit cfg rt))"

definition process_command :: "build_config \<Rightarrow> uv_env \<Rightarrow> command \<Rightarrow> runtime \<Rightarrow> runtime" where
  "process_command cfg env c rt =
     (case dispatch_command cfg env c rt of
        (c', rt1) \<Rightarrow> rt1\<lparr>r_released := r_released rt1 @ skyuv_socket_command_destroy c'\<rparr>)"

definition pop_command :: "runtime \<Rightarrow> command option \<times> runtime" where
  "pop_command rt =
     (case skyuv_socket_command_queue_pop (Some (r_commands rt)) of
        (c, Some q) \<Rightarrow> (c, rt\<lparr>r_commands := q\<rparr>)
      | (c, None) \<Rightarrow> (c, rt))"

text \<open>One iteration of the second loop.\<close>

definition pump_one :: "build_config \<Rightarrow> uv_env \<Rightarrow> sock_id \<Rightarrow> runtime \<Rightarrow> runtime" where
  "pump_one cfg env i rt =
     (let rt1 = upd_entry cfg i (\<lambda>e. e\<lparr>e_pump_pending := False\<rparr>) (rt\<lparr>r_pump := tl (r_pump rt)\<rparr>)
      in deref cfg rt1 i (\<lambda>e. if e_state e \<noteq> STATE_CLOSING then pump_write cfg env i rt1 else rt1))"

end
