(* ===== verification/Socket_Views.thy ===== *)
theory Socket_Views
  imports Socket_Handlers
begin

text \<open>
  The slot table as a table keyed by socket id, and the view of one socket: its entry
  together with everything the loop and the pump list hold for it. Every basic
  operation of the runtime changes the view of one socket; the rules collected in
  \<open>view_simps\<close> and \<open>frame_simps\<close> say how, so that a proof about a handler is a
  calculation on the view of the socket the handler is about.
\<close>

section \<open>The slot table as a map from ids\<close>

text \<open>
  The contract the handlers rely on: updating or removing an entry is seen under its
  own id and under no other one.
\<close>

locale id_table =
  fixes lookup :: "'t \<Rightarrow> 'k \<Rightarrow> 'v option"
    and change :: "'k \<Rightarrow> ('v \<Rightarrow> 'v) \<Rightarrow> 't \<Rightarrow> 't"
    and drop_key :: "'k \<Rightarrow> 't \<Rightarrow> 't"
    and key_of :: "'v \<Rightarrow> 'k"
  assumes lookup_change: "(\<And>v. key_of (f v) = key_of v) \<Longrightarrow>
      lookup (change i f t) j = (if j = i then map_option f (lookup t j) else lookup t j)"
    and lookup_drop: "lookup (drop_key i t) j = (if j = i then None else lookup t j)"
    and key_lookup: "lookup t i = Some v \<Longrightarrow> key_of v = i"
begin

lemma change_other: "(\<And>v. key_of (f v) = key_of v) \<Longrightarrow> j \<noteq> i \<Longrightarrow>
    lookup (change i f t) j = lookup t j"
  by (simp add: lookup_change)

lemma change_change:
  assumes "\<And>v. key_of (f v) = key_of v" and "\<And>v. key_of (g v) = key_of v"
  shows "lookup (change i g (change i f t)) = lookup (change i (g \<circ> f) t)"
  by (rule ext) (simp add: assms lookup_change option.map_comp)

lemma change_commute:
  assumes "\<And>v. key_of (f v) = key_of v" and "\<And>v. key_of (g v) = key_of v" and "i \<noteq> j"
  shows "lookup (change i f (change j g t)) = lookup (change j g (change i f t))"
  by (rule ext) (simp add: assms lookup_change)

lemma drop_change: "(\<And>v. key_of (f v) = key_of v) \<Longrightarrow>
    lookup (drop_key i (change i f t)) = lookup (drop_key i t)"
  by (rule ext) (simp add: lookup_change lookup_drop)

lemma drop_twice: "lookup (drop_key i (drop_key i t)) = lookup (drop_key i t)"
  by (rule ext) (simp add: lookup_drop)

end

lemma find_entry_id: "find_entry cfg rt i = Some e \<Longrightarrow> e_id e = i"
  by (auto simp: find_entry_def split: option.splits if_splits)

lemma find_entry_slot:
  "find_entry cfg rt i = Some e \<longleftrightarrow> r_slots rt (skyuv_socket_id_slot cfg i) = Some e \<and> e_id e = i"
  by (auto simp: find_entry_def split: option.splits if_splits)

lemma find_entry_raise_fault: "find_entry cfg (raise_fault f rt) i = find_entry cfg rt i"
  by (simp add: find_entry_def raise_fault_def)

lemma find_entry_upd_entry:
  assumes "\<And>e. e_id (f e) = e_id e"
  shows "find_entry cfg (upd_entry cfg i f rt) j =
    (if j = i then map_option f (find_entry cfg rt j) else find_entry cfg rt j)"
proof (cases "find_entry cfg rt i")
  case None
  then show ?thesis by (simp add: upd_entry_def deref_def find_entry_raise_fault)
next
  case (Some e)
  then show ?thesis
    by (auto simp: upd_entry_def deref_def find_entry_def assms split: option.splits if_splits)
qed

lemma find_entry_remove_entry:
  "find_entry cfg (remove_entry cfg i rt) j = (if j = i then None else find_entry cfg rt j)"
proof (cases "find_entry cfg rt i")
  case None
  then show ?thesis by (simp add: remove_entry_def deref_def find_entry_raise_fault)
next
  case (Some e)
  then show ?thesis
    by (auto simp: remove_entry_def deref_def find_entry_def split: option.splits if_splits)
qed

interpretation table: id_table "find_entry cfg" "upd_entry cfg" "remove_entry cfg" e_id for cfg
  by unfold_locales (auto simp: find_entry_upd_entry find_entry_remove_entry find_entry_id)

section \<open>Views\<close>

record view =
  v_entry :: "entry option"
  v_writes :: "socket_write list"
  v_udps :: "socket_write list"
  v_connects :: nat
  v_closing :: nat
  v_pump :: nat
  v_reading :: bool
  v_receiving :: bool
  v_listening :: bool

definition sview :: "build_config \<Rightarrow> runtime \<Rightarrow> sock_id \<Rightarrow> view" where
  "sview cfg rt i = \<lparr>v_entry = find_entry cfg rt i,
     v_writes = filter (\<lambda>w. w_entry w = i) (l_writes (r_loop rt)),
     v_udps = filter (\<lambda>w. w_entry w = i) (l_udp_sends (r_loop rt)),
     v_connects = count_list (l_connects (r_loop rt)) i,
     v_closing = count_list (l_closing (r_loop rt)) (H_socket i),
     v_pump = count_list (r_pump rt) i,
     v_reading = l_reading (r_loop rt) i,
     v_receiving = l_receiving (r_loop rt) i,
     v_listening = l_listening (r_loop rt) i\<rparr>"

lemma v_entry_sview [simp]: "v_entry (sview cfg rt i) = find_entry cfg rt i"
  by (simp add: sview_def)

lemma is_closing_view: "uv_is_closing rt (H_socket i) \<longleftrightarrow> 0 < v_closing (sview cfg rt i)"
  using count_list_0_iff [of "l_closing (r_loop rt)" "H_socket i"]
  by (auto simp: uv_is_closing_def sview_def)

text \<open>
  The rest of the runtime that invariants speak about. \<open>ids_of\<close> is the part of the slot
  table that changing an entry leaves alone.
\<close>

definition ids_of :: "runtime \<Rightarrow> u16 \<Rightarrow> sock_id option" where
  "ids_of rt s = map_option e_id (r_slots rt s)"

definition other_closing :: "runtime \<Rightarrow> uv_handle list" where
  "other_closing rt = filter (\<lambda>h. \<forall>i. h \<noteq> H_socket i) (l_closing (r_loop rt))"

record globals =
  g_exiting :: bool
  g_exit_ready :: bool
  g_commands :: command_queue
  g_generations :: "u16 \<Rightarrow> u16"
  g_ids :: "u16 \<Rightarrow> sock_id option"
  g_count :: u32
  g_closing :: "uv_handle list"

definition globals :: "runtime \<Rightarrow> globals" where
  "globals rt = \<lparr>g_exiting = r_exiting rt, g_exit_ready = r_exit_ready rt,
     g_commands = r_commands rt, g_generations = r_generations rt, g_ids = ids_of rt,
     g_count = r_entry_count rt, g_closing = other_closing rt\<rparr>"

section \<open>What the basic operations change\<close>

lemmas basic_defs = raise_fault_def upd_loop_def enqueue_event_def push_event_def
  free_buffer_def release_writes_def update_exit_ready_def

lemma find_entry_basic [frame_simps]:
  "find_entry cfg (raise_fault f rt) i = find_entry cfg rt i"
  "find_entry cfg (upd_loop g rt) i = find_entry cfg rt i"
  "find_entry cfg (uv_close h rt) i = find_entry cfg rt i"
  "find_entry cfg (enqueue_event ev rt) i = find_entry cfg rt i"
  "find_entry cfg (push_event env ty k opq v rt) i = find_entry cfg rt i"
  "find_entry cfg (free_buffer base rt) i = find_entry cfg rt i"
  "find_entry cfg (release_writes ws rt) i = find_entry cfg rt i"
  "find_entry cfg (update_exit_ready rt) i = find_entry cfg rt i"
  "find_entry cfg (rt\<lparr>r_pump := p\<rparr>) i = find_entry cfg rt i"
  "find_entry cfg (rt\<lparr>r_released := q\<rparr>) i = find_entry cfg rt i"
  "find_entry cfg (rt\<lparr>r_commands := qq\<rparr>) i = find_entry cfg rt i"
  by (auto simp: find_entry_def basic_defs uv_close_def split: option.splits)

lemma r_loop_basic [frame_simps]:
  "r_loop (raise_fault f rt) = r_loop rt"
  "r_loop (upd_loop g rt) = g (r_loop rt)"
  "r_loop (upd_entry cfg i h rt) = r_loop rt"
  "r_loop (enqueue_event ev rt) = r_loop rt"
  "r_loop (push_event env ty k opq v rt) = r_loop rt"
  "r_loop (free_buffer base rt) = r_loop rt"
  "r_loop (release_writes ws rt) = r_loop rt"
  "r_loop (update_exit_ready rt) = r_loop rt"
  "r_loop (remove_entry cfg i rt) = r_loop rt"
  by (auto simp: basic_defs upd_entry_def remove_entry_def deref_def split: option.splits)

lemma r_loop_uv_close [frame_simps]:
  "r_loop (uv_close h rt) =
     (if h \<in> set (l_closing (r_loop rt)) then r_loop rt
      else (r_loop rt)\<lparr>l_closing := l_closing (r_loop rt) @ [h]\<rparr>)"
  by (simp add: uv_close_def uv_is_closing_def basic_defs)

lemma r_pump_basic [frame_simps]:
  "r_pump (raise_fault f rt) = r_pump rt"
  "r_pump (upd_loop g rt) = r_pump rt"
  "r_pump (uv_close h rt) = r_pump rt"
  "r_pump (upd_entry cfg i k rt) = r_pump rt"
  "r_pump (enqueue_event ev rt) = r_pump rt"
  "r_pump (push_event env ty j opq v rt) = r_pump rt"
  "r_pump (free_buffer base rt) = r_pump rt"
  "r_pump (release_writes ws rt) = r_pump rt"
  "r_pump (update_exit_ready rt) = r_pump rt"
  "r_pump (remove_entry cfg i rt) = r_pump rt"
  by (auto simp: basic_defs upd_entry_def remove_entry_def uv_close_def deref_def
      split: option.splits)

lemma r_fault_basic [frame_simps]:
  "r_fault (raise_fault f rt) = (if r_fault rt = None then Some f else r_fault rt)"
  "r_fault (upd_loop g rt) = r_fault rt"
  "r_fault (enqueue_event ev rt) = r_fault rt"
  "r_fault (push_event env ty j opq v rt) = r_fault rt"
  "r_fault (free_buffer base rt) = r_fault rt"
  "r_fault (release_writes ws rt) = r_fault rt"
  "r_fault (update_exit_ready rt) = r_fault rt"
  by (auto simp: basic_defs split: option.splits)

lemma r_fault_deref [frame_simps]:
  "find_entry cfg rt i = Some e \<Longrightarrow> r_fault (upd_entry cfg i k rt) = r_fault rt"
  "find_entry cfg rt i = Some e \<Longrightarrow> r_fault (remove_entry cfg i rt) = r_fault rt"
  "h \<notin> set (l_closing (r_loop rt)) \<Longrightarrow> r_fault (uv_close h rt) = r_fault rt"
  by (simp_all add: upd_entry_def remove_entry_def uv_close_def uv_is_closing_def deref_def
      upd_loop_def)

lemma deref_Some [frame_simps]:
  "find_entry cfg rt i = Some e \<Longrightarrow> deref cfg rt i k = k e"
  by (simp add: deref_def)

lemma ids_of_upd_entry:
  assumes "\<And>e. e_id (f e) = e_id e"
  shows "ids_of (upd_entry cfg i f rt) = ids_of rt"
  by (rule ext) (auto simp: ids_of_def upd_entry_def deref_def find_entry_def raise_fault_def
      assms split: option.splits)

lemma globals_upd_entry [frame_simps]:
  assumes "\<And>e. e_id (f e) = e_id e"
  shows "globals (upd_entry cfg i f rt) = globals rt"
proof -
  have "r_exiting (upd_entry cfg i f rt) = r_exiting rt"
    "r_exit_ready (upd_entry cfg i f rt) = r_exit_ready rt"
    "r_commands (upd_entry cfg i f rt) = r_commands rt"
    "r_generations (upd_entry cfg i f rt) = r_generations rt"
    "r_entry_count (upd_entry cfg i f rt) = r_entry_count rt"
    by (simp_all add: upd_entry_def deref_def raise_fault_def split: option.splits)
  then show ?thesis
    using ids_of_upd_entry [OF assms]
    by (simp add: globals_def other_closing_def frame_simps)
qed

lemma globals_basic [frame_simps]:
  "globals (raise_fault f rt) = globals rt"
  "globals (uv_close (H_socket i) rt) = globals rt"
  "globals (enqueue_event ev rt) = globals rt"
  "globals (push_event env ty j opq v rt) = globals rt"
  "globals (free_buffer base rt) = globals rt"
  "globals (release_writes ws rt) = globals rt"
  "globals (rt\<lparr>r_pump := p\<rparr>) = globals rt"
  "globals (rt\<lparr>r_released := q\<rparr>) = globals rt"
  by (auto simp: globals_def basic_defs ids_of_def other_closing_def uv_close_def
      split: option.splits)

lemma globals_upd_loop [frame_simps]:
  "(\<And>l. l_closing (g l) = l_closing l) \<Longrightarrow> globals (upd_loop g rt) = globals rt"
  by (simp add: globals_def upd_loop_def ids_of_def other_closing_def fun_eq_iff)

declare find_entry_upd_entry [frame_simps] find_entry_remove_entry [frame_simps]

section \<open>The invariant of one socket\<close>

text \<open>
  \<open>idle\<close>: the loop and the pump list hold nothing for the socket.
\<close>

definition idle :: "view \<Rightarrow> bool" where
  "idle v \<longleftrightarrow> v_writes v = [] \<and> v_udps v = [] \<and> v_connects v = 0 \<and> v_closing v = 0 \<and>
     v_pump v = 0 \<and> \<not> v_reading v \<and> \<not> v_receiving v \<and> \<not> v_listening v"

definition no_tcp_writes :: "entry \<Rightarrow> bool" where
  "no_tcp_writes e \<longleftrightarrow> e_high e = [] \<and> e_low e = [] \<and> \<not> e_writing e \<and> \<not> e_pump_pending e \<and>
     \<not> e_close_requested e"

definition connected_state :: "socket_state \<Rightarrow> bool" where
  "connected_state s \<longleftrightarrow>
     s = STATE_CONNECTED \<or> s = STATE_CONNECTED_PAUSED \<or> s = STATE_HALFCLOSE_READ"

text \<open>The sizes of all writes of a socket that have been queued and not completed.\<close>

definition pending_bytes :: "entry \<Rightarrow> view \<Rightarrow> size_t" where
  "pending_bytes e v = sum_list (map w_size (e_high e @ e_low e @ v_writes v))"

text \<open>
  A write belongs to its socket, and its size fits the \<^verbatim>\<open>unsigned int\<close> of a libuv buffer.
\<close>

definition write_ok :: "sock_id \<Rightarrow> socket_write \<Rightarrow> bool" where
  "write_ok i w \<longleftrightarrow> w_entry w = i \<and> w_size w \<le> UINT_MAX"

text \<open>
  The invariant of an entry, clause by clause: an uninitialised entry is reserved and
  idle; an initialised one is in a state its handle can be in; \<^verbatim>\<open>CLOSING\<close> means that
  \<^verbatim>\<open>uv_close\<close> has been called, once; \<^verbatim>\<open>writing\<close> means that exactly one write is in flight;
  \<^verbatim>\<open>queued_bytes\<close> is the sum of the pending sizes; the pump list holds the entry when
  \<^verbatim>\<open>pump_pending\<close> says so; each handle type only has its own requests and watchers. The
  last part, \<open>progress\<close>: queued data never waits without a write in flight, a place in
  the pump list or a requested close, and a requested close has something to wait for.
\<close>

definition entry_base :: "sock_id \<Rightarrow> entry \<Rightarrow> view \<Rightarrow> bool" where
  "entry_base i e v \<longleftrightarrow>
     (\<not> e_initialized e \<longrightarrow>
        e_state e = STATE_RESERVED \<and> idle v \<and> no_tcp_writes e \<and> \<not> e_is_udp e) \<and>
     (e_initialized e \<longrightarrow>
        e_state e \<noteq> STATE_INVALID \<and> e_state e \<noteq> STATE_RESERVED \<and>
        e_state e \<noteq> STATE_LISTEN_PENDING) \<and>
     v_closing v = (if e_state e = STATE_CLOSING then 1 else 0) \<and>
     length (v_writes v) = (if e_writing e then 1 else 0) \<and>
     (\<forall>w \<in> set (e_high e @ e_low e @ v_writes v). write_ok i w) \<and>
     e_queued_bytes e = pending_bytes e v \<and>
     v_pump v = (if e_pump_pending e then 1 else 0) \<and>
     (e_is_udp e \<longrightarrow> no_tcp_writes e \<and> v_connects v = 0 \<and>
        (e_state e = STATE_UDP \<or> e_state e = STATE_CLOSING)) \<and>
     (\<not> e_is_udp e \<longrightarrow> v_udps v = [] \<and> e_state e \<noteq> STATE_UDP) \<and>
     v_connects v \<le> 1 \<and>
     (e_state e = STATE_CONNECTING \<longrightarrow> v_connects v = 1) \<and>
     (v_connects v = 1 \<longrightarrow> e_state e = STATE_CONNECTING \<or> e_state e = STATE_CLOSING) \<and>
     (\<not> no_tcp_writes e \<longrightarrow> connected_state (e_state e) \<or> e_state e = STATE_CLOSING) \<and>
     (v_reading v \<longrightarrow> \<not> e_is_udp e \<and>
        (e_state e = STATE_CONNECTED \<or> e_state e = STATE_HALFCLOSE_READ \<or>
         e_state e = STATE_CLOSING)) \<and>
     (v_receiving v \<longrightarrow> e_is_udp e) \<and>
     (v_listening v \<longrightarrow> e_state e = STATE_LISTENING \<or> e_state e = STATE_CLOSING)"

definition progress :: "entry \<Rightarrow> bool" where
  "progress e \<longleftrightarrow>
     (e_state e \<noteq> STATE_CLOSING \<and> \<not> e_writing e \<and> (e_high e \<noteq> [] \<or> e_low e \<noteq> []) \<longrightarrow>
        e_pump_pending e \<or> e_close_requested e) \<and>
     (e_state e \<noteq> STATE_CLOSING \<and> e_close_requested e \<longrightarrow>
        e_writing e \<or> e_high e \<noteq> [] \<or> e_low e \<noteq> [])"

definition entry_ok :: "sock_id \<Rightarrow> entry \<Rightarrow> view \<Rightarrow> bool" where
  "entry_ok i e v \<longleftrightarrow> entry_base i e v \<and> progress e"

definition view_ok :: "bool \<Rightarrow> sock_id \<Rightarrow> view \<Rightarrow> bool" where
  "view_ok exiting i v \<longleftrightarrow>
     (case v_entry v of
        None \<Rightarrow> idle v
      | Some e \<Rightarrow> entry_ok i e v \<and> (exiting \<longrightarrow> e_state e = STATE_CLOSING))"

section \<open>The invariant of the whole runtime\<close>

text \<open>
  A command made by the interface functions: a send command's size fits an
  \<^verbatim>\<open>unsigned int\<close>.
\<close>

definition command_ok :: "command \<Rightarrow> bool" where
  "command_ok c \<longleftrightarrow> (is_send_command (c_type c) \<longrightarrow> c_size c \<le> UINT_MAX)"

text \<open>
  The command queue: while it accepts there is no EXIT in it and none has been
  processed; afterwards EXIT is the last command of it until it has been processed,
  and then the queue is empty.
\<close>

definition queue_ok :: "bool \<Rightarrow> command_queue \<Rightarrow> bool" where
  "queue_ok exiting q \<longleftrightarrow> q_mutex q \<and> (\<forall>c \<in> set (q_items q). command_ok c) \<and>
     (if q_accepting q then \<not> exiting \<and> (\<forall>c \<in> set (q_items q). c_type c \<noteq> COMMAND_EXIT)
      else if exiting then q_items q = []
      else q_items q \<noteq> [] \<and> c_type (last (q_items q)) = COMMAND_EXIT \<and>
           (\<forall>c \<in> set (butlast (q_items q)). c_type c \<noteq> COMMAND_EXIT))"

definition table_ok :: "build_config \<Rightarrow> globals \<Rightarrow> bool" where
  "table_ok cfg g \<longleftrightarrow>
     (\<forall>s i. g_ids g s = Some i \<longrightarrow> valid_slot cfg s \<and> valid_generation (g_generations g s) \<and>
        i = skyuv_socket_id_make cfg s (g_generations g s)) \<and>
     g_count g = of_nat (card {s. g_ids g s \<noteq> None})"

definition exit_ok :: "globals \<Rightarrow> bool" where
  "exit_ok g \<longleftrightarrow> (g_exit_ready g \<longrightarrow> g_exiting g \<and> g_count g = 0) \<and>
     (\<not> g_exiting g \<longrightarrow> H_async \<notin> set (g_closing g))"

definition runtime_ok :: "build_config \<Rightarrow> runtime \<Rightarrow> bool" where
  "runtime_ok cfg rt \<longleftrightarrow>
     r_fault rt = None \<and> (\<forall>i. view_ok (r_exiting rt) i (sview cfg rt i)) \<and>
     table_ok cfg (globals rt) \<and> exit_ok (globals rt) \<and> queue_ok (r_exiting rt) (r_commands rt)"

lemma globals_exiting: "globals rt' = globals rt \<Longrightarrow> r_exiting rt' = r_exiting rt"
  by (simp add: globals_def)

lemma globals_commands: "globals rt' = globals rt \<Longrightarrow> r_commands rt' = r_commands rt"
  by (simp add: globals_def)

text \<open>
  The rule for handlers that work on one socket and leave the table, the queue and the
  flags alone.
\<close>

lemma runtime_ok_local:
  assumes "runtime_ok cfg rt" and "r_fault rt' = None" and "globals rt' = globals rt"
    and "\<And>j. j \<noteq> i \<Longrightarrow> sview cfg rt' j = sview cfg rt j"
    and "view_ok (r_exiting rt) i (sview cfg rt i) \<Longrightarrow> view_ok (r_exiting rt) i (sview cfg rt' i)"
  shows "runtime_ok cfg rt'"
proof -
  have "view_ok (r_exiting rt) j (sview cfg rt' j)" for j
    using assms(1,4,5) by (cases "j = i") (auto simp: runtime_ok_def)
  then show ?thesis
    using assms(1-3) globals_exiting [OF assms(3)] globals_commands [OF assms(3)]
    by (simp add: runtime_ok_def)
qed

end
