(* ===== verification/Socket_Invariant.thy ===== *)
theory Socket_Invariant
  imports Socket_Views
begin

text \<open>
  Every callback and every command handler of the runtime preserves the invariant
  \<open>runtime_ok\<close>: the calculation is done once per basic step (changing an entry, starting
  to read, closing, removing an entry), and a handler's proof composes the steps.
\<close>

section \<open>Using the invariant\<close>

lemmas view_defs = view_ok_def entry_ok_def entry_base_def progress_def idle_def
  no_tcp_writes_def connected_state_def pending_bytes_def sview_def

lemma runtime_ok_fault: "runtime_ok cfg rt \<Longrightarrow> r_fault rt = None"
  by (simp add: runtime_ok_def)

lemma runtime_ok_entry:
  assumes "runtime_ok cfg rt" and "find_entry cfg rt i = Some e"
  shows "entry_ok i e (sview cfg rt i)" "e_id e = i" "r_exiting rt \<Longrightarrow> e_state e = STATE_CLOSING"
  using assms find_entry_id [OF assms(2)]
  by (auto simp: runtime_ok_def view_ok_def split: option.splits)

lemma entry_initialized:
  "entry_base i e v \<Longrightarrow> e_state e \<noteq> STATE_RESERVED \<Longrightarrow> e_initialized e"
  by (cases "e_initialized e") (simp_all add: entry_base_def)

lemma entry_baseD:
  assumes "entry_base i e v"
  shows "\<not> e_initialized e \<longrightarrow> e_state e = STATE_RESERVED \<and> idle v \<and> no_tcp_writes e \<and> \<not> e_is_udp e"
    and "e_initialized e \<longrightarrow> e_state e \<noteq> STATE_INVALID \<and> e_state e \<noteq> STATE_RESERVED \<and>
      e_state e \<noteq> STATE_LISTEN_PENDING"
    and "v_closing v = (if e_state e = STATE_CLOSING then 1 else 0)"
    and "length (v_writes v) = (if e_writing e then 1 else 0)"
    and "\<forall>w \<in> set (e_high e @ e_low e @ v_writes v). write_ok i w"
    and "e_queued_bytes e = pending_bytes e v"
    and "v_pump v = (if e_pump_pending e then 1 else 0)"
    and "e_is_udp e \<longrightarrow> no_tcp_writes e \<and> v_connects v = 0 \<and>
      (e_state e = STATE_UDP \<or> e_state e = STATE_CLOSING)"
    and "\<not> e_is_udp e \<longrightarrow> v_udps v = [] \<and> e_state e \<noteq> STATE_UDP"
    and "v_connects v \<le> 1"
    and "v_connects v = 1 \<longrightarrow> e_state e = STATE_CONNECTING \<or> e_state e = STATE_CLOSING"
    and "\<not> no_tcp_writes e \<longrightarrow> connected_state (e_state e) \<or> e_state e = STATE_CLOSING"
    and "v_reading v \<longrightarrow> \<not> e_is_udp e \<and> (e_state e = STATE_CONNECTED \<or>
      e_state e = STATE_HALFCLOSE_READ \<or> e_state e = STATE_CLOSING)"
    and "v_receiving v \<longrightarrow> e_is_udp e"
    and "v_listening v \<longrightarrow> e_state e = STATE_LISTENING \<or> e_state e = STATE_CLOSING"
    and "e_state e = STATE_CONNECTING \<longrightarrow> v_connects v = 1"
  using assms by (simp_all add: entry_base_def)

text \<open>Operations that touch nothing the invariant speaks about.\<close>

lemma runtime_ok_cong:
  assumes "r_fault rt' = r_fault rt" and "globals rt' = globals rt"
    and "\<And>j. sview cfg rt' j = sview cfg rt j"
  shows "runtime_ok cfg rt' = runtime_ok cfg rt"
  using assms globals_exiting [OF assms(2)] globals_commands [OF assms(2)]
  by (simp add: runtime_ok_def)

lemma runtime_ok_neutral [simp]:
  "runtime_ok cfg (enqueue_event ev rt) = runtime_ok cfg rt"
  "runtime_ok cfg (push_event env ty j opq v rt) = runtime_ok cfg rt"
  "runtime_ok cfg (free_buffer base rt) = runtime_ok cfg rt"
  "runtime_ok cfg (release_writes ws rt) = runtime_ok cfg rt"
  "runtime_ok cfg (rt\<lparr>r_released := q\<rparr>) = runtime_ok cfg rt"
  by (rule runtime_ok_cong; simp add: frame_simps sview_def)+

section \<open>The invariant with one socket in the middle of an operation\<close>

text \<open>
  \<open>runtime_but cfg i rt\<close>: the invariant, except that socket \<open>i\<close> need not make progress.
  It holds when a write callback has taken its write off the loop, or when a socket
  has been taken from the pump list, and the handler has not yet submitted the next
  write.
\<close>

definition runtime_but :: "build_config \<Rightarrow> sock_id \<Rightarrow> runtime \<Rightarrow> bool" where
  "runtime_but cfg i rt \<longleftrightarrow>
     r_fault rt = None \<and> (\<forall>j. j \<noteq> i \<longrightarrow> view_ok (r_exiting rt) j (sview cfg rt j)) \<and>
     (\<exists>e. find_entry cfg rt i = Some e \<and> entry_base i e (sview cfg rt i) \<and>
        (r_exiting rt \<longrightarrow> e_state e = STATE_CLOSING)) \<and>
     table_ok cfg (globals rt) \<and> exit_ok (globals rt) \<and> queue_ok (r_exiting rt) (r_commands rt)"

lemma runtime_but_fault: "runtime_but cfg i rt \<Longrightarrow> r_fault rt = None"
  by (simp add: runtime_but_def)

lemma runtime_but_entry:
  assumes "runtime_but cfg i rt" and "find_entry cfg rt i = Some e"
  shows "entry_base i e (sview cfg rt i)" "e_id e = i"
  using assms find_entry_id [OF assms(2)] by (auto simp: runtime_but_def)

lemma runtime_ok_but:
  "runtime_ok cfg rt \<Longrightarrow> find_entry cfg rt i = Some e \<Longrightarrow> runtime_but cfg i rt"
  using runtime_ok_entry [of cfg rt i e]
  by (auto simp: runtime_ok_def runtime_but_def entry_ok_def)

lemma runtime_but_ok:
  assumes "runtime_but cfg i rt" and "find_entry cfg rt i = Some e" and "progress e"
  shows "runtime_ok cfg rt"
proof -
  have "view_ok (r_exiting rt) j (sview cfg rt j)" for j
    using assms by (cases "j = i") (auto simp: runtime_but_def view_ok_def entry_ok_def)
  then show ?thesis using assms(1) by (simp add: runtime_ok_def runtime_but_def)
qed

lemma closing_iff:
  assumes "runtime_but cfg i rt" and "find_entry cfg rt i = Some e"
  shows "H_socket i \<in> set (l_closing (r_loop rt)) \<longleftrightarrow> e_state e = STATE_CLOSING"
  using runtime_but_entry(1) [OF assms] is_closing_view [of rt i cfg]
  by (auto simp: entry_base_def uv_is_closing_def split: if_splits)

text \<open>A step on one socket.\<close>

lemma but_one_socket:
  assumes "runtime_but cfg i rt" and "find_entry cfg rt i = Some e"
    and "r_fault rt' = None" and g: "globals rt' = globals rt"
    and "\<And>j. j \<noteq> i \<Longrightarrow> sview cfg rt' j = sview cfg rt j"
    and "find_entry cfg rt' i = Some e'"
    and "entry_base i e (sview cfg rt i) \<Longrightarrow> entry_base i e' (sview cfg rt' i)"
    and "e_state e = STATE_CLOSING \<Longrightarrow> e_state e' = STATE_CLOSING"
  shows "runtime_but cfg i rt'"
  using assms globals_exiting [OF g] globals_commands [OF g]
  by (simp add: runtime_but_def)

lemma ok_one_socket:
  assumes "runtime_ok cfg rt" and "find_entry cfg rt i = Some e"
    and "r_fault rt' = None" and "globals rt' = globals rt"
    and "\<And>j. j \<noteq> i \<Longrightarrow> sview cfg rt' j = sview cfg rt j"
    and "find_entry cfg rt' i = Some e'"
    and "entry_ok i e (sview cfg rt i) \<Longrightarrow> entry_ok i e' (sview cfg rt' i)"
    and "e_state e = STATE_CLOSING \<Longrightarrow> e_state e' = STATE_CLOSING"
  shows "runtime_ok cfg rt'"
  using assms runtime_ok_entry [OF assms(1,2)]
  by (intro runtime_ok_local [OF assms(1), where i = i]) (simp_all add: view_ok_def)

lemma runtime_but_neutral [simp]:
  "runtime_but cfg i (push_event env ty j opq v rt) = runtime_but cfg i rt"
  "runtime_but cfg i (release_writes ws rt) = runtime_but cfg i rt"
proof -
  have "runtime_but cfg i rt' = runtime_but cfg i rt"
    if "r_fault rt' = r_fault rt" and g: "globals rt' = globals rt"
      and "\<And>j. sview cfg rt' j = sview cfg rt j" and "find_entry cfg rt' i = find_entry cfg rt i" for rt'
    using that globals_exiting [OF g] globals_commands [OF g] by (simp add: runtime_but_def)
  note cong = this
  show "runtime_but cfg i (push_event env ty j opq v rt) = runtime_but cfg i rt"
    by (rule cong; simp add: frame_simps sview_def)
  show "runtime_but cfg i (release_writes ws rt) = runtime_but cfg i rt"
    by (rule cong; simp add: frame_simps sview_def)
qed

section \<open>Changing an entry\<close>

text \<open>The fields of an entry the invariant speaks about.\<close>

definition core where
  "core e = (e_id e, e_state e, e_initialized e, e_is_udp e, e_high e, e_low e, e_writing e,
     e_queued_bytes e, e_pump_pending e, e_close_requested e)"

lemma entry_base_core: "core e' = core e \<Longrightarrow> entry_base i e' v = entry_base i e v"
  by (simp add: core_def entry_base_def no_tcp_writes_def pending_bytes_def)

lemma progress_core: "core e' = core e \<Longrightarrow> progress e' = progress e"
  by (simp add: core_def progress_def)

lemma entry_base_view_entry [simp]: "entry_base i e (v\<lparr>v_entry := x\<rparr>) = entry_base i e v"
  by (simp add: entry_base_def idle_def pending_bytes_def)

lemma sview_upd_entry:
  assumes "\<And>e. e_id (f e) = e_id e"
  shows "sview cfg (upd_entry cfg i f rt) j =
    (if j = i then (sview cfg rt j)\<lparr>v_entry := map_option f (find_entry cfg rt j)\<rparr>
     else sview cfg rt j)"
  by (simp add: sview_def frame_simps assms)

lemma but_upd_core:
  assumes "runtime_but cfg i rt" and core: "\<And>e. core (f e) = core e"
  shows "runtime_but cfg i (upd_entry cfg i f rt)"
proof -
  obtain e where e: "find_entry cfg rt i = Some e" using assms(1) by (auto simp: runtime_but_def)
  have id: "\<And>e. e_id (f e) = e_id e" using core by (simp add: core_def)
  show ?thesis
  proof (rule but_one_socket [OF assms(1) e])
    show "find_entry cfg (upd_entry cfg i f rt) i = Some (f e)"
      using e by (simp add: frame_simps id)
    show "r_fault (upd_entry cfg i f rt) = None"
      using runtime_but_fault [OF assms(1)] e by (simp add: frame_simps)
    show "e_state e = STATE_CLOSING \<Longrightarrow> e_state (f e) = STATE_CLOSING"
      using core [of e] by (simp add: core_def)
  qed (simp_all add: sview_upd_entry frame_simps id entry_base_core [OF core])
qed

lemma ok_upd_core:
  assumes "runtime_ok cfg rt" and "find_entry cfg rt i = Some e" and core: "\<And>e. core (f e) = core e"
  shows "runtime_ok cfg (upd_entry cfg i f rt)"
proof (rule runtime_but_ok)
  have id: "\<And>e. e_id (f e) = e_id e" using core by (simp add: core_def)
  show "runtime_but cfg i (upd_entry cfg i f rt)"
    using but_upd_core [OF runtime_ok_but [OF assms(1,2)] core] .
  show "find_entry cfg (upd_entry cfg i f rt) i = Some (f e)"
    using assms(2) by (simp add: frame_simps id)
  show "progress (f e)"
    using runtime_ok_entry(1) [OF assms(1,2)] by (simp add: progress_core [OF core] entry_ok_def)
qed

section \<open>Closing\<close>

lemmas step_defs = reject_entry_def finish_entry_def begin_close_def set_entry_state_def
  start_reading_def uv_read_stop_def

lemma but_begin_close:
  assumes "runtime_but cfg i rt" and e: "find_entry cfg rt i = Some e"
    and "e_initialized e" and "e_state e \<noteq> STATE_CLOSING"
  shows "runtime_ok cfg (begin_close cfg i rt)"
proof (rule runtime_but_ok)
  let ?e = "e\<lparr>e_state := STATE_CLOSING\<rparr>"
  note cl = closing_iff [OF assms(1) e]
  show find: "find_entry cfg (begin_close cfg i rt) i = Some ?e"
    using e by (simp add: step_defs frame_simps)
  show "runtime_but cfg i (begin_close cfg i rt)"
  proof (rule but_one_socket [OF assms(1) e _ _ _ find])
    show "r_fault (begin_close cfg i rt) = None"
      using runtime_but_fault [OF assms(1)] e cl assms(4) by (simp add: step_defs frame_simps)
    assume base: "entry_base i e (sview cfg rt i)"
    then have "entry_base i ?e ((sview cfg rt i)\<lparr>v_closing := 1\<rparr>)"
      using assms(3,4) by (simp add: entry_base_def idle_def no_tcp_writes_def pending_bytes_def)
    moreover have "sview cfg (begin_close cfg i rt) i =
        (sview cfg rt i)\<lparr>v_closing := 1, v_entry := Some ?e\<rparr>"
      using cl assms(4) e base by (simp add: step_defs sview_def frame_simps entry_base_def)
    ultimately show "entry_base i ?e (sview cfg (begin_close cfg i rt) i)" by simp
  qed (auto simp: step_defs frame_simps sview_def)
  show "progress ?e" by (simp add: progress_def)
qed

lemmas ok_begin_close = but_begin_close [OF runtime_ok_but]

lemma ok_reject_entry:
  assumes "runtime_ok cfg rt" and "find_entry cfg rt i = Some e"
    and "e_initialized e" and "e_state e \<noteq> STATE_CLOSING"
  shows "runtime_ok cfg (reject_entry cfg env i err rt)"
  unfolding reject_entry_def deref_Some [OF assms(2)]
  using assms by (intro ok_begin_close) (auto simp: frame_simps)

lemma but_finish_entry:
  assumes "runtime_but cfg i rt" and "find_entry cfg rt i = Some e" and "e_initialized e"
  shows "runtime_ok cfg (finish_entry cfg env i ty v rt)"
proof (cases "e_state e = STATE_CLOSING")
  case True
  with assms show ?thesis
    using runtime_but_ok [OF assms(1,2)] by (simp add: finish_entry_def frame_simps progress_def)
next
  case False
  with assms show ?thesis
    by (simp add: finish_entry_def frame_simps) (rule but_begin_close; simp add: frame_simps)
qed

lemmas ok_finish_entry = but_finish_entry [OF runtime_ok_but]

section \<open>Commands on open sockets\<close>

lemma ok_cache_tcp_name:
  assumes "runtime_ok cfg rt" and "find_entry cfg rt i = Some e"
  shows "runtime_ok cfg (cache_tcp_name cfg env i rt)"
  using assms by (auto simp: cache_tcp_name_def core_def split: prod.split option.split
      intro!: ok_upd_core)

text \<open>A paused or accepted socket starts to read.\<close>

lemma ok_resume:
  assumes ok: "runtime_ok cfg rt" and e: "find_entry cfg rt i = Some e"
    and "e_state e = STATE_ACCEPTED_PAUSED \<or> e_state e = STATE_CONNECTED_PAUSED"
    and "en_read_start env = UV_OK"
  shows "runtime_ok cfg (set_entry_state cfg i STATE_CONNECTED (start_reading cfg env i rt))"
proof (rule ok_one_socket [OF ok e])
  show "find_entry cfg (set_entry_state cfg i STATE_CONNECTED (start_reading cfg env i rt)) i
      = Some (e\<lparr>e_reading := True, e_state := STATE_CONNECTED\<rparr>)"
    using e assms(4) by (simp add: step_defs frame_simps)
  assume "entry_ok i e (sview cfg rt i)"
  then show "entry_ok i (e\<lparr>e_reading := True, e_state := STATE_CONNECTED\<rparr>)
      (sview cfg (set_entry_state cfg i STATE_CONNECTED (start_reading cfg env i rt)) i)"
    using assms(3,4) e
    by (elim disjE; simp add: step_defs frame_simps view_defs)
qed (use assms runtime_ok_fault [OF ok] in \<open>auto simp: step_defs frame_simps sview_def\<close>)

lemma ok_process_start:
  assumes ok: "runtime_ok cfg rt"
  shows "runtime_ok cfg (process_start cfg env c rt)"
proof (cases "find_entry cfg rt (c_id c)")
  case None
  with assms show ?thesis by (simp add: process_start_def)
next
  case (Some e)
  let ?rt = "upd_entry cfg (c_id c) (\<lambda>e. e\<lparr>e_opaque := c_opaque c\<rparr>) rt"
  have ok': "runtime_ok cfg ?rt"
    using ok Some by (rule ok_upd_core) (simp add: core_def)
  have e': "find_entry cfg ?rt (c_id c) = Some (e\<lparr>e_opaque := c_opaque c\<rparr>)"
    using Some by (simp add: frame_simps)
  have "e_initialized e" if "e_state e = STATE_ACCEPTED_PAUSED \<or> e_state e = STATE_CONNECTED_PAUSED"
    using that runtime_ok_entry(1) [OF ok Some] entry_initialized by (auto simp: entry_ok_def)
  then show ?thesis
    by (simp add: process_start_def Let_def Some ok ok' ok_resume [OF ok' e'] ok_reject_entry [OF ok' e'])
qed

lemma ok_process_pause:
  assumes ok: "runtime_ok cfg rt"
  shows "runtime_ok cfg (process_pause cfg env c rt)"
proof (cases "find_entry cfg rt (c_id c)")
  case None
  with assms show ?thesis by (simp add: process_pause_def)
next
  case (Some e)
  show ?thesis
  proof (cases "e_state e = STATE_CONNECTED \<and> en_read_stop env = UV_OK")
    case False
    with Some ok show ?thesis by (simp add: process_pause_def)
  next
    case True
    show ?thesis
    proof (rule ok_one_socket [OF ok Some])
      show "find_entry cfg (process_pause cfg env c rt) (c_id c)
          = Some (e\<lparr>e_reading := False, e_state := STATE_CONNECTED_PAUSED\<rparr>)"
        using Some True by (simp add: process_pause_def step_defs frame_simps)
      assume "entry_ok (c_id c) e (sview cfg rt (c_id c))"
      then show "entry_ok (c_id c) (e\<lparr>e_reading := False, e_state := STATE_CONNECTED_PAUSED\<rparr>)
          (sview cfg (process_pause cfg env c rt) (c_id c))"
        using True Some
        by (auto simp: process_pause_def step_defs frame_simps view_defs)
    qed (use True Some runtime_ok_fault [OF ok] in
        \<open>auto simp: process_pause_def step_defs frame_simps sview_def\<close>)
  qed
qed

lemma ok_process_nodelay:
  assumes "runtime_ok cfg rt"
  shows "runtime_ok cfg (process_nodelay cfg env c rt)"
proof -
  have "runtime_ok cfg (upd_loop (\<lambda>l. l\<lparr>l_nodelay := (l_nodelay l)(i := True)\<rparr>) rt)" for i
    using assms by (subst runtime_ok_cong [where rt = rt]) (auto simp: frame_simps sview_def)
  with assms show ?thesis by (simp add: process_nodelay_def split: option.split)
qed

lemma ok_process_udp_connect:
  assumes "runtime_ok cfg rt"
  shows "runtime_ok cfg (process_udp_connect cfg env c rt)"
  using assms by (auto simp: process_udp_connect_def core_def split: option.split prod.split
      intro!: ok_upd_core)

section \<open>Writing\<close>

text \<open>
  \<open>takes_write w e e'\<close>: taking the write \<open>w\<close> from one of the two lists of \<open>e\<close> gives \<open>e'\<close>.
\<close>

definition takes_write :: "socket_write \<Rightarrow> entry \<Rightarrow> entry \<Rightarrow> bool" where
  "takes_write w e e' \<longleftrightarrow>
     (\<exists>ws. e_high e = w # ws \<and> e' = e\<lparr>e_high := ws\<rparr>) \<or>
     (\<exists>ws. e_low e = w # ws \<and> e' = e\<lparr>e_low := ws\<rparr>)"

lemma takes_write_base:
  assumes "entry_base i e v" and "takes_write w e e'"
  shows "write_ok i w" and "\<not> no_tcp_writes e"
    and "pending_bytes e v = w_size w + pending_bytes e' v"
    and "\<forall>w \<in> set (e_high e' @ e_low e' @ v_writes v). write_ok i w"
  using entry_baseD(5) [OF assms(1)] assms(2)
  by (auto simp: takes_write_def no_tcp_writes_def pending_bytes_def algebra_simps)

lemma takes_write_fields:
  assumes "takes_write w e e'"
  shows "e_id e' = e_id e" "e_state e' = e_state e" "e_initialized e' = e_initialized e"
    "e_is_udp e' = e_is_udp e" "e_writing e' = e_writing e" "e_queued_bytes e' = e_queued_bytes e"
    "e_pump_pending e' = e_pump_pending e" "e_close_requested e' = e_close_requested e"
  using assms by (auto simp: takes_write_def)

text \<open>What the invariant says of a socket that has queued writes and is not closing.\<close>

lemma base_writing:
  assumes "entry_base i e v" and "\<not> no_tcp_writes e" and "e_state e \<noteq> STATE_CLOSING"
  shows "e_initialized e" "\<not> e_is_udp e" "connected_state (e_state e)" "v_connects v = 0"
    "v_udps v = []" "\<not> v_receiving v" "v_closing v = 0" "\<not> v_listening v"
    "e_state e \<noteq> STATE_CONNECTING"
proof -
  note D = entry_baseD [OF assms(1)]
  show "e_initialized e" using D(1) assms by blast
  show udp: "\<not> e_is_udp e" using D(8) assms by blast
  show st: "connected_state (e_state e)" using D(12) assms by blast
  show "e_state e \<noteq> STATE_CONNECTING" using st by (auto simp: connected_state_def)
  have "v_connects v \<noteq> 1" using D(11) st assms(3) by (auto simp: connected_state_def)
  then show "v_connects v = 0" using D(10) by simp
  show "v_udps v = []" using D(9) udp by blast
  show "\<not> v_receiving v" using D(14) udp by blast
  show "v_closing v = 0" using D(3) assms(3) by simp
  show "\<not> v_listening v" using D(15) st assms(3) by (auto simp: connected_state_def)
qed

lemma ok_submit_write:
  assumes but: "runtime_but cfg i rt" and e: "find_entry cfg rt i = Some e"
    and w: "takes_write w e (f e)" and id: "\<And>e. e_id (f e) = e_id e"
    and "\<not> e_writing e" and nc: "e_state e \<noteq> STATE_CLOSING"
  shows "runtime_ok cfg (submit_write cfg env i w (upd_entry cfg i f rt))"
proof -
  let ?v = "sview cfg rt i"
  have base: "entry_base i e ?v" using runtime_but_entry [OF but e] by simp
  note D = entry_baseD [OF base] and W = takes_write_base [OF base w]
    and F = takes_write_fields [OF w] and B = base_writing [OF base takes_write_base(2) [OF base w] nc]
  have wi: "w_entry w = i" using W(1) by (simp add: write_ok_def)
  note nofault = runtime_but_fault [OF but]
  show ?thesis
  proof (cases "en_write env = UV_OK")
    case True
    let ?rt = "submit_write cfg env i w (upd_entry cfg i f rt)"
    let ?e = "(f e)\<lparr>e_writing := True\<rparr>"
    show ?thesis
    proof (rule runtime_but_ok)
      show find: "find_entry cfg ?rt i = Some ?e"
        using True e by (simp add: submit_write_def frame_simps id)
      show "progress ?e" by (simp add: progress_def)
      have "sview cfg ?rt i = ?v\<lparr>v_writes := v_writes ?v @ [w], v_entry := Some ?e\<rparr>"
        using True e wi by (simp add: submit_write_def sview_def frame_simps id)
      moreover have "entry_base i ?e (?v\<lparr>v_writes := v_writes ?v @ [w]\<rparr>)"
        unfolding entry_base_def
        using D B F W(1,3,4) assms(5) nc
        by (simp add: pending_bytes_def no_tcp_writes_def)
      ultimately have "entry_base i ?e (sview cfg ?rt i)" by simp
      then show "runtime_but cfg i ?rt"
        by (intro but_one_socket [OF but e _ _ _ find])
          (use True e wi F nofault in \<open>auto simp: submit_write_def sview_def frame_simps id\<close>)
    qed
  next
    case False
    let ?e = "(f e)\<lparr>e_queued_bytes := e_queued_bytes (f e) - w_size w\<rparr>"
    let ?rt = "release_writes [w] (upd_entry cfg i (\<lambda>e. e\<lparr>e_queued_bytes := e_queued_bytes e - w_size w\<rparr>)
       (upd_entry cfg i f rt))"
    have find: "find_entry cfg ?rt i = Some ?e"
      using e by (simp add: frame_simps id)
    have "sview cfg ?rt i = ?v\<lparr>v_entry := Some ?e\<rparr>"
      using e by (simp add: sview_def frame_simps id)
    moreover have "entry_base i ?e ?v"
      unfolding entry_base_def using D B F W(3,4) assms(5) nc
      by (simp add: pending_bytes_def no_tcp_writes_def)
    ultimately have "entry_base i ?e (sview cfg ?rt i)" by simp
    then have "runtime_but cfg i ?rt"
      by (intro but_one_socket [OF but e _ _ _ find])
          (use e F nofault in \<open>auto simp: sview_def frame_simps id\<close>)
    from but_begin_close [OF this find] but_finish_entry [OF this find] show ?thesis
      using False e B F nc by (simp add: submit_write_def Let_def frame_simps id)
  qed
qed

lemma ok_pump_write:
  assumes but: "runtime_but cfg i rt" and e: "find_entry cfg rt i = Some e"
    and "e_state e \<noteq> STATE_CLOSING"
    and "e_close_requested e \<longrightarrow> e_writing e \<or> e_high e \<noteq> [] \<or> e_low e \<noteq> []"
  shows "runtime_ok cfg (pump_write cfg env i rt)"
proof (cases "e_writing e \<or> e_high e = [] \<and> e_low e = []")
  case True
  with assms have "progress e" by (auto simp: progress_def)
  from runtime_but_ok [OF but e this] True e show ?thesis
    by (auto simp: pump_write_def frame_simps)
next
  case False
  show ?thesis
  proof (cases "e_high e")
    case (Cons w ws)
    have "takes_write w e (e\<lparr>e_high := ws\<rparr>)" using Cons by (simp add: takes_write_def)
    from ok_submit_write [OF but e, where f = "\<lambda>e. e\<lparr>e_high := ws\<rparr>", OF this] show ?thesis
      using False Cons e assms(3) by (simp add: pump_write_def frame_simps)
  next
    case Nil
    then obtain w ws where low: "e_low e = w # ws" using False by (cases "e_low e") auto
    have "takes_write w e (e\<lparr>e_low := ws\<rparr>)" using low by (simp add: takes_write_def)
    from ok_submit_write [OF but e, where f = "\<lambda>e. e\<lparr>e_low := ws\<rparr>", OF this] show ?thesis
      using False Nil low e assms(3) by (simp add: pump_write_def frame_simps)
  qed
qed

lemma pending_write:
  assumes "runtime_ok cfg rt" and "w \<in> set (l_writes (r_loop rt))"
  obtains e where "find_entry cfg rt (w_entry w) = Some e" and "e_writing e"
    and "v_writes (sview cfg rt (w_entry w)) = [w]" and "e_initialized e"
proof -
  let ?i = "w_entry w"
  have in_view: "w \<in> set (v_writes (sview cfg rt ?i))" using assms(2) by (simp add: sview_def)
  have "view_ok (r_exiting rt) ?i (sview cfg rt ?i)" using assms(1) by (simp add: runtime_ok_def)
  then obtain e where e: "find_entry cfg rt ?i = Some e"
    using in_view by (cases "find_entry cfg rt ?i") (auto simp: view_ok_def idle_def)
  have base: "entry_base ?i e (sview cfg rt ?i)"
    using runtime_ok_entry [OF assms(1) e] by (simp add: entry_ok_def)
  have "e_writing e"
    using entry_baseD(4) [OF base] in_view by (cases "e_writing e") auto
  moreover have "v_writes (sview cfg rt ?i) = [w]"
    using entry_baseD(4) [OF base] in_view by (cases "v_writes (sview cfg rt ?i)") (auto split: if_splits)
  moreover have "e_initialized e"
    using entry_baseD(1) [OF base] \<open>e_writing e\<close> by (auto simp: no_tcp_writes_def)
  ultimately show ?thesis using e that by blast
qed

text \<open>
  The accounting of a completed write: from the invariant, with the write taken off the
  loop and the socket possibly closed by an error, to the invariant without progress.
\<close>

definition write_done_by :: "build_config \<Rightarrow> socket_write \<Rightarrow> bool \<Rightarrow> entry \<Rightarrow> runtime \<Rightarrow> runtime \<Rightarrow> bool" where
  "write_done_by cfg w closes e rt rt1 \<longleftrightarrow>
     r_fault rt1 = None \<and> globals rt1 = globals rt \<and> r_pump rt1 = r_pump rt \<and>
     r_loop rt1 = (r_loop rt)\<lparr>l_writes := remove1 w (l_writes (r_loop rt)),
       l_closing := l_closing (r_loop rt) @ (if closes then [H_socket (w_entry w)] else [])\<rparr> \<and>
     (\<forall>j. find_entry cfg rt1 j =
        (if j = w_entry w then Some (if closes then e\<lparr>e_state := STATE_CLOSING\<rparr> else e)
         else find_entry cfg rt j))"

lemma but_write_done:
  fixes tm :: u64
  assumes ok: "runtime_ok cfg rt" and w: "w \<in> set (l_writes (r_loop rt))"
    and e: "find_entry cfg rt (w_entry w) = Some e"
    and rt1: "write_done_by cfg w closes e rt rt1"
    and nc: "closes \<longrightarrow> e_state e \<noteq> STATE_CLOSING"
  defines "f \<equiv> \<lambda>e. e\<lparr>e_queued_bytes := e_queued_bytes e - w_size w,
        e_write_bytes := e_write_bytes e + w_size w, e_write_time := tm, e_writing := False\<rparr>"
  defines "e2 \<equiv> f (if closes then e\<lparr>e_state := STATE_CLOSING\<rparr> else e)"
  shows "runtime_but cfg (w_entry w) (upd_entry cfg (w_entry w) f rt1)"
    and "find_entry cfg (upd_entry cfg (w_entry w) f rt1) (w_entry w) = Some e2"
proof -
  let ?i = "w_entry w" and ?v = "sview cfg rt (w_entry w)"
  let ?rt = "upd_entry cfg ?i f rt1"
  obtain e1 where "find_entry cfg rt ?i = Some e1" and "e_writing e1" and vw: "v_writes ?v = [w]"
    and "e_initialized e1"
    using pending_write [OF ok w] by blast
  then have wr: "e_writing e" and init: "e_initialized e" using e by auto
  have base: "entry_base ?i e ?v"
    using runtime_ok_entry [OF ok e] by (simp add: entry_ok_def)
  note D = entry_baseD [OF base] and R = rt1 [unfolded write_done_by_def]
  have id: "\<And>e. e_id (f e) = e_id e" by (simp add: f_def)
  show find: "find_entry cfg ?rt ?i = Some e2"
    using R by (simp add: frame_simps id e2_def)
  have "sview cfg ?rt ?i = ?v\<lparr>v_writes := [], v_closing := v_closing ?v + (if closes then 1 else 0),
      v_entry := Some e2\<rparr>"
    using R vw find by (simp add: sview_def frame_simps id filter_remove1_same)
  moreover have "entry_base ?i e2 (?v\<lparr>v_writes := [],
      v_closing := v_closing ?v + (if closes then 1 else 0)\<rparr>)"
    unfolding entry_base_def e2_def f_def
    using D nc init wr vw
    by (cases closes) (simp_all add: pending_bytes_def no_tcp_writes_def idle_def)
  ultimately have "entry_base ?i e2 (sview cfg ?rt ?i)" by simp
  then show "runtime_but cfg ?i ?rt"
    by (intro but_one_socket [OF runtime_ok_but [OF ok e] e _ _ _ find])
       (use R in \<open>auto simp: frame_simps id sview_def e2_def f_def filter_remove1_other\<close>)
qed

lemma begin_close_fault:
  assumes "runtime_but cfg i rt" and "find_entry cfg rt i = Some e" and "e_state e = STATE_CLOSING"
  shows "r_fault (begin_close cfg i rt) = Some Double_close"
  using assms closing_iff [OF assms(1,2)] runtime_but_fault [OF assms(1)]
  by (simp add: begin_close_def set_entry_state_def uv_close_def uv_is_closing_def frame_simps)

lemma close_after_writes_result:
  assumes "runtime_but cfg i rt" and e: "find_entry cfg rt i = Some e" and "e_close_requested e"
  defines "bad \<equiv> e_state e = STATE_CLOSING \<and> \<not> e_writing e \<and> e_high e = [] \<and> e_low e = []"
  shows "\<not> bad \<Longrightarrow> runtime_ok cfg (close_after_writes cfg i rt)"
    and "bad \<Longrightarrow> r_fault (close_after_writes cfg i rt) = Some Double_close"
proof -
  show "r_fault (close_after_writes cfg i rt) = Some Double_close" if bad
    using that begin_close_fault [OF assms(1,2)] assms(3) e
    by (simp add: bad_def close_after_writes_def frame_simps)
  assume "\<not> bad"
  show "runtime_ok cfg (close_after_writes cfg i rt)"
  proof (cases "e_writing e \<or> e_high e \<noteq> [] \<or> e_low e \<noteq> []")
    case True
    then have "progress e" using assms(3) by (simp add: progress_def)
    from runtime_but_ok [OF assms(1) e this] True e show ?thesis
      by (auto simp: close_after_writes_def frame_simps)
  next
    case False
    then have nc: "e_state e \<noteq> STATE_CLOSING" using \<open>\<not> bad\<close> by (simp add: bad_def)
    have "\<not> no_tcp_writes e" using assms(3) by (simp add: no_tcp_writes_def)
    then have "e_initialized e"
      using base_writing(1) [OF runtime_but_entry(1) [OF assms(1) e] _ nc] by simp
    from but_begin_close [OF assms(1) e this nc] False assms(3) e show ?thesis
      by (simp add: close_after_writes_def frame_simps)
  qed
qed

lemma write_done_forms:
  assumes ok: "runtime_ok cfg rt" and e: "find_entry cfg rt (w_entry w) = Some e"
  shows "write_done_by cfg w False e rt (uv_write_done w rt)"
    and "e_state e \<noteq> STATE_CLOSING \<Longrightarrow>
      write_done_by cfg w True e rt (begin_close cfg (w_entry w) (uv_write_done w rt))"
    and "e_state e \<noteq> STATE_CLOSING \<Longrightarrow>
      write_done_by cfg w True e rt (finish_entry cfg env (w_entry w) ty v (uv_write_done w rt))"
  using e runtime_ok_fault [OF ok] closing_iff [OF runtime_ok_but [OF ok e] e]
  by (auto simp: write_done_by_def uv_write_done_def step_defs frame_simps)

lemma write_completed_result:
  fixes status :: uv_code and env :: uv_env
  assumes ok: "runtime_ok cfg rt" and w: "w \<in> set (l_writes (r_loop rt))"
    and e: "find_entry cfg rt (w_entry w) = Some e"
  defines "bad \<equiv> e_close_requested e \<and> e_high e = [] \<and> e_low e = [] \<and>
    (e_state e = STATE_CLOSING \<or> status \<noteq> UV_OK)"
  defines "rt' \<equiv> write_completed cfg env w status (uv_write_done w rt)"
  shows "\<not> bad \<Longrightarrow> runtime_ok cfg rt'" and "bad \<Longrightarrow> r_fault rt' = Some Double_close"
proof -
  let ?i = "w_entry w"
  define closes where "closes \<longleftrightarrow> status \<noteq> UV_OK \<and> e_state e \<noteq> STATE_CLOSING"
  define rt1 where "rt1 = (if closes then (if e_state e = STATE_HALFCLOSE_READ
      then begin_close cfg ?i (uv_write_done w rt)
      else finish_entry cfg env ?i EVENT_ERROR (V_code status) (uv_write_done w rt))
    else uv_write_done w rt)"
  define f :: "entry \<Rightarrow> entry" where "f = (\<lambda>e. e\<lparr>e_queued_bytes := e_queued_bytes e - w_size w,
        e_write_bytes := e_write_bytes e + w_size w, e_write_time := r_current_time rt1,
        e_writing := False\<rparr>)"
  define e2 where "e2 = f (if closes then e\<lparr>e_state := STATE_CLOSING\<rparr> else e)"
  define rt2 where "rt2 = release_writes [w] (upd_entry cfg ?i f rt1)"
  define warn where "warn \<longleftrightarrow> e_queued_bytes e2 = 0 \<and> e_warn_size e2 > 0 \<and> e_state e2 \<noteq> STATE_CLOSING"
  define rt3 where "rt3 = (if warn then push_event env EVENT_WARNING (e_id e2) (e_opaque e2) (V_int 0)
      (upd_entry cfg ?i (\<lambda>e. e\<lparr>e_warn_size := 0\<rparr>) rt2) else rt2)"
  define e3 where "e3 = (if warn then e2\<lparr>e_warn_size := 0\<rparr> else e2)"
  have "write_done_by cfg w closes e rt rt1"
    using write_done_forms [OF ok e] by (simp add: rt1_def closes_def)
  from but_write_done [OF ok w e this, of "r_current_time rt1"]
  have but2: "runtime_but cfg ?i rt2" and find2: "find_entry cfg rt2 ?i = Some e2"
    by (simp_all add: rt2_def f_def e2_def closes_def frame_simps)
  have but3: "runtime_but cfg ?i rt3"
    using but2 but_upd_core [OF but2, of "\<lambda>e. e\<lparr>e_warn_size := 0\<rparr>"] by (simp add: rt3_def core_def)
  have find3: "find_entry cfg rt3 ?i = Some e3"
    using find2 by (simp add: rt3_def e3_def frame_simps)
  have e3: "e_close_requested e3 = e_close_requested e" "\<not> e_writing e3" "e_high e3 = e_high e"
    "e_low e3 = e_low e" "e_state e3 = (if closes then STATE_CLOSING else e_state e)"
    by (simp_all add: e3_def e2_def f_def)
  have start: "find_entry cfg (uv_write_done w rt) ?i = Some e"
    using e by (simp add: uv_write_done_def frame_simps)
  have rt': "rt' = (if e_close_requested e3 then close_after_writes cfg ?i rt3
      else if e_state e3 \<noteq> STATE_CLOSING then pump_write cfg env ?i rt3 else rt3)"
    unfolding rt'_def write_completed_def Let_def deref_Some [OF start]
    apply (fold closes_def)
    apply (fold rt1_def)
    apply (fold f_def)
    apply (fold rt2_def)
    unfolding deref_Some [OF find2]
    apply (fold warn_def)
    apply (fold rt3_def)
    unfolding deref_Some [OF find3] ..
  show "runtime_ok cfg rt'" if "\<not> bad"
  proof (cases "e_close_requested e3")
    case True
    with that close_after_writes_result(1) [OF but3 find3] show ?thesis
      by (auto simp: bad_def rt' e3 closes_def split: if_splits)
  next
    case False
    show ?thesis
    proof (cases "e_state e3 = STATE_CLOSING")
      case True
      with runtime_but_ok [OF but3 find3] False show ?thesis by (simp add: rt' progress_def)
    next
      case nc: False
      with ok_pump_write [OF but3 find3] False show ?thesis by (simp add: rt')
    qed
  qed
  show "r_fault rt' = Some Double_close" if bad
    using that close_after_writes_result(2) [OF but3 find3]
    by (auto simp: bad_def rt' e3 closes_def)
qed

lemma ok_pump_one:
  assumes ok: "runtime_ok cfg rt" and pump: "r_pump rt = i # rest"
  shows "runtime_ok cfg (pump_one cfg env i rt)"
proof -
  let ?v = "sview cfg rt i"
  have pos: "v_pump ?v \<noteq> 0" using pump by (simp add: sview_def)
  have "view_ok (r_exiting rt) i ?v" using ok by (simp add: runtime_ok_def)
  then obtain e where e: "find_entry cfg rt i = Some e"
    using pos by (cases "find_entry cfg rt i") (auto simp: view_ok_def idle_def)
  have base: "entry_base i e ?v" and pr: "progress e"
    using runtime_ok_entry [OF ok e] by (simp_all add: entry_ok_def)
  note D = entry_baseD [OF base]
  have pp: "e_pump_pending e" and one: "v_pump ?v = 1" using D(7) pos by (auto split: if_splits)
  have init: "e_initialized e" using D(1) pp by (auto simp: no_tcp_writes_def)
  let ?f = "\<lambda>e. e\<lparr>e_pump_pending := False\<rparr>"
  let ?rt = "upd_entry cfg i ?f (rt\<lparr>r_pump := tl (r_pump rt)\<rparr>)"
  have find: "find_entry cfg ?rt i = Some (?f e)" using e by (simp add: frame_simps)
  have "sview cfg ?rt i = ?v\<lparr>v_pump := 0, v_entry := Some (?f e)\<rparr>"
    using pump one e by (simp add: sview_def frame_simps)
  moreover have "entry_base i (?f e) (?v\<lparr>v_pump := 0\<rparr>)"
    unfolding entry_base_def using D init pp
    by (simp add: no_tcp_writes_def idle_def pending_bytes_def)
  ultimately have "entry_base i (?f e) (sview cfg ?rt i)" by simp
  then have but: "runtime_but cfg i ?rt"
    using runtime_ok_fault [OF ok] e pump
    by (intro but_one_socket [OF runtime_ok_but [OF ok e] e _ _ _ find])
       (auto simp: sview_def frame_simps)
  show ?thesis
  proof (cases "e_state e = STATE_CLOSING")
    case True
    with runtime_but_ok [OF but find] find show ?thesis
      by (simp add: pump_one_def Let_def frame_simps progress_def)
  next
    case False
    with ok_pump_write [OF but find] pr find show ?thesis
      by (simp add: pump_one_def Let_def frame_simps progress_def)
  qed
qed

section \<open>Sending\<close>

lemma ok_join_pump:
  assumes but: "runtime_but cfg i rt" and e: "find_entry cfg rt i = Some e"
    and st: "connected_state (e_state e)" and np: "\<not> e_pump_pending e"
    and cr: "e_close_requested e \<longrightarrow> e_high e \<noteq> [] \<or> e_low e \<noteq> []"
  shows "runtime_ok cfg ((upd_entry cfg i (\<lambda>e. e\<lparr>e_pump_pending := True\<rparr>) rt)\<lparr>r_pump := r_pump rt @ [i]\<rparr>)"
    (is "runtime_ok cfg ?rt")
proof (rule runtime_but_ok)
  let ?v = "sview cfg rt i" and ?e = "e\<lparr>e_pump_pending := True\<rparr>"
  note D = entry_baseD [OF runtime_but_entry(1) [OF but e]]
  show find: "find_entry cfg ?rt i = Some ?e" using e by (simp add: frame_simps)
  show "progress ?e" using cr by (auto simp: progress_def)
  have "e_initialized e" using D(1) st by (auto simp: connected_state_def)
  moreover have "\<not> e_is_udp e" using D(8) st by (auto simp: connected_state_def)
  ultimately have "entry_base i ?e (?v\<lparr>v_pump := 1\<rparr>)"
    unfolding entry_base_def using D st by (simp add: no_tcp_writes_def pending_bytes_def)
  moreover have "sview cfg ?rt i = ?v\<lparr>v_pump := 1, v_entry := Some ?e\<rparr>"
    using D(7) np e by (simp add: sview_def frame_simps)
  ultimately have "entry_base i ?e (sview cfg ?rt i)" by simp
  then show "runtime_but cfg i ?rt"
    using runtime_but_fault [OF but] e
    by (intro but_one_socket [OF but e _ _ _ find]) (auto simp: sview_def frame_simps)
qed

lemma queue_write_fields [simp]:
  "e_id (queue_write c e) = e_id e" "e_state (queue_write c e) = e_state e"
  "e_initialized (queue_write c e) = e_initialized e" "e_is_udp (queue_write c e) = e_is_udp e"
  "e_writing (queue_write c e) = e_writing e" "e_pump_pending (queue_write c e) = e_pump_pending e"
  "e_close_requested (queue_write c e) = e_close_requested e"
  "e_queued_bytes (queue_write c e) = e_queued_bytes e + c_size c"
  "e_warn_size (queue_write c e) = e_warn_size e"
  by (simp_all add: queue_write_def)

lemma queue_write_lists:
  "set (e_high (queue_write c e) @ e_low (queue_write c e) @ ws)
     = insert (command_write c) (set (e_high e @ e_low e @ ws))"
  "pending_bytes (queue_write c e) v = c_size c + pending_bytes e v"
  by (auto simp: queue_write_def pending_bytes_def command_write_def)

lemma but_queue_write:
  assumes ok: "runtime_ok cfg rt" and e: "find_entry cfg rt (c_id c) = Some e"
    and st: "connected_state (e_state e)" and sz: "c_size c \<le> UINT_MAX"
  shows "runtime_but cfg (c_id c) (upd_entry cfg (c_id c) (queue_write c) rt)" (is "runtime_but cfg ?i ?rt")
proof -
  let ?v = "sview cfg rt ?i"
  note D = entry_baseD [OF runtime_but_entry(1) [OF runtime_ok_but [OF ok e] e]]
  have find: "find_entry cfg ?rt ?i = Some (queue_write c e)" using e by (simp add: frame_simps)
  have "e_initialized e" using D(1) st by (auto simp: connected_state_def)
  moreover have "\<not> e_is_udp e" using D(8) st by (auto simp: connected_state_def)
  ultimately have "entry_base ?i (queue_write c e) ?v"
    unfolding entry_base_def queue_write_lists queue_write_fields
    using D st sz by (simp add: command_write_def write_ok_def)
  then have "entry_base ?i (queue_write c e) (sview cfg ?rt ?i)"
    using e by (simp add: sview_upd_entry)
  then show ?thesis
    using runtime_ok_fault [OF ok] e
    by (intro but_one_socket [OF runtime_ok_but [OF ok e] e _ _ _ find]) (auto simp: sview_def frame_simps)
qed

lemma ok_process_udp_send:
  assumes ok: "runtime_ok cfg rt"
  shows "runtime_ok cfg (snd (process_udp_send cfg env c rt))"
proof -
  have "runtime_ok cfg (upd_loop (\<lambda>l. l\<lparr>l_udp_sends := l_udp_sends l @ [command_write c],
      l_datagrams := l_datagrams l @ [d]\<rparr>) rt)" (is "runtime_ok cfg ?rt")
    if e: "find_entry cfg rt (c_id c) = Some e" and st: "e_state e = STATE_UDP" for e d
  proof (rule ok_one_socket [OF ok e])
    show "find_entry cfg ?rt (c_id c) = Some e" using e by (simp add: frame_simps)
    assume "entry_ok (c_id c) e (sview cfg rt (c_id c))"
    then have base: "entry_base (c_id c) e (sview cfg rt (c_id c))" and "progress e"
      by (simp_all add: entry_ok_def)
    note D = entry_baseD [OF base]
    have "e_initialized e" "e_is_udp e" using D(1,9) st by auto
    then have "entry_base (c_id c) e (sview cfg ?rt (c_id c))"
      unfolding entry_base_def using D st by (simp add: sview_def frame_simps pending_bytes_def)
    with \<open>progress e\<close> show "entry_ok (c_id c) e (sview cfg ?rt (c_id c))" by (simp add: entry_ok_def)
  qed (use runtime_ok_fault [OF ok] in \<open>auto simp: frame_simps sview_def command_write_def\<close>)
  with ok show ?thesis
    by (simp add: process_udp_send_def Let_def split: option.split sum.split)
qed

lemma ok_enqueue_write:
  assumes ok: "runtime_ok cfg rt" and e: "find_entry cfg rt (c_id c) = Some e"
    and st: "connected_state (e_state e)" and cr: "\<not> e_close_requested e" and sz: "c_size c \<le> UINT_MAX"
  shows "runtime_ok cfg (enqueue_write cfg env c e rt)"
proof -
  let ?i = "c_id c" and ?rt1 = "upd_entry cfg (c_id c) (queue_write c) rt"
  define rt2 where "rt2 = (case write_warning (queue_write c e) of None \<Rightarrow> ?rt1
    | Some (warn, kb) \<Rightarrow> push_event env EVENT_WARNING (e_id e) (e_opaque e) (V_int kb)
        (upd_entry cfg ?i (\<lambda>e. e\<lparr>e_warn_size := warn\<rparr>) ?rt1))"
  note but1 = but_queue_write [OF ok e st sz]
  have but2: "runtime_but cfg ?i rt2"
    using but1 but_upd_core [OF but1] by (auto simp: rt2_def core_def split: option.split)
  have "\<exists>e2. find_entry cfg rt2 ?i = Some e2 \<and> core e2 = core (queue_write c e)"
    using e by (cases "write_warning (queue_write c e)") (auto simp: rt2_def core_def frame_simps)
  then obtain e2 where find2: "find_entry cfg rt2 ?i = Some e2"
    and "core e2 = core (queue_write c e)" by blast
  then have e2: "e_state e2 = e_state e" "e_writing e2 = e_writing e"
    "e_pump_pending e2 = e_pump_pending e" "e_close_requested e2 = e_close_requested e"
    by (simp_all add: core_def)
  have rt': "enqueue_write cfg env c e rt = (if \<not> e_writing e \<and> \<not> e_pump_pending e
      then (upd_entry cfg ?i (\<lambda>e. e\<lparr>e_pump_pending := True\<rparr>) rt2)\<lparr>r_pump := r_pump rt2 @ [?i]\<rparr>
      else rt2)"
    by (simp add: enqueue_write_def Let_def rt2_def)
  show ?thesis
  proof (cases "\<not> e_writing e \<and> \<not> e_pump_pending e")
    case True
    with ok_join_pump [OF but2 find2] st cr show ?thesis by (simp add: rt' e2)
  next
    case False
    then have "progress e2" using cr by (auto simp: progress_def e2)
    from runtime_but_ok [OF but2 find2 this] False show ?thesis by (auto simp: rt')
  qed
qed

lemma ok_process_send:
  assumes ok: "runtime_ok cfg rt" and sz: "c_size c \<le> UINT_MAX"
  shows "runtime_ok cfg (snd (process_send cfg env c rt))"
proof (cases "find_entry cfg rt (c_id c)")
  case None
  then show ?thesis using ok by (simp add: process_send_def entry_state_def)
next
  case (Some e)
  show ?thesis
    using ok_enqueue_write [OF ok Some _ _ sz] ok ok_process_udp_send [OF ok]
    by (simp add: process_send_def entry_state_def Some Let_def connected_state_def)
qed


section \<open>Removing an entry\<close>

definition removed_globals :: "build_config \<Rightarrow> sock_id \<Rightarrow> globals \<Rightarrow> globals" where
  "removed_globals cfg i g =
     (let g1 = g\<lparr>g_ids := (g_ids g)(skyuv_socket_id_slot cfg i := None), g_count := g_count g - 1\<rparr>
      in if g_exiting g \<and> g_count g1 = 0 then g1\<lparr>g_exit_ready := True\<rparr> else g1)"

lemma globals_remove_entry:
  assumes "find_entry cfg rt i = Some e"
  shows "globals (update_exit_ready (remove_entry cfg i rt)) = removed_globals cfg i (globals rt)"
  using assms
  by (auto simp: removed_globals_def globals_def update_exit_ready_def remove_entry_def deref_def
      ids_of_def other_closing_def Let_def)

lemma globals_ids_entry:
  assumes "find_entry cfg rt i = Some e"
  shows "g_ids (globals rt) (skyuv_socket_id_slot cfg i) = Some i"
  using assms by (simp add: globals_def ids_of_def find_entry_slot)

lemma card_slots_remove:
  fixes m :: "u16 \<Rightarrow> 'a option"
  assumes "m s \<noteq> None"
  shows "card {t. m t \<noteq> None} = Suc (card {t. (m(s := None)) t \<noteq> None})"
proof -
  have "{t. m t \<noteq> None} = insert s {t. (m(s := None)) t \<noteq> None}" using assms by auto
  then show ?thesis by (simp only: card_insert_disjoint finite) simp
qed

lemma removed_globals_ok:
  assumes "table_ok cfg g" and "exit_ok g" and "g_ids g (skyuv_socket_id_slot cfg i) = Some i"
  shows "table_ok cfg (removed_globals cfg i g)" "exit_ok (removed_globals cfg i g)"
proof -
  let ?m = "(g_ids g)(skyuv_socket_id_slot cfg i := None)"
  have card: "card {t. g_ids g t \<noteq> None} = Suc (card {t. ?m t \<noteq> None})"
    using assms(3) by (intro card_slots_remove) simp
  have "g_count g - 1 = of_nat (card {t. ?m t \<noteq> None})"
    using assms(1) card by (simp add: table_ok_def)
  then show "table_ok cfg (removed_globals cfg i g)"
    using assms(1) by (auto simp: table_ok_def removed_globals_def Let_def)
  have "card {t. g_ids g t \<noteq> None} \<le> card (UNIV :: u16 set)" by (rule card_mono) auto
  also have "\<dots> < 2 ^ 32" by (simp add: card_word)
  finally have "\<not> 2 ^ 32 dvd card {t. g_ids g t \<noteq> None}"
    using card by (metis dvd_imp_le not_less zero_less_Suc)
  then have "g_count g \<noteq> 0"
    using assms(1) by (simp add: table_ok_def word_of_nat_eq_0_iff)
  then show "exit_ok (removed_globals cfg i g)"
    using assms(2) by (auto simp: exit_ok_def removed_globals_def Let_def)
qed

lemma ok_removed:
  assumes ok: "runtime_ok cfg rt" and e: "find_entry cfg rt i = Some e"
    and "r_fault rt' = None" and g: "globals rt' = removed_globals cfg i (globals rt)"
    and "\<And>j. j \<noteq> i \<Longrightarrow> sview cfg rt' j = sview cfg rt j"
    and "find_entry cfg rt' i = None" and "idle (sview cfg rt' i)"
  shows "runtime_ok cfg rt'"
proof -
  have "g_exiting (globals rt') = g_exiting (globals rt)" "g_commands (globals rt') = g_commands (globals rt)"
    unfolding g by (simp_all add: removed_globals_def Let_def)
  then have ex: "r_exiting rt' = r_exiting rt" and co: "r_commands rt' = r_commands rt"
    by (simp_all add: globals_def)
  have "view_ok (r_exiting rt) j (sview cfg rt' j)" for j
    using assms by (cases "j = i") (simp_all add: runtime_ok_def view_ok_def)
  then show ?thesis
    using ok removed_globals_ok [OF _ _ globals_ids_entry [OF e]] assms(3)
    by (simp add: runtime_ok_def ex co g)
qed

section \<open>New sockets\<close>

lemma upd_entry_upd_entry:
  assumes "\<And>e. e_id (f e) = e_id e"
  shows "upd_entry cfg i g (upd_entry cfg i f rt) = upd_entry cfg i (\<lambda>e. g (f e)) rt"
proof (cases "find_entry cfg rt i")
  case None
  then show ?thesis
    by (simp add: upd_entry_def deref_def find_entry_raise_fault) (simp add: raise_fault_def)
next
  case (Some e)
  then have "find_entry cfg (upd_entry cfg i f rt) i = Some (f e)"
    by (simp add: find_entry_upd_entry assms)
  with Some show ?thesis by (simp add: upd_entry_def deref_def)
qed

lemma fresh_entry:
  assumes "runtime_ok cfg rt" and "find_entry cfg rt i = Some e" and "\<not> e_initialized e"
  shows "e_state e = STATE_RESERVED" "idle (sview cfg rt i)" "no_tcp_writes e" "\<not> e_is_udp e"
    "e_queued_bytes e = 0"
proof -
  have base: "entry_base i e (sview cfg rt i)"
    using runtime_ok_entry [OF assms(1,2)] by (simp add: entry_ok_def)
  show "e_state e = STATE_RESERVED" and idle: "idle (sview cfg rt i)" and no: "no_tcp_writes e"
    and "\<not> e_is_udp e"
    using entry_baseD(1) [OF base] assms(3) by auto
  show "e_queued_bytes e = 0"
    using entry_baseD(6) [OF base] idle no by (simp add: pending_bytes_def idle_def no_tcp_writes_def)
qed

text \<open>
  The entry keeps its identity and has no writes: what initialising a reserved entry
  does, whatever the handler.
\<close>

definition initializes :: "(entry \<Rightarrow> entry) \<Rightarrow> bool" where
  "initializes f \<longleftrightarrow> (\<forall>e. e_id (f e) = e_id e \<and> e_initialized (f e) \<and> e_high (f e) = e_high e \<and>
     e_low (f e) = e_low e \<and> e_writing (f e) = e_writing e \<and>
     e_queued_bytes (f e) = e_queued_bytes e \<and> e_pump_pending (f e) = e_pump_pending e \<and>
     e_close_requested (f e) = e_close_requested e)"

lemma ok_reject_new:
  assumes ok: "runtime_ok cfg rt" and e: "find_entry cfg rt i = Some e"
    and ni: "\<not> e_initialized e" and f: "initializes f"
  shows "runtime_ok cfg (reject_entry cfg env i err (upd_entry cfg i f rt))" (is "runtime_ok cfg ?rt")
proof (rule ok_one_socket [OF ok e])
  note I = f [unfolded initializes_def, rule_format]
  have id: "\<And>e. e_id (f e) = e_id e" by (simp add: I)
  note fr = fresh_entry [OF ok e ni] and cl = closing_iff [OF runtime_ok_but [OF ok e] e]
  have nin: "H_socket i \<notin> set (l_closing (r_loop rt))" using cl fr(1) by simp
  show "find_entry cfg ?rt i = Some ((f e)\<lparr>e_state := STATE_CLOSING\<rparr>)"
    using e by (simp add: step_defs frame_simps id)
  show "entry_ok i ((f e)\<lparr>e_state := STATE_CLOSING\<rparr>) (sview cfg ?rt i)"
    using e fr nin by (simp add: step_defs frame_simps view_defs I)
  show "r_fault ?rt = None" using e nin runtime_ok_fault [OF ok] by (simp add: step_defs frame_simps id)
qed (use e f fresh_entry [OF ok e ni] in \<open>auto simp: step_defs frame_simps sview_def initializes_def\<close>)

lemma ok_discard:
  assumes ok: "runtime_ok cfg rt" and e: "find_entry cfg rt i = Some e"
    and ni: "\<not> e_initialized e" and id: "\<And>e. e_id (f e) = e_id e"
  shows "runtime_ok cfg (discard_uninitialized_entry cfg i
    (push_event env ty j opq v (upd_entry cfg i f rt)))" (is "runtime_ok cfg ?rt")
proof (rule ok_removed [OF ok e])
  let ?mid = "push_event env ty j opq v (upd_entry cfg i f rt)"
  have "find_entry cfg ?mid i = Some (f e)" using e by (simp add: frame_simps id)
  from globals_remove_entry [OF this] show "globals ?rt = removed_globals cfg i (globals rt)"
    unfolding discard_uninitialized_entry_def by (simp only: frame_simps id)
  show "idle (sview cfg ?rt i)"
    using fresh_entry [OF ok e ni]
    by (simp add: discard_uninitialized_entry_def frame_simps sview_def idle_def)
qed (use e runtime_ok_fault [OF ok] in
    \<open>auto simp: discard_uninitialized_entry_def frame_simps sview_def id\<close>)

lemma upd_entry_id: "find_entry cfg rt i = Some e \<Longrightarrow> upd_entry cfg i (\<lambda>e. e) rt = rt"
  using find_entry_slot [of cfg rt i e] by (simp add: upd_entry_def deref_def fun_upd_idem)

lemmas ok_discard_plain = ok_discard [where f = "\<lambda>e. e"]


lemma ok_discard_push:
  assumes "runtime_ok cfg rt" and "find_entry cfg rt i = Some e" and "\<not> e_initialized e"
  shows "runtime_ok cfg (discard_uninitialized_entry cfg i (push_event env ty j opq v rt))"
  using ok_discard_plain [OF assms] by (simp add: upd_entry_id [OF assms(2)])

lemma ok_process_connect:
  assumes ok: "runtime_ok cfg rt"
  shows "runtime_ok cfg (process_connect cfg env c rt)"
proof (cases "find_entry cfg rt (c_id c)")
  case None
  with ok show ?thesis by (simp add: process_connect_def)
next
  case (Some e)
  let ?i = "c_id c" and ?f = "\<lambda>e. e\<lparr>e_initialized := True, e_state := STATE_CONNECTING\<rparr>"
  have base: "entry_base ?i e (sview cfg rt ?i)"
    using runtime_ok_entry [OF ok Some] by (simp add: entry_ok_def)
  show ?thesis
  proof (cases "e_state e = STATE_RESERVED")
    case True
    then have ni: "\<not> e_initialized e" using entry_baseD(2) [OF base] by blast
    let ?rt = "upd_loop (\<lambda>l. l\<lparr>l_connects := l_connects l @ [?i]\<rparr>) (upd_entry cfg ?i ?f rt)"
    have upd: "set_entry_state cfg ?i STATE_CONNECTING
        (upd_entry cfg ?i (\<lambda>e. e\<lparr>e_initialized := True\<rparr>) rt) = upd_entry cfg ?i ?f rt"
      by (simp add: set_entry_state_def upd_entry_upd_entry)
    have "runtime_ok cfg ?rt"
    proof (rule ok_one_socket [OF ok Some])
      show "find_entry cfg ?rt ?i = Some (?f e)" using Some by (simp add: frame_simps)
      show "entry_ok ?i (?f e) (sview cfg ?rt ?i)"
        using Some fresh_entry [OF ok Some ni] by (simp add: frame_simps view_defs)
    qed (use Some True runtime_ok_fault [OF ok] in \<open>auto simp: frame_simps sview_def\<close>)
    moreover have "initializes ?f" by (simp add: initializes_def)
    note ok_reject_new [OF ok Some ni this]
    ultimately show ?thesis
      using ok_discard_push [OF ok Some ni]
      by (simp add: process_connect_def Some True Let_def upd)
  next
    case False
    with ok Some show ?thesis by (simp add: process_connect_def)
  qed
qed

lemma ok_process_listen:
  assumes ok: "runtime_ok cfg rt"
  shows "runtime_ok cfg (process_listen cfg env c rt)"
proof (cases "find_entry cfg rt (c_id c)")
  case None
  with ok show ?thesis by (simp add: process_listen_def)
next
  case (Some e)
  let ?i = "c_id c" and ?f = "\<lambda>e. e\<lparr>e_state := STATE_LISTEN_PENDING, e_initialized := True\<rparr>"
  have base: "entry_base ?i e (sview cfg rt ?i)"
    using runtime_ok_entry [OF ok Some] by (simp add: entry_ok_def)
  show ?thesis
  proof (cases "e_state e = STATE_RESERVED")
    case True
    then have ni: "\<not> e_initialized e" using entry_baseD(2) [OF base] by blast
    let ?rt = "set_entry_state cfg ?i STATE_LISTENING
      (upd_loop (\<lambda>l. l\<lparr>l_listening := (l_listening l)(?i := True)\<rparr>) (upd_entry cfg ?i ?f rt))"
    let ?e = "e\<lparr>e_state := STATE_LISTENING, e_initialized := True\<rparr>"
    have upd: "upd_entry cfg ?i (\<lambda>e. e\<lparr>e_initialized := True\<rparr>)
        (set_entry_state cfg ?i STATE_LISTEN_PENDING rt) = upd_entry cfg ?i ?f rt"
      by (simp add: set_entry_state_def upd_entry_upd_entry)
    have find: "find_entry cfg ?rt ?i = Some ?e"
      using Some by (simp add: frame_simps set_entry_state_def)
    have okrt: "runtime_ok cfg ?rt"
    proof (rule ok_one_socket [OF ok Some _ _ _ find])
      show "entry_ok ?i ?e (sview cfg ?rt ?i)"
        using Some fresh_entry [OF ok Some ni] by (simp add: frame_simps view_defs set_entry_state_def)
    qed (use Some True runtime_ok_fault [OF ok] in \<open>auto simp: frame_simps sview_def set_entry_state_def\<close>)
    have "initializes ?f" by (simp add: initializes_def)
    note rej = ok_reject_new [OF ok Some ni this]
    have dis: "runtime_ok cfg (discard_uninitialized_entry cfg ?i (push_event env ty j opq v
        (set_entry_state cfg ?i STATE_LISTEN_PENDING rt)))" for ty j opq v
      unfolding set_entry_state_def by (rule ok_discard [OF ok Some ni]) simp
    show ?thesis
      using ok_cache_tcp_name [OF okrt find] rej dis
      by (simp add: process_listen_def Some True Let_def upd)
  next
    case False
    with ok Some show ?thesis by (simp add: process_listen_def)
  qed
qed


lemma ok_process_bind:
  assumes ok: "runtime_ok cfg rt"
  shows "runtime_ok cfg (process_bind cfg env c rt)"
proof (cases "find_entry cfg rt (c_id c)")
  case None
  with ok show ?thesis by (simp add: process_bind_def)
next
  case (Some e)
  let ?i = "c_id c" and ?f = "\<lambda>e. e\<lparr>e_initialized := True\<rparr>"
  have base: "entry_base ?i e (sview cfg rt ?i)"
    using runtime_ok_entry [OF ok Some] by (simp add: entry_ok_def)
  show ?thesis
  proof (cases "e_state e = STATE_RESERVED")
    case True
    then have ni: "\<not> e_initialized e" using entry_baseD(2) [OF base] by blast
    let ?rt = "set_entry_state cfg ?i STATE_CONNECTED (start_reading cfg env ?i (upd_entry cfg ?i ?f rt))"
    let ?e = "e\<lparr>e_initialized := True, e_reading := True, e_state := STATE_CONNECTED\<rparr>"
    have "runtime_ok cfg ?rt \<and> find_entry cfg ?rt ?i = Some ?e" if rs: "en_read_start env = UV_OK"
    proof
      show find: "find_entry cfg ?rt ?i = Some ?e"
        using Some rs by (simp add: step_defs frame_simps)
      show "runtime_ok cfg ?rt"
      proof (rule ok_one_socket [OF ok Some _ _ _ find])
        show "entry_ok ?i ?e (sview cfg ?rt ?i)"
          using Some rs fresh_entry [OF ok Some ni] by (simp add: step_defs frame_simps view_defs)
      qed (use Some True rs runtime_ok_fault [OF ok] in \<open>auto simp: step_defs frame_simps sview_def\<close>)
    qed
    then have opened: "en_read_start env = UV_OK \<Longrightarrow> runtime_ok cfg (cache_tcp_name cfg env ?i ?rt)"
      using ok_cache_tcp_name by blast
    have "initializes ?f" by (simp add: initializes_def)
    note rej = ok_reject_new [OF ok Some ni this]
    show ?thesis
      using opened rej ok_discard_push [OF ok Some ni] ok
      by (simp add: process_bind_def Some True Let_def)
  next
    case False
    with ok Some show ?thesis by (simp add: process_bind_def)
  qed
qed

lemma ok_process_udp:
  assumes ok: "runtime_ok cfg rt"
  shows "runtime_ok cfg (process_udp cfg env c rt)"
proof (cases "find_entry cfg rt (c_id c)")
  case None
  with ok show ?thesis by (simp add: process_udp_def)
next
  case (Some e)
  let ?i = "c_id c" and ?f = "\<lambda>e. e\<lparr>e_is_udp := True, e_initialized := True\<rparr>"
  have base: "entry_base ?i e (sview cfg rt ?i)"
    using runtime_ok_entry [OF ok Some] by (simp add: entry_ok_def)
  show ?thesis
  proof (cases "e_state e = STATE_RESERVED")
    case True
    then have ni: "\<not> e_initialized e" using entry_baseD(2) [OF base] by blast
    have upd: "upd_entry cfg ?i (\<lambda>e. e\<lparr>e_initialized := True\<rparr>)
        (upd_entry cfg ?i (\<lambda>e. e\<lparr>e_is_udp := True\<rparr>) rt) = upd_entry cfg ?i ?f rt"
      by (simp add: upd_entry_upd_entry)
    let ?rt = "set_entry_state cfg ?i STATE_UDP (upd_loop
      (\<lambda>l. l\<lparr>l_receiving := (l_receiving l)(?i := True)\<rparr>) (upd_entry cfg ?i ?f rt))"
    let ?e = "e\<lparr>e_is_udp := True, e_initialized := True, e_state := STATE_UDP\<rparr>"
    have "runtime_ok cfg ?rt"
    proof (rule ok_one_socket [OF ok Some])
      show "find_entry cfg ?rt ?i = Some ?e" using Some by (simp add: step_defs frame_simps)
      show "entry_ok ?i ?e (sview cfg ?rt ?i)"
        using Some fresh_entry [OF ok Some ni] by (simp add: step_defs frame_simps view_defs)
    qed (use Some True runtime_ok_fault [OF ok] in \<open>auto simp: step_defs frame_simps sview_def\<close>)
    moreover have "runtime_ok cfg (discard_uninitialized_entry cfg ?i (push_event env ty j opq v
        (upd_entry cfg ?i (\<lambda>e. e\<lparr>e_is_udp := True\<rparr>) rt)))" for ty j opq v
      by (rule ok_discard [OF ok Some ni]) simp
    moreover have "initializes ?f" by (simp add: initializes_def)
    note ok_reject_new [OF ok Some ni this]
    ultimately show ?thesis
      using ok_discard_push [OF ok Some ni]
      by (simp add: process_udp_def Some True Let_def upd)
  next
    case False
    with ok Some show ?thesis by (simp add: process_udp_def)
  qed
qed

section \<open>Reserving an entry\<close>

definition reserved_entry :: "sock_id \<Rightarrow> uintptr \<Rightarrow> entry" where
  "reserved_entry i opq =
     entry0\<lparr>e_state := STATE_RESERVED, e_id := i, e_external_fd := - 1, e_opaque := opq\<rparr>"

text \<open>The runtime after a successful reservation in slot \<open>s\<close>.\<close>

definition reserved_in :: "build_config \<Rightarrow> uintptr \<Rightarrow> u16 \<Rightarrow> u32 \<Rightarrow> runtime \<Rightarrow> runtime" where
  "reserved_in cfg opq s k rt =
     (let g = skyuv_socket_id_next_generation (r_generations rt s)
      in rt\<lparr>r_next_slot := k, r_generations := (r_generations rt)(s := g),
            r_slots := (r_slots rt)(s \<mapsto> reserved_entry (skyuv_socket_id_make cfg s g) opq),
            r_entry_count := r_entry_count rt + 1\<rparr>)"

lemma slot_of_next: "ucast (n AND (SKYUV_SOCKET_SLOT_COUNT cfg - 1)) = skyuv_socket_id_slot cfg n"
  by (simp add: skyuv_socket_id_slot_def)

lemma reserve_loop_cases:
  assumes "cfg_ok cfg" and "reserve_loop cfg alloc opq n rt = (r, i, rt')"
  shows "(r = SKYUV_OK \<and> alloc \<and> (\<exists>s k. r_slots rt s = None \<and> valid_slot cfg s \<and>
        i = skyuv_socket_id_make cfg s (skyuv_socket_id_next_generation (r_generations rt s)) \<and>
        rt' = reserved_in cfg opq s k rt)) \<or>
    (r = SKYUV_ERROR_OUT_OF_MEMORY \<and> (\<exists>k. rt' = rt\<lparr>r_next_slot := k\<rparr>))"
  using assms(2)
proof (induction n arbitrary: rt)
  case 0
  then show ?case by auto (metis runtime.surjective runtime.update_convs(8))
next
  case (Suc n)
  let ?s = "skyuv_socket_id_slot cfg (r_next_slot rt)"
  let ?rt1 = "rt\<lparr>r_next_slot := r_next_slot rt + 1\<rparr>"
  show ?case
  proof (cases "r_slots rt ?s = None")
    case True
    with Suc.prems slot_valid [OF assms(1), of "r_next_slot rt"] show ?thesis
      by (auto simp: slot_of_next Let_def reserved_in_def reserved_entry_def split: if_splits)
  next
    case False
    with Suc.prems have "reserve_loop cfg alloc opq n ?rt1 = (r, i, rt')"
      by (simp add: slot_of_next Let_def)
    from Suc.IH [OF this] show ?thesis by (simp add: reserved_in_def Let_def)
  qed
qed

lemma reserved_in_simps [frame_simps]:
  "r_loop (reserved_in cfg opq s k rt) = r_loop rt"
  "r_pump (reserved_in cfg opq s k rt) = r_pump rt"
  "r_fault (reserved_in cfg opq s k rt) = r_fault rt"
  "r_exiting (reserved_in cfg opq s k rt) = r_exiting rt"
  "r_commands (reserved_in cfg opq s k rt) = r_commands rt"
  by (simp_all add: reserved_in_def Let_def)

lemma find_entry_reserved_in:
  assumes "cfg_ok cfg" and "valid_slot cfg s" and "r_slots rt s = None"
  defines "i \<equiv> skyuv_socket_id_make cfg s (skyuv_socket_id_next_generation (r_generations rt s))"
  shows "find_entry cfg (reserved_in cfg opq s k rt) j =
      (if j = i then Some (reserved_entry i opq) else find_entry cfg rt j)"
    and "find_entry cfg rt i = None"
proof -
  have slot: "skyuv_socket_id_slot cfg i = s"
    unfolding i_def by (rule id_slot_make [OF assms(1,2) next_generation_valid])
  then show "find_entry cfg rt i = None" using assms(3) by (simp add: find_entry_def)
  have "e_id (reserved_entry i opq) = i" by (simp add: reserved_entry_def)
  then show "find_entry cfg (reserved_in cfg opq s k rt) j =
      (if j = i then Some (reserved_entry i opq) else find_entry cfg rt j)"
    using slot assms(3) by (auto simp: reserved_in_def Let_def find_entry_def i_def)
qed

lemma card_slots_insert:
  fixes m :: "u16 \<Rightarrow> 'a option"
  assumes "m s = None"
  shows "card {t. (m(s \<mapsto> x)) t \<noteq> None} = Suc (card {t. m t \<noteq> None})"
proof -
  have "{t. (m(s \<mapsto> x)) t \<noteq> None} = insert s {t. m t \<noteq> None}" by auto
  then show ?thesis using assms by (simp only: card_insert_disjoint finite) simp
qed

lemma globals_reserved_in:
  "globals (reserved_in cfg opq s k rt) =
     (let gen = skyuv_socket_id_next_generation (r_generations rt s)
      in (globals rt)\<lparr>g_generations := (r_generations rt)(s := gen),
           g_ids := (ids_of rt)(s \<mapsto> skyuv_socket_id_make cfg s gen), g_count := r_entry_count rt + 1\<rparr>)"
  by (auto simp: globals_def reserved_in_def Let_def ids_of_def other_closing_def reserved_entry_def)

lemma reserved_entry_ok: "idle v \<Longrightarrow> entry_ok i (reserved_entry i opq) v"
  by (simp add: view_defs reserved_entry_def entry0_def)

lemma table_ok_insert:
  assumes "table_ok cfg g" and "valid_slot cfg s" and "g_ids g s = None" and "valid_generation gen"
  shows "table_ok cfg (g\<lparr>g_generations := (g_generations g)(s := gen),
    g_ids := (g_ids g)(s \<mapsto> skyuv_socket_id_make cfg s gen), g_count := g_count g + 1\<rparr>)"
  using assms card_slots_insert [of "g_ids g" s "skyuv_socket_id_make cfg s gen", OF assms(3)]
  by (auto simp: table_ok_def)

lemma ok_reserved_in:
  assumes cfg: "cfg_ok cfg" and ok: "runtime_ok cfg rt" and ex: "\<not> r_exiting rt"
    and vs: "valid_slot cfg s" and none: "r_slots rt s = None"
  shows "runtime_ok cfg (reserved_in cfg opq s k rt)" (is "runtime_ok cfg ?rt")
proof -
  let ?i = "skyuv_socket_id_make cfg s (skyuv_socket_id_next_generation (r_generations rt s))"
  note F = find_entry_reserved_in [OF cfg vs none]
  have "view_ok (r_exiting rt) ?i (sview cfg rt ?i)" using ok by (simp add: runtime_ok_def)
  then have idle: "idle (sview cfg rt ?i)" using F(2) by (simp add: view_ok_def)
  have views: "view_ok False j (sview cfg ?rt j)" for j
  proof (cases "j = ?i")
    case True
    have "sview cfg ?rt ?i = (sview cfg rt ?i)\<lparr>v_entry := Some (reserved_entry ?i opq)\<rparr>"
      by (simp add: sview_def frame_simps F)
    with True reserved_entry_ok [of "sview cfg ?rt ?i"] idle show ?thesis
      by (simp add: view_ok_def idle_def F)
  next
    case False
    then have "sview cfg ?rt j = sview cfg rt j" by (simp add: sview_def frame_simps F)
    with ok ex show ?thesis by (simp add: runtime_ok_def)
  qed
  have "table_ok cfg (globals ?rt)"
    using table_ok_insert [of cfg "globals rt" s, OF _ vs _ next_generation_valid] ok none
    by (simp add: runtime_ok_def globals_reserved_in Let_def) (simp add: globals_def ids_of_def)
  moreover have "exit_ok (globals ?rt)"
    using ok ex by (simp add: runtime_ok_def exit_ok_def globals_reserved_in Let_def) (simp add: globals_def)
  ultimately show ?thesis
    using ok ex views by (simp add: runtime_ok_def frame_simps)
qed


section \<open>Callbacks\<close>

lemma ok_connect_completed:
  assumes ok: "runtime_ok cfg rt" and i: "i \<in> set (l_connects (r_loop rt))"
  shows "runtime_ok cfg (connect_completed cfg env i status (uv_connect_done i rt))"
proof -
  let ?v = "sview cfg rt i" and ?mid = "uv_connect_done i rt"
  have pos: "v_connects ?v \<noteq> 0" using i by (simp add: sview_def count_list_0_iff)
  have "view_ok (r_exiting rt) i ?v" using ok by (simp add: runtime_ok_def)
  then obtain e where e: "find_entry cfg rt i = Some e"
    using pos by (cases "find_entry cfg rt i") (auto simp: view_ok_def idle_def)
  have base: "entry_base i e ?v" and pr: "progress e"
    using runtime_ok_entry [OF ok e] by (simp_all add: entry_ok_def)
  note D = entry_baseD [OF base] and cl = closing_iff [OF runtime_ok_but [OF ok e] e]
  have one: "v_connects ?v = 1" using D(10) pos by simp
  have init: "e_initialized e" using D(1) pos by (auto simp: idle_def)
  have tcp: "\<not> e_is_udp e" using D(8) pos by auto
  have e_mid: "find_entry cfg ?mid i = Some e"
    using e by (simp add: uv_connect_done_def frame_simps)
  have v_mid: "sview cfg ?mid i = ?v\<lparr>v_connects := 0\<rparr>"
    using one e by (simp add: sview_def uv_connect_done_def frame_simps count_list_remove1)
  have others: "j \<noteq> i \<Longrightarrow> sview cfg ?mid j = sview cfg rt j" for j
    by (simp add: sview_def uv_connect_done_def frame_simps count_list_remove1)
  have g_mid: "globals ?mid = globals rt" by (simp add: uv_connect_done_def frame_simps)
  have f_mid: "r_fault ?mid = None"
    using runtime_ok_fault [OF ok] by (simp add: uv_connect_done_def frame_simps)
  show ?thesis
  proof (cases "e_state e = STATE_CLOSING")
    case True
    have "runtime_ok cfg ?mid"
    proof (rule ok_one_socket [OF ok e f_mid g_mid others e_mid])
      show "entry_ok i e (sview cfg ?mid i)"
        using D True init tcp unfolding v_mid entry_ok_def entry_base_def
        by (simp add: pending_bytes_def progress_def)
    qed simp
    with True e_mid show ?thesis by (simp add: connect_completed_def frame_simps)
  next
    case False
    then have st: "e_state e = STATE_CONNECTING" using D(11) one by blast
    have nt: "no_tcp_writes e" using D(12) st False by (auto simp: connected_state_def)
    have nin: "H_socket i \<notin> set (l_closing (r_loop ?mid))"
      using cl False by (simp add: uv_connect_done_def frame_simps)
    have rej: "runtime_ok cfg (reject_entry cfg env i err ?mid)" (is "runtime_ok cfg ?rt") for err
    proof (rule ok_one_socket [OF ok e])
      let ?e = "e\<lparr>e_state := STATE_CLOSING\<rparr>"
      show "find_entry cfg ?rt i = Some ?e" using e_mid by (simp add: step_defs frame_simps)
      have "sview cfg ?rt i = ?v\<lparr>v_connects := 0, v_closing := 1, v_entry := Some ?e\<rparr>"
        using e one cl D(3) st
        by (simp add: step_defs uv_connect_done_def frame_simps sview_def count_list_remove1)
      then show "entry_ok i ?e (sview cfg ?rt i)"
        using D init tcp st nt by (simp add: entry_ok_def entry_base_def pending_bytes_def
            progress_def no_tcp_writes_def)
      show "r_fault ?rt = None" using e_mid nin f_mid by (simp add: step_defs frame_simps)
      show "sview cfg ?rt j = sview cfg rt j" if "j \<noteq> i" for j
        using that e by (simp add: step_defs uv_connect_done_def frame_simps sview_def count_list_remove1)
    qed (use e_mid g_mid in \<open>simp_all add: step_defs frame_simps\<close>)
    have opened: "runtime_ok cfg (cache_tcp_name cfg env i
        (set_entry_state cfg i STATE_CONNECTED (start_reading cfg env i ?mid)))"
      if rs: "en_read_start env = UV_OK"
    proof (rule ok_cache_tcp_name)
      let ?e = "e\<lparr>e_reading := True, e_state := STATE_CONNECTED\<rparr>"
      let ?rt = "set_entry_state cfg i STATE_CONNECTED (start_reading cfg env i ?mid)"
      show find: "find_entry cfg ?rt i = Some ?e" using e_mid rs by (simp add: step_defs frame_simps)
      show "runtime_ok cfg ?rt"
      proof (rule ok_one_socket [OF ok e _ _ _ find])
        have "sview cfg ?rt i = ?v\<lparr>v_connects := 0, v_reading := True, v_entry := Some ?e\<rparr>"
          using e one rs
          by (simp add: step_defs uv_connect_done_def frame_simps sview_def count_list_remove1)
        then show "entry_ok i ?e (sview cfg ?rt i)"
          using D init tcp st nt by (simp add: entry_ok_def entry_base_def pending_bytes_def
              progress_def no_tcp_writes_def)
        show "sview cfg ?rt j = sview cfg rt j" if "j \<noteq> i" for j
          using that rs
          by (simp add: step_defs uv_connect_done_def frame_simps sview_def count_list_remove1)
      qed (use e_mid g_mid f_mid rs False in \<open>simp_all add: step_defs frame_simps\<close>)
    qed
    show ?thesis
      using rej opened False e_mid by (simp add: connect_completed_def frame_simps Let_def)
  qed
qed

lemma ok_push_data_event:
  assumes "runtime_ok cfg rt" and "find_entry cfg rt i = Some e"
  shows "runtime_ok cfg (push_data_event cfg env i base bs rt)"
  using assms ok_upd_core [OF assms] by (simp add: push_data_event_def frame_simps core_def)

lemma reading_socket:
  assumes ok: "runtime_ok cfg rt" and "l_reading (r_loop rt) i"
    and "\<not> uv_is_closing rt (H_socket i)"
  obtains e where "find_entry cfg rt i = Some e" and "e_initialized e" and "\<not> e_is_udp e"
    and "e_state e = STATE_CONNECTED \<or> e_state e = STATE_HALFCLOSE_READ"
proof -
  let ?v = "sview cfg rt i"
  have rd: "v_reading ?v" using assms(2) by (simp add: sview_def)
  have "view_ok (r_exiting rt) i ?v" using ok by (simp add: runtime_ok_def)
  then obtain e where e: "find_entry cfg rt i = Some e"
    using rd by (cases "find_entry cfg rt i") (auto simp: view_ok_def idle_def)
  have base: "entry_base i e ?v" using runtime_ok_entry [OF ok e] by (simp add: entry_ok_def)
  have "e_state e \<noteq> STATE_CLOSING"
    using closing_iff [OF runtime_ok_but [OF ok e] e] assms(3) by (simp add: uv_is_closing_def)
  with entry_baseD(1,13) [OF base] rd e that show ?thesis by (auto simp: idle_def)
qed

lemma ok_read_completed:
  assumes ok: "runtime_ok cfg rt" and "l_reading (r_loop rt) i"
    and "\<not> uv_is_closing rt (H_socket i)"
  shows "runtime_ok cfg (read_completed cfg env i nread base rt)"
proof -
  obtain e where e: "find_entry cfg rt i = Some e" and init: "e_initialized e" and tcp: "\<not> e_is_udp e"
    and st: "e_state e = STATE_CONNECTED \<or> e_state e = STATE_HALFCLOSE_READ"
    using reading_socket [OF assms] by blast
  let ?mid = "free_buffer base rt"
  have ok': "runtime_ok cfg ?mid" using ok by simp
  have e': "find_entry cfg ?mid i = Some e" using e by (simp add: frame_simps)
  have eof: "runtime_ok cfg (set_entry_state cfg i STATE_HALFCLOSE_READ
        (push_event env EVENT_CLOSE j opq v (upd_entry cfg i (\<lambda>e. e\<lparr>e_reading := False\<rparr>) ?mid)))"
    (is "runtime_ok cfg ?rt") if "e_state e = STATE_CONNECTED" for j opq v
  proof (rule ok_one_socket [OF ok' e'])
    let ?e = "e\<lparr>e_reading := False, e_state := STATE_HALFCLOSE_READ\<rparr>"
    show "find_entry cfg ?rt i = Some ?e" using e' by (simp add: step_defs frame_simps)
    have "sview cfg ?rt i = (sview cfg ?mid i)\<lparr>v_entry := Some ?e\<rparr>"
      using e' by (simp add: sview_def step_defs frame_simps)
    moreover assume "entry_ok i e (sview cfg ?mid i)"
    ultimately show "entry_ok i ?e (sview cfg ?rt i)"
      using that init tcp by (simp add: entry_ok_def entry_base_def pending_bytes_def progress_def
          no_tcp_writes_def connected_state_def)
  qed (use e' that runtime_ok_fault [OF ok'] in \<open>simp_all add: sview_def step_defs frame_simps\<close>)
  show ?thesis
  proof (cases nread)
    case (Read_bytes bs)
    then show ?thesis using ok ok_push_data_event [OF ok e] by (simp add: read_completed_def)
  next
    case (Read_error err)
    then show ?thesis
      using eof ok' e' ok_finish_entry [OF ok' e' e' init] st
      by (auto simp: read_completed_def Let_def deref_Some [OF e'])
  qed
qed

lemma ok_udp_received:
  assumes ok: "runtime_ok cfg rt" and "l_receiving (r_loop rt) i"
  shows "runtime_ok cfg (udp_received cfg env i nread base addr rt)"
proof -
  let ?v = "sview cfg rt i" and ?mid = "free_buffer base rt"
  have rc: "v_receiving ?v" using assms(2) by (simp add: sview_def)
  have "view_ok (r_exiting rt) i ?v" using ok by (simp add: runtime_ok_def)
  then obtain e where e: "find_entry cfg rt i = Some e"
    using rc by (cases "find_entry cfg rt i") (auto simp: view_ok_def idle_def)
  have base: "entry_base i e ?v" using runtime_ok_entry [OF ok e] by (simp add: entry_ok_def)
  have init: "e_initialized e" using entry_baseD(1) [OF base] rc by (auto simp: idle_def)
  have ok': "runtime_ok cfg ?mid" using ok by simp
  have e': "find_entry cfg ?mid i = Some e" using e by (simp add: frame_simps)
  show ?thesis
    using ok ok_finish_entry [OF ok' e' e' init] ok_upd_core [OF ok' e']
    by (simp add: udp_received_def Let_def deref_Some [OF e'] core_def
        split: read_result.split option.split)
qed

lemma ok_udp_write_completed:
  assumes ok: "runtime_ok cfg rt" and w: "w \<in> set (l_udp_sends (r_loop rt))"
  shows "runtime_ok cfg (udp_write_completed cfg env w status (uv_udp_send_done w rt))"
proof -
  let ?i = "w_entry w" and ?mid = "uv_udp_send_done w rt"
  let ?v = "sview cfg rt ?i"
  have us: "v_udps ?v \<noteq> []" using w by (auto simp: sview_def filter_empty_conv)
  have "view_ok (r_exiting rt) ?i ?v" using ok by (simp add: runtime_ok_def)
  then obtain e where e: "find_entry cfg rt ?i = Some e"
    using us by (cases "find_entry cfg rt ?i") (auto simp: view_ok_def idle_def)
  have base: "entry_base ?i e ?v" using runtime_ok_entry [OF ok e] by (simp add: entry_ok_def)
  note D = entry_baseD [OF base]
  have init: "e_initialized e" and udp: "e_is_udp e" using D(1,9) us by (auto simp: idle_def)
  have nc: "e_state e \<noteq> STATE_CONNECTING" using D(8) udp by auto
  have find: "find_entry cfg ?mid ?i = Some e"
    using e by (simp add: uv_udp_send_done_def frame_simps)
  have "runtime_ok cfg ?mid"
  proof (rule ok_one_socket [OF ok e _ _ _ find])
    assume "entry_ok ?i e ?v"
    then show "entry_ok ?i e (sview cfg ?mid ?i)"
      using init udp nc unfolding entry_ok_def entry_base_def
      by (simp add: sview_def uv_udp_send_done_def frame_simps pending_bytes_def)
  qed (use runtime_ok_fault [OF ok] in
      \<open>auto simp: sview_def uv_udp_send_done_def frame_simps filter_remove1_other\<close>)
  then have "runtime_ok cfg (if b then push_event env EVENT_ERROR j opq v ?mid else ?mid)" for b j opq v
    by simp
  moreover have "find_entry cfg (if b then push_event env EVENT_ERROR j opq v ?mid else ?mid) ?i = Some e"
    for b j opq v
    using find by (simp add: frame_simps)
  ultimately show ?thesis
    unfolding udp_write_completed_def deref_Some [OF find] Let_def
    by (simp only: runtime_ok_neutral) (rule ok_upd_core; simp add: core_def)
qed


section \<open>Closing from a command, and the close callback\<close>

lemma base_pending_nonempty:
  assumes "entry_base i e v" and "e_queued_bytes e > 0"
  shows "e_writing e \<or> e_high e \<noteq> [] \<or> e_low e \<noteq> []"
  using entry_baseD(4,6) [OF assms(1)] assms(2) by (auto simp: pending_bytes_def split: if_splits)

lemma but_request_close:
  assumes ok: "runtime_ok cfg rt" and e: "find_entry cfg rt i = Some e"
    and nc: "e_state e \<noteq> STATE_CLOSING" and q: "e_queued_bytes e > 0"
  shows "runtime_but cfg i (upd_entry cfg i (\<lambda>e. e\<lparr>e_reading := False, e_close_requested := True\<rparr>)
    (uv_read_stop env i rt))" (is "runtime_but cfg i ?rt")
proof -
  let ?e = "e\<lparr>e_reading := False, e_close_requested := True\<rparr>" and ?v = "sview cfg rt i"
  have base: "entry_base i e ?v" using runtime_ok_entry [OF ok e] by (simp add: entry_ok_def)
  have nt: "\<not> no_tcp_writes e"
    using base_pending_nonempty [OF base q] by (auto simp: no_tcp_writes_def)
  note D = entry_baseD [OF base] and B = base_writing [OF base nt nc]
  have find: "find_entry cfg ?rt i = Some ?e"
    using e by (simp add: uv_read_stop_def frame_simps)
  have "sview cfg ?rt i = ?v\<lparr>v_reading := v_reading ?v \<and> en_read_stop env \<noteq> UV_OK, v_entry := Some ?e\<rparr>"
    using e by (simp add: sview_def uv_read_stop_def frame_simps)
  moreover have "entry_base i ?e (?v\<lparr>v_reading := v_reading ?v \<and> en_read_stop env \<noteq> UV_OK\<rparr>)"
    unfolding entry_base_def using D B nc by (simp add: pending_bytes_def)
  ultimately have "entry_base i ?e (sview cfg ?rt i)" by simp
  then show ?thesis
    using runtime_ok_fault [OF ok] e
    by (intro but_one_socket [OF runtime_ok_but [OF ok e] e _ _ _ find])
       (auto simp: sview_def uv_read_stop_def frame_simps)
qed

lemma ok_process_close:
  assumes ok: "runtime_ok cfg rt"
  shows "runtime_ok cfg (process_close cfg env c rt)"
proof (cases "find_entry cfg rt (c_id c)")
  case None
  with ok show ?thesis by (simp add: process_close_def)
next
  case (Some e0)
  let ?i = "c_id c" and ?e = "e0\<lparr>e_opaque := c_opaque c\<rparr>"
  define rt2 where "rt2 = (if e_state e0 \<noteq> STATE_HALFCLOSE_READ
      then push_event env EVENT_CLOSE (e_id e0) (c_opaque c) (V_int 0)
             (upd_entry cfg ?i (\<lambda>e. e\<lparr>e_opaque := c_opaque c\<rparr>) rt)
      else upd_entry cfg ?i (\<lambda>e. e\<lparr>e_opaque := c_opaque c\<rparr>) rt)"
  have ok2: "runtime_ok cfg rt2"
    using ok_upd_core [OF ok Some] by (simp add: rt2_def core_def)
  have e: "find_entry cfg rt2 ?i = Some ?e" using Some by (simp add: rt2_def frame_simps)
  show ?thesis
  proof (cases "e_state e0 = STATE_CLOSING")
    case True
    with Some ok show ?thesis by (simp add: process_close_def)
  next
    case nc: False
    have dis: "\<not> e_initialized e0 \<Longrightarrow> runtime_ok cfg (discard_uninitialized_entry cfg ?i rt2)"
      using ok_discard_push [OF ok2 e, where env = "env\<lparr>en_event_alloc := \<lambda>_. False\<rparr>"]
      by (simp add: push_event_def)
    have cls: "e_initialized e0 \<Longrightarrow> runtime_ok cfg (begin_close cfg ?i rt2)"
      using ok_begin_close [OF ok2 e e] nc by simp
    have req: "runtime_ok cfg (close_after_writes cfg ?i
        (upd_entry cfg ?i (\<lambda>e. e\<lparr>e_reading := False, e_close_requested := True\<rparr>)
          (uv_read_stop env ?i rt2)))" (is "runtime_ok cfg (close_after_writes cfg ?i ?rt)")
      if q: "e_queued_bytes e0 > 0"
    proof (rule close_after_writes_result(1))
      show "runtime_but cfg ?i ?rt" using but_request_close [OF ok2 e] nc q by simp
      show "find_entry cfg ?rt ?i = Some (?e\<lparr>e_reading := False, e_close_requested := True\<rparr>)"
        using e by (simp add: uv_read_stop_def frame_simps)
    qed (use nc in simp_all)
    show ?thesis
      using dis cls req Some nc
      by (simp add: process_close_def Let_def rt2_def)
  qed
qed

lemma globals_uv_forget: "globals (uv_forget (H_socket i) rt) = globals rt"
  by (auto simp: globals_def uv_forget_def upd_loop_def ids_of_def other_closing_def
      filter_remove1_other)

text \<open>libuv runs the close callback after the callbacks of the socket's requests.\<close>

definition close_ready :: "sock_id \<Rightarrow> runtime \<Rightarrow> bool" where
  "close_ready i rt \<longleftrightarrow> uv_is_closing rt (H_socket i) \<and>
     (\<forall>w \<in> set (l_writes (r_loop rt)). w_entry w \<noteq> i) \<and>
     (\<forall>w \<in> set (l_udp_sends (r_loop rt)). w_entry w \<noteq> i) \<and> i \<notin> set (l_connects (r_loop rt))"

lemma ok_close_entry:
  assumes ok: "runtime_ok cfg rt" and cr: "close_ready i rt" and pump: "r_pump rt = []"
  shows "runtime_ok cfg (close_entry cfg i (uv_forget (H_socket i) rt))" (is "runtime_ok cfg ?rt")
proof -
  let ?v = "sview cfg rt i" and ?mid = "uv_forget (H_socket i) rt"
  have cl: "v_closing ?v \<noteq> 0" using cr is_closing_view [of rt i cfg] by (simp add: close_ready_def)
  have "view_ok (r_exiting rt) i ?v" using ok by (simp add: runtime_ok_def)
  then obtain e where e: "find_entry cfg rt i = Some e"
    using cl by (cases "find_entry cfg rt i") (auto simp: view_ok_def idle_def)
  have base: "entry_base i e ?v" using runtime_ok_entry [OF ok e] by (simp add: entry_ok_def)
  have one: "v_closing ?v = 1" using entry_baseD(3) [OF base] cl by (simp split: if_splits)
  have mid: "find_entry cfg ?mid j = find_entry cfg rt j" for j
    by (simp add: uv_forget_def frame_simps)
  have rt': "?rt = update_exit_ready (remove_entry cfg i (release_writes (e_high e @ e_low e) ?mid))"
    using e by (simp add: close_entry_def mid frame_simps)
  show ?thesis
  proof (rule ok_removed [OF ok e])
    have "find_entry cfg (release_writes (e_high e @ e_low e) ?mid) i = Some e"
      using e by (simp add: mid frame_simps)
    from globals_remove_entry [OF this] show "globals ?rt = removed_globals cfg i (globals rt)"
      unfolding rt' by (simp only: frame_simps globals_uv_forget)
    show "idle (sview cfg ?rt i)"
      unfolding rt' using cr one pump
      by (auto simp: idle_def sview_def frame_simps uv_forget_def close_ready_def filter_empty_conv
          count_list_remove1)
    show "r_fault ?rt = None"
      unfolding rt' using runtime_ok_fault [OF ok] e
      by (simp add: frame_simps uv_forget_def)
    show "find_entry cfg ?rt i = None" unfolding rt' by (simp add: frame_simps)
    show "sview cfg ?rt j = sview cfg rt j" if "j \<noteq> i" for j
      unfolding rt' using that by (auto simp: sview_def frame_simps uv_forget_def count_list_remove1)
  qed
qed

section \<open>Accepting\<close>

lemma ok_next_slot [simp]: "runtime_ok cfg (rt\<lparr>r_next_slot := k\<rparr>) = runtime_ok cfg rt"
  by (rule runtime_ok_cong)
     (simp_all add: globals_def ids_of_def fun_eq_iff other_closing_def sview_def find_entry_def)

lemma ok_discard_now:
  assumes "runtime_ok cfg rt" and "find_entry cfg rt i = Some e" and "\<not> e_initialized e"
  shows "runtime_ok cfg (discard_uninitialized_entry cfg i rt)"
  using ok_discard_push [OF assms, where env = "env\<lparr>en_event_alloc := \<lambda>_. False\<rparr>" for env]
  by (simp add: push_event_def)

lemma ok_accepted:
  assumes ok: "runtime_ok cfg rt" and e: "find_entry cfg rt i = Some e" and ni: "\<not> e_initialized e"
  shows "runtime_ok cfg (set_entry_state cfg i STATE_ACCEPTED_PAUSED
      (upd_entry cfg i (\<lambda>e. e\<lparr>e_initialized := True\<rparr>) rt))" (is "runtime_ok cfg ?rt")
proof (rule ok_one_socket [OF ok e])
  let ?e = "e\<lparr>e_initialized := True, e_state := STATE_ACCEPTED_PAUSED\<rparr>"
  show "find_entry cfg ?rt i = Some ?e" using e by (simp add: step_defs frame_simps)
  show "entry_ok i ?e (sview cfg ?rt i)"
    using e fresh_entry [OF ok e ni] by (simp add: step_defs frame_simps view_defs)
qed (use e fresh_entry(1) [OF ok e ni] runtime_ok_fault [OF ok] in
    \<open>auto simp: step_defs frame_simps sview_def\<close>)

lemma listening_socket:
  assumes ok: "runtime_ok cfg rt" and "l_listening (r_loop rt) i"
    and "\<not> uv_is_closing rt (H_socket i)"
  obtains e where "find_entry cfg rt i = Some e" and "e_state e = STATE_LISTENING"
    and "\<not> r_exiting rt"
proof -
  let ?v = "sview cfg rt i"
  have ls: "v_listening ?v" using assms(2) by (simp add: sview_def)
  have "view_ok (r_exiting rt) i ?v" using ok by (simp add: runtime_ok_def)
  then obtain e where e: "find_entry cfg rt i = Some e"
    using ls by (cases "find_entry cfg rt i") (auto simp: view_ok_def idle_def)
  have base: "entry_base i e ?v" using runtime_ok_entry [OF ok e] by (simp add: entry_ok_def)
  have "e_state e \<noteq> STATE_CLOSING"
    using closing_iff [OF runtime_ok_but [OF ok e] e] assms(3) by (simp add: uv_is_closing_def)
  with entry_baseD(15) [OF base] ls e that runtime_ok_entry(3) [OF ok e] show ?thesis by blast
qed

lemma find_cache_tcp_name_other:
  "j \<noteq> i \<Longrightarrow> find_entry cfg (cache_tcp_name cfg env i rt) j = find_entry cfg rt j"
  by (simp add: cache_tcp_name_def frame_simps split: prod.split option.split)

lemma ok_accept_connection:
  assumes cfg: "cfg_ok cfg" and ok: "runtime_ok cfg rt" and "l_listening (r_loop rt) l"
    and "\<not> uv_is_closing rt (H_socket l)"
  shows "runtime_ok cfg (accept_connection cfg env l status rt)"
proof -
  obtain le where le: "find_entry cfg rt l = Some le" and ex: "\<not> r_exiting rt"
    using listening_socket [OF assms(2-4)] by blast
  obtain r i rt1 where res: "reserve_entry cfg (en_alloc env) (e_opaque le) rt = (r, i, rt1)"
    by (cases "reserve_entry cfg (en_alloc env) (e_opaque le) rt")
  note cases = reserve_loop_cases [OF cfg res [unfolded reserve_entry_def]]
  show ?thesis
  proof (cases "r = SKYUV_OK")
    case False
    then have "runtime_ok cfg rt1" using cases ok by auto
    with False ok le res show ?thesis by (simp add: accept_connection_def frame_simps)
  next
    case True
    then obtain s k where none: "r_slots rt s = None" and vs: "valid_slot cfg s"
      and i: "i = skyuv_socket_id_make cfg s (skyuv_socket_id_next_generation (r_generations rt s))"
      and rt1: "rt1 = reserved_in cfg (e_opaque le) s k rt"
      using cases by auto
    note F = find_entry_reserved_in [OF cfg vs none, folded i]
    have ok1: "runtime_ok cfg rt1" unfolding rt1 by (rule ok_reserved_in [OF cfg ok ex vs none])
    have e1: "find_entry cfg rt1 i = Some (reserved_entry i (e_opaque le))" by (simp add: rt1 F)
    have ni: "\<not> e_initialized (reserved_entry i (e_opaque le))"
      by (simp add: reserved_entry_def entry0_def)
    have li: "l \<noteq> i" using F(2) le by auto
    let ?rt2 = "upd_entry cfg i (\<lambda>e. e\<lparr>e_initialized := True\<rparr>) rt1"
    let ?rt3 = "cache_tcp_name cfg env i (set_entry_state cfg i STATE_ACCEPTED_PAUSED ?rt2)"
    have "runtime_ok cfg ?rt3"
      using ok_cache_tcp_name [OF ok_accepted [OF ok1 e1 ni]] e1
      by (simp add: set_entry_state_def frame_simps)
    moreover have "find_entry cfg ?rt3 l = Some le"
      using li le by (simp add: find_cache_tcp_name_other set_entry_state_def frame_simps rt1 F)
    ultimately have opened: "runtime_ok cfg (upd_entry cfg l (\<lambda>e. e\<lparr>e_accept_count := e_accept_count e + 1,
        e_read_time := t\<rparr>) ?rt3)" for t
      by (rule ok_upd_core) (simp add: core_def)
    have "initializes (\<lambda>e. e\<lparr>e_initialized := True\<rparr>)" by (simp add: initializes_def)
    note rej = ok_reject_new [OF ok1 e1 ni this]
    show ?thesis
      using True opened rej ok_discard_now [OF ok1 e1 ni] ok
      by (simp add: accept_connection_def deref_Some [OF le] res Let_def)
  qed
qed

end
