(* ===== verification/Socket_Exit.thy ===== *)
theory Socket_Exit
  imports Socket_Invariant
begin

text \<open>
  \<^verbatim>\<open>process_exit\<close> preserves the invariant: it closes or discards every socket in turn,
  then closes the signal handles and the wake-up handle.
\<close>

section \<open>The walk over the slots\<close>

text \<open>
  While \<^verbatim>\<open>process_exit\<close> walks over the slots, the flag \<^verbatim>\<open>exiting\<close> is already set and some
  sockets are not yet closing. \<open>before_exit\<close> takes the flags and the command queue back,
  so that the invariant can be stated for the rest.
\<close>

definition before_exit :: "runtime \<Rightarrow> runtime" where
  "before_exit rt = rt\<lparr>r_exiting := False, r_exit_ready := False,
     r_commands := \<lparr>q_mutex = True, q_items = [], q_accepting = True\<rparr>\<rparr>"

lemma find_entry_before_exit [frame_simps]: "find_entry cfg (before_exit rt) i = find_entry cfg rt i"
  by (simp add: find_entry_def before_exit_def)

lemma before_exit_basic:
  "before_exit (raise_fault f rt) = raise_fault f (before_exit rt)"
  "before_exit (update_exit_ready rt) = update_exit_ready (before_exit rt)"
  "before_exit (uv_close h rt) = uv_close h (before_exit rt)"
  by (simp_all add: before_exit_def raise_fault_def update_exit_ready_def uv_close_def
      uv_is_closing_def upd_loop_def)

lemma before_exit_entry:
  "before_exit (upd_entry cfg i g rt) = upd_entry cfg i g (before_exit rt)"
  "before_exit (remove_entry cfg i rt) = remove_entry cfg i (before_exit rt)"
  by (cases "find_entry cfg rt i";
      simp add: upd_entry_def remove_entry_def deref_def before_exit_basic frame_simps;
      simp add: before_exit_def)+

lemma before_exit_discard:
  "before_exit (discard_uninitialized_entry cfg i rt) = discard_uninitialized_entry cfg i (before_exit rt)"
  by (simp add: discard_uninitialized_entry_def before_exit_basic before_exit_entry)

lemma before_exit_begin_close:
  "before_exit (begin_close cfg i rt) = begin_close cfg i (before_exit rt)"
  by (simp add: begin_close_def set_entry_state_def before_exit_basic before_exit_entry)

lemma before_exit_slot: "before_exit (exit_slot cfg s rt) = exit_slot cfg s (before_exit rt)"
proof -
  have "r_slots (before_exit rt) = r_slots rt" by (simp add: before_exit_def)
  moreover have "uv_is_closing (before_exit rt) h = uv_is_closing rt h" for h
    by (simp add: before_exit_def uv_is_closing_def)
  ultimately show ?thesis
    by (cases "r_slots rt s") (simp_all add: exit_slot_def before_exit_discard before_exit_begin_close)
qed

lemma before_exit_slots: "before_exit (fold (exit_slot cfg) ss rt) = fold (exit_slot cfg) ss (before_exit rt)"
  by (induction ss arbitrary: rt) (simp_all add: before_exit_slot)

text \<open>The table says which slot an entry is in.\<close>

lemma slot_entry:
  assumes "cfg_ok cfg" and "runtime_ok cfg rt" and "r_slots rt s = Some e"
  shows "find_entry cfg rt (e_id e) = Some e" and "skyuv_socket_id_slot cfg (e_id e) = s"
    and "valid_slot cfg s"
proof -
  have "g_ids (globals rt) s = Some (e_id e)" using assms(3) by (simp add: globals_def ids_of_def)
  then have "valid_slot cfg s" and "valid_generation (r_generations rt s)"
    and "e_id e = skyuv_socket_id_make cfg s (r_generations rt s)"
    using assms(2) by (auto simp: runtime_ok_def table_ok_def globals_def)
  then show "skyuv_socket_id_slot cfg (e_id e) = s" and "valid_slot cfg s"
    using id_slot_make [OF assms(1)] by simp_all
  then show "find_entry cfg rt (e_id e) = Some e" using assms(3) by (simp add: find_entry_def)
qed

lemma r_slots_discard:
  "find_entry cfg rt i = Some e \<Longrightarrow>
   r_slots (discard_uninitialized_entry cfg i rt) = (r_slots rt)(skyuv_socket_id_slot cfg i := None)"
  by (simp add: discard_uninitialized_entry_def remove_entry_def update_exit_ready_def deref_def)

lemma r_slots_begin_close:
  "find_entry cfg rt i = Some e \<Longrightarrow> r_slots (begin_close cfg i rt)
     = (r_slots rt)(skyuv_socket_id_slot cfg i \<mapsto> e\<lparr>e_state := STATE_CLOSING\<rparr>)"
  by (simp add: begin_close_def set_entry_state_def upd_entry_def uv_close_def upd_loop_def
      raise_fault_def deref_def)

text \<open>
  One iteration keeps the invariant, changes its own slot only, and leaves there
  nothing or a closing socket.
\<close>

lemma exit_slot_ok:
  assumes cfg: "cfg_ok cfg" and ok: "runtime_ok cfg rt"
  shows "runtime_ok cfg (exit_slot cfg s rt) \<and>
    (\<forall>t. t \<noteq> s \<longrightarrow> r_slots (exit_slot cfg s rt) t = r_slots rt t) \<and>
    (\<forall>e. r_slots (exit_slot cfg s rt) s = Some e \<longrightarrow> e_state e = STATE_CLOSING)"
proof (cases "r_slots rt s")
  case None
  with ok show ?thesis by (simp add: exit_slot_def)
next
  case (Some e)
  note S = slot_entry [OF cfg ok Some]
  note cl = closing_iff [OF runtime_ok_but [OF ok S(1)] S(1)]
  consider (new) "\<not> e_initialized e" | (closing) "e_initialized e" "e_state e = STATE_CLOSING"
    | (live) "e_initialized e" "e_state e \<noteq> STATE_CLOSING" by blast
  then show ?thesis
  proof cases
    case new
    then show ?thesis
      using ok_discard_now [OF ok S(1)] Some S(2)
      by (simp add: exit_slot_def r_slots_discard [OF S(1)])
  next
    case closing
    then show ?thesis using ok cl Some by (simp add: exit_slot_def uv_is_closing_def)
  next
    case live
    then show ?thesis
      using ok_begin_close [OF ok S(1) S(1)] Some S(2) cl
      by (simp add: exit_slot_def uv_is_closing_def r_slots_begin_close [OF S(1)])
  qed
qed

lemma exit_slots_ok:
  assumes cfg: "cfg_ok cfg" and "runtime_ok cfg rt"
  shows "runtime_ok cfg (fold (exit_slot cfg) ss rt) \<and>
    (\<forall>s e. r_slots (fold (exit_slot cfg) ss rt) s = Some e \<longrightarrow>
       e_state e = STATE_CLOSING \<or> s \<notin> set ss \<and> r_slots rt s = Some e)"
  using assms(2)
proof (induction ss arbitrary: rt)
  case Nil
  then show ?case by simp
next
  case (Cons s ss)
  note E = exit_slot_ok [OF cfg Cons.prems, of s]
  note IH = Cons.IH [OF conjunct1 [OF E]]
  show ?case
  proof (intro conjI allI impI)
    show "runtime_ok cfg (fold (exit_slot cfg) (s # ss) rt)" using IH by simp
    fix t e assume "r_slots (fold (exit_slot cfg) (s # ss) rt) t = Some e"
    then consider "e_state e = STATE_CLOSING" | "t \<notin> set ss" "r_slots (exit_slot cfg s rt) t = Some e"
      using IH by fastforce
    then show "e_state e = STATE_CLOSING \<or> t \<notin> set (s # ss) \<and> r_slots rt t = Some e"
      using E by cases (cases "t = s", auto)
  qed
qed

lemma exit_slots_all:
  assumes cfg: "cfg_ok cfg" and ok: "runtime_ok cfg rt"
    and e: "find_entry cfg (fold (exit_slot cfg) (exit_slots cfg) rt) i = Some e"
  shows "e_state e = STATE_CLOSING"
proof -
  let ?s = "skyuv_socket_id_slot cfg i"
  have "unat ?s < unat (SKYUV_SOCKET_SLOT_COUNT cfg)"
    using slot_valid [OF cfg, of i] by (simp add: unat_slot_count [OF cfg] valid_slot_def)
  then have "(of_nat (unat ?s) :: u16) \<in> of_nat ` set [0..<unat (SKYUV_SOCKET_SLOT_COUNT cfg)]"
    by (intro imageI) simp
  then have "?s \<in> set (exit_slots cfg)" by (simp add: exit_slots_def)
  with exit_slots_ok [OF cfg ok, of "exit_slots cfg"] e show ?thesis
    by (auto simp: find_entry_slot)
qed


lemma entry_count_nonzero:
  assumes "table_ok cfg (globals rt)" and "find_entry cfg rt i = Some e"
  shows "r_entry_count rt \<noteq> 0"
proof -
  let ?n = "card {s. ids_of rt s \<noteq> None}"
  have "skyuv_socket_id_slot cfg i \<in> {s. ids_of rt s \<noteq> None}"
    using assms(2) by (simp add: ids_of_def find_entry_slot)
  then have "0 < ?n" by (auto simp: card_gt_0_iff)
  have "?n \<le> card (UNIV :: u16 set)" by (rule card_mono) auto
  also have "\<dots> < 2 ^ 32" by (simp add: card_word)
  finally have "\<not> 2 ^ 32 dvd ?n" using \<open>0 < ?n\<close> by (meson dvd_imp_le not_less)
  then show ?thesis
    using assms(1) by (simp add: table_ok_def globals_def word_of_nat_eq_0_iff)
qed

definition exit_flags :: "runtime \<Rightarrow> bool \<times> command_queue \<times> bool" where
  "exit_flags rt = (r_exiting rt, r_commands rt, r_exit_ready rt \<longrightarrow> r_entry_count rt = 0)"

lemma exit_flags_slot:
  assumes cfg: "cfg_ok cfg" and ok: "runtime_ok cfg (before_exit rt)"
    and ready: "r_exit_ready rt \<longrightarrow> r_entry_count rt = 0"
  shows "exit_flags (exit_slot cfg s rt) = exit_flags rt"
proof (cases "r_slots rt s")
  case None
  then show ?thesis by (simp add: exit_slot_def)
next
  case (Some e)
  have "r_slots (before_exit rt) s = Some e" using Some by (simp add: before_exit_def)
  note S = slot_entry [OF cfg ok this]
  have find: "find_entry cfg rt (e_id e) = Some e" using S(1) by (simp add: frame_simps)
  have "table_ok cfg (globals (before_exit rt))" using ok by (simp add: runtime_ok_def)
  from entry_count_nonzero [OF this S(1)] have "\<not> r_exit_ready rt"
    using ready by (simp add: before_exit_def)
  then show ?thesis
    using Some find
    by (simp add: exit_slot_def exit_flags_def discard_uninitialized_entry_def update_exit_ready_def
        remove_entry_def begin_close_def set_entry_state_def upd_entry_def uv_close_def upd_loop_def
        raise_fault_def deref_def)
qed

lemma exit_flags_slots:
  assumes cfg: "cfg_ok cfg" and "runtime_ok cfg (before_exit rt)"
    and "r_exit_ready rt \<longrightarrow> r_entry_count rt = 0"
  shows "exit_flags (fold (exit_slot cfg) ss rt) = exit_flags rt"
  using assms(2,3)
proof (induction ss arbitrary: rt)
  case (Cons s ss)
  note E = exit_flags_slot [OF cfg Cons.prems, of s]
  have "runtime_ok cfg (before_exit (exit_slot cfg s rt))"
    using exit_slot_ok [OF cfg Cons.prems(1), of s] by (simp add: before_exit_slot)
  from Cons.IH [OF this] E Cons.prems(2) show ?case by (simp add: exit_flags_def)
qed simp

text \<open>Closing the signal handles changes nothing a socket depends on.\<close>

lemma close_process_signals_simps [frame_simps]:
  "find_entry cfg (close_process_signals rt) i = find_entry cfg rt i"
  "sview cfg (close_process_signals rt) i = sview cfg rt i"
  "r_fault (close_process_signals rt) = r_fault rt"
  "H_async \<in> set (l_closing (r_loop (close_process_signals rt))) \<longleftrightarrow>
     H_async \<in> set (l_closing (r_loop rt))"
  "exit_flags (close_process_signals rt) = exit_flags rt"
  "r_generations (close_process_signals rt) = r_generations rt"
  "ids_of (close_process_signals rt) = ids_of rt"
  "r_entry_count (close_process_signals rt) = r_entry_count rt"
  "r_exit_ready (close_process_signals rt) = r_exit_ready rt"
proof -
  have "find_entry cfg (close_process_signal g rt) i = find_entry cfg rt i"
    "sview cfg (close_process_signal g rt) i = sview cfg rt i"
    "r_fault (close_process_signal g rt) = r_fault rt"
    "H_async \<in> set (l_closing (r_loop (close_process_signal g rt))) \<longleftrightarrow>
       H_async \<in> set (l_closing (r_loop rt))"
    "exit_flags (close_process_signal g rt) = exit_flags rt"
    "r_generations (close_process_signal g rt) = r_generations rt"
    "ids_of (close_process_signal g rt) = ids_of rt"
    "r_entry_count (close_process_signal g rt) = r_entry_count rt"
    "r_exit_ready (close_process_signal g rt) = r_exit_ready rt" for g rt
    by (auto simp: close_process_signal_def uv_close_def uv_is_closing_def upd_loop_def sview_def
        find_entry_def exit_flags_def ids_of_def)
  note one = this
  show "find_entry cfg (close_process_signals rt) i = find_entry cfg rt i"
    "sview cfg (close_process_signals rt) i = sview cfg rt i"
    "r_fault (close_process_signals rt) = r_fault rt"
    "H_async \<in> set (l_closing (r_loop (close_process_signals rt))) \<longleftrightarrow>
       H_async \<in> set (l_closing (r_loop rt))"
    "exit_flags (close_process_signals rt) = exit_flags rt"
    "r_generations (close_process_signals rt) = r_generations rt"
    "ids_of (close_process_signals rt) = ids_of rt"
    "r_entry_count (close_process_signals rt) = r_entry_count rt"
    "r_exit_ready (close_process_signals rt) = r_exit_ready rt"
    by (simp_all only: close_process_signals_def one)
qed


lemma sview_before_exit: "sview cfg (before_exit rt) i = sview cfg rt i"
  by (simp add: sview_def find_entry_def before_exit_def)

lemma table_ok_before_exit: "table_ok cfg (globals (before_exit rt)) = table_ok cfg (globals rt)"
  by (simp add: table_ok_def globals_def ids_of_def before_exit_def)

lemma ok_process_exit:
  assumes cfg: "cfg_ok cfg" and ok: "runtime_ok cfg (before_exit rt)" and "\<not> r_exit_ready rt"
    and q: "r_commands rt = \<lparr>q_mutex = True, q_items = [], q_accepting = False\<rparr>"
  shows "runtime_ok cfg (process_exit cfg rt)"
proof -
  define rtF where "rtF = fold (exit_slot cfg) (exit_slots cfg) (rt\<lparr>r_exiting := True\<rparr>)"
  have start: "before_exit (rt\<lparr>r_exiting := True\<rparr>) = before_exit rt" by (simp add: before_exit_def)
  have bF: "before_exit rtF = fold (exit_slot cfg) (exit_slots cfg) (before_exit rt)"
    by (simp add: rtF_def before_exit_slots start)
  have okF: "runtime_ok cfg (before_exit rtF)"
    unfolding bF using exit_slots_ok [OF cfg ok] by blast
  have "exit_flags rtF = exit_flags (rt\<lparr>r_exiting := True\<rparr>)"
    unfolding rtF_def by (rule exit_flags_slots [OF cfg]) (use ok assms(3) in \<open>simp_all add: start\<close>)
  then have flags: "r_exiting rtF" "r_commands rtF = r_commands rt" "r_exit_ready rtF \<longrightarrow> r_entry_count rtF = 0"
    using assms(3) by (simp_all add: exit_flags_def)
  have all: "e_state e = STATE_CLOSING" if "find_entry cfg rtF i = Some e" for i e
    using exit_slots_all [OF cfg ok] that by (simp add: bF [symmetric] frame_simps)
  have async: "H_async \<notin> set (l_closing (r_loop rtF))"
    using okF by (auto simp: runtime_ok_def exit_ok_def globals_def before_exit_def other_closing_def)
  let ?sig = "close_process_signals rtF"
  have e: "process_exit cfg rt = update_exit_ready (uv_close H_async ?sig)"
    by (simp add: process_exit_def rtF_def)
  have fs: "r_exiting ?sig" "r_commands ?sig = r_commands rt"
    using flags close_process_signals_simps(5) [of rtF] by (simp_all add: exit_flags_def)
  have cl: "uv_close H_async ?sig = upd_loop (\<lambda>l. l\<lparr>l_closing := l_closing l @ [H_async]\<rparr>) ?sig"
    using async by (simp add: uv_close_def uv_is_closing_def frame_simps)
  have same: "r_exiting (process_exit cfg rt)" "r_commands (process_exit cfg rt) = r_commands rt"
    "r_fault (process_exit cfg rt) = r_fault rtF" "sview cfg (process_exit cfg rt) i = sview cfg rtF i"
    "find_entry cfg (process_exit cfg rt) i = find_entry cfg rtF i"
    "r_generations (process_exit cfg rt) = r_generations rtF"
    "ids_of (process_exit cfg rt) = ids_of rtF"
    "r_entry_count (process_exit cfg rt) = r_entry_count rtF"
    "r_exit_ready (process_exit cfg rt) \<longleftrightarrow> r_entry_count rtF = 0 \<or> r_exit_ready rtF" for i
    unfolding e cl using fs close_process_signals_simps [where rt = rtF]
    by (auto simp: update_exit_ready_def upd_loop_def sview_def find_entry_def ids_of_def fun_eq_iff)
  show ?thesis
    unfolding runtime_ok_def
  proof (intro conjI allI)
    show "r_fault (process_exit cfg rt) = None"
      using okF by (simp add: same runtime_ok_def before_exit_def)
    show "view_ok (r_exiting (process_exit cfg rt)) i (sview cfg (process_exit cfg rt) i)" for i
    proof -
      have "view_ok False i (sview cfg rtF i)"
        using okF by (simp add: runtime_ok_def sview_before_exit) (simp add: before_exit_def)
      then show ?thesis
        using all [of i] by (simp add: same view_ok_def split: option.splits)
    qed
    show "table_ok cfg (globals (process_exit cfg rt))"
      using okF by (simp add: runtime_ok_def table_ok_before_exit)
        (simp add: table_ok_def globals_def same)
    show "exit_ok (globals (process_exit cfg rt))"
      using flags(3) by (auto simp: exit_ok_def globals_def same)
    show "queue_ok (r_exiting (process_exit cfg rt)) (r_commands (process_exit cfg rt))"
      by (simp add: same q queue_ok_def)
  qed
qed

end
