(* ===== verification/Socket_Api.thy ===== *)
theory Socket_Api
  imports Socket_Handlers
begin

text \<open>
  The functions the Skynet worker threads call (\<^verbatim>\<open>socket_internal.c\<close>, lines 1309 to 1994):
  they check their arguments, make a command and submit it, and the poll function that
  runs the loop until it has an event to report. \<open>None\<close> is a NULL runtime pointer, and
  \<open>id_ptr\<close> says whether the pointer for the new id is not NULL. The outcome of every
  allocation is a field of \<open>api_env\<close>.
\<close>

record api_env =
  a_entry :: bool
  a_command :: bool
  a_string :: bool
  a_data :: "ptr option"

section \<open>Creating a runtime\<close>

record create_env =
  k_runtime :: bool
  k_slots :: bool
  k_generations :: bool
  k_loop_init :: uv_code
  k_queue_mutex :: skyuv_error
  k_slots_mutex :: skyuv_error
  k_async_init :: uv_code

definition empty_loop :: uv_loop where
  "empty_loop = \<lparr>l_writes = [], l_udp_sends = [], l_connects = [], l_reading = (\<lambda>_. False),
     l_receiving = (\<lambda>_. False), l_listening = (\<lambda>_. False), l_nodelay = (\<lambda>_. False),
     l_async = False, l_closing = [], l_submitted = [], l_datagrams = []\<rparr>"

definition created_runtime :: "command_queue \<Rightarrow> runtime" where
  "created_runtime q = \<lparr>r_loop = empty_loop, r_signal_initialized = (\<lambda>_. False),
     r_process_signals_initialized = False, r_process_signals_failed = False,
     r_commands = q, r_slots = (\<lambda>_. None), r_generations = (\<lambda>_. 0), r_next_slot = 0,
     r_events = [], r_pump = [], r_entry_count = 0, r_process_shutdown_requested = 0,
     r_exiting = False, r_exit_ready = False, r_current_time = 0, r_taken = [], r_released = [],
     r_freed = [], r_fault = None\<rparr>"

text \<open>
  \<open>var\<close> is what the caller's variable holds: \<open>None\<close> for a NULL argument, \<open>Some None\<close> for
  a variable that is NULL.
\<close>

definition skyuv_socket_runtime_create ::
    "create_env \<Rightarrow> runtime option option \<Rightarrow> skyuv_error \<times> runtime option" where
  "skyuv_socket_runtime_create k var =
     (if var \<noteq> Some None then (SKYUV_ERROR_INVALID_ARGUMENT, None)
      else if \<not> k_runtime k then (SKYUV_ERROR_OUT_OF_MEMORY, None)
      else if \<not> k_slots k \<or> \<not> k_generations k then (SKYUV_ERROR_OUT_OF_MEMORY, None)
      else if k_loop_init k \<noteq> UV_OK then (SKYUV_ERROR_SYSTEM, None)
      else case skyuv_socket_command_queue_init (k_queue_mutex k)
                  (Some \<lparr>q_mutex = False, q_items = [], q_accepting = False\<rparr>) of
             (result, q) \<Rightarrow>
               if result \<noteq> SKYUV_OK then (result, None)
               else if k_slots_mutex k \<noteq> SKYUV_OK then (k_slots_mutex k, None)
               else if k_async_init k \<noteq> UV_OK then (SKYUV_ERROR_SYSTEM, None)
               else (SKYUV_OK, map_option created_runtime q))"

section \<open>Submitting commands\<close>

definition skyuv_socket_runtime_submit ::
    "runtime \<Rightarrow> command \<Rightarrow> skyuv_error \<times> runtime" where
  "skyuv_socket_runtime_submit rt c =
     (case skyuv_socket_command_queue_push (Some (r_commands rt)) (Some c) of
        (result, Some q) \<Rightarrow>
          (if result \<noteq> SKYUV_OK then (result, rt)
           else (SKYUV_OK, upd_loop (\<lambda>l. l\<lparr>l_async := True\<rparr>) (rt\<lparr>r_commands := q\<rparr>)))
      | (result, None) \<Rightarrow> (result, rt))"

definition skyuv_socket_runtime_exit ::
    "api_env \<Rightarrow> runtime option \<Rightarrow> skyuv_error \<times> runtime option" where
  "skyuv_socket_runtime_exit a rt =
     (case rt of
        None \<Rightarrow> (SKYUV_ERROR_INVALID_ARGUMENT, None)
      | Some rt \<Rightarrow>
          if \<not> a_command a then (SKYUV_ERROR_OUT_OF_MEMORY, Some rt)
          else case skyuv_socket_command_queue_stop (Some (r_commands rt))
                      (Some (command0\<lparr>c_type := COMMAND_EXIT\<rparr>)) of
                 (result, Some q) \<Rightarrow>
                   (if result \<noteq> SKYUV_OK then (result, Some rt)
                    else (SKYUV_OK, Some (upd_loop (\<lambda>l. l\<lparr>l_async := True\<rparr>) (rt\<lparr>r_commands := q\<rparr>))))
               | (result, None) \<Rightarrow> (result, Some rt))"

text \<open>
  The interface functions that only submit a command for an id: \<^verbatim>\<open>start\<close>, \<^verbatim>\<open>pause\<close>,
  \<^verbatim>\<open>nodelay\<close>, \<^verbatim>\<open>close\<close> and \<^verbatim>\<open>shutdown\<close>.
\<close>

definition submit_for_id ::
    "api_env \<Rightarrow> runtime option \<Rightarrow> command \<Rightarrow> skyuv_error \<times> runtime option" where
  "submit_for_id a rt c =
     (case rt of
        None \<Rightarrow> (SKYUV_ERROR_INVALID_ARGUMENT, None)
      | Some rt \<Rightarrow>
          if sint (c_id c) \<le> 0 then (SKYUV_ERROR_INVALID_ARGUMENT, Some rt)
          else if \<not> a_command a then (SKYUV_ERROR_OUT_OF_MEMORY, Some rt)
          else map_prod id Some (skyuv_socket_runtime_submit rt c))"

definition skyuv_socket_runtime_start ::
    "api_env \<Rightarrow> runtime option \<Rightarrow> sock_id \<Rightarrow> uintptr \<Rightarrow> skyuv_error \<times> runtime option" where
  "skyuv_socket_runtime_start a rt i opq =
     (case rt of
        None \<Rightarrow> (SKYUV_ERROR_INVALID_ARGUMENT, None)
      | Some rt \<Rightarrow>
          if sint i \<le> 0 then (SKYUV_ERROR_INVALID_ARGUMENT, Some rt)
          else if \<not> a_command a then (SKYUV_ERROR_OUT_OF_MEMORY, Some rt)
          else case skyuv_socket_runtime_submit rt
                      (command0\<lparr>c_type := COMMAND_START, c_id := i, c_opaque := opq\<rparr>) of
                 (result, rt1) \<Rightarrow>
                   if result \<noteq> SKYUV_OK then (SKYUV_ERROR_INVALID_STATE, Some rt1)
                   else (SKYUV_OK, Some rt1))"

definition skyuv_socket_runtime_pause ::
    "api_env \<Rightarrow> runtime option \<Rightarrow> sock_id \<Rightarrow> uintptr \<Rightarrow> skyuv_error \<times> runtime option" where
  "skyuv_socket_runtime_pause a rt i opq =
     submit_for_id a rt (command0\<lparr>c_type := COMMAND_PAUSE, c_id := i, c_opaque := opq\<rparr>)"

definition skyuv_socket_runtime_nodelay ::
    "api_env \<Rightarrow> runtime option \<Rightarrow> sock_id \<Rightarrow> skyuv_error \<times> runtime option" where
  "skyuv_socket_runtime_nodelay a rt i =
     submit_for_id a rt (command0\<lparr>c_type := COMMAND_NODELAY, c_id := i\<rparr>)"

definition skyuv_socket_runtime_close ::
    "api_env \<Rightarrow> runtime option \<Rightarrow> sock_id \<Rightarrow> uintptr \<Rightarrow> skyuv_error \<times> runtime option" where
  "skyuv_socket_runtime_close a rt i opq =
     submit_for_id a rt (command0\<lparr>c_type := COMMAND_CLOSE, c_id := i, c_opaque := opq\<rparr>)"

definition skyuv_socket_runtime_shutdown ::
    "api_env \<Rightarrow> runtime option \<Rightarrow> sock_id \<Rightarrow> uintptr \<Rightarrow> skyuv_error \<times> runtime option" where
  "skyuv_socket_runtime_shutdown a rt i opq =
     submit_for_id a rt (command0\<lparr>c_type := COMMAND_SHUTDOWN, c_id := i, c_opaque := opq\<rparr>)"

section \<open>Sending\<close>

text \<open>
  \<open>take_data\<close>: what \<^verbatim>\<open>runtime_send\<close> and \<^verbatim>\<open>udp_send\<close> do with the caller's buffer. A borrowed
  buffer is copied (the copy belongs to the runtime from now on, its release function
  is NULL); an owned one is used as it is, and belongs to the runtime once the command
  is queued. \<open>send_command\<close> is the rest: allocate the command, submit it, and on failure
  give the copy back to the allocator or leave the owned buffer to the caller.
\<close>

definition take_data ::
    "api_env \<Rightarrow> buffer_ownership \<Rightarrow> buffer \<Rightarrow> runtime \<Rightarrow> (buffer \<times> runtime) option" where
  "take_data a own b rt =
     (case own of
        BUFFER_OWNED \<Rightarrow> Some (b, rt)
      | BUFFER_BORROWED \<Rightarrow>
          (case a_data a of
             None \<Rightarrow> None
           | Some p \<Rightarrow> Some ((None, Some p), rt\<lparr>r_taken := r_taken rt @ [(None, Some p)]\<rparr>)))"

definition send_command ::
    "api_env \<Rightarrow> buffer_ownership \<Rightarrow> buffer \<Rightarrow> command \<Rightarrow> runtime \<Rightarrow> skyuv_error \<times> runtime" where
  "send_command a own b c rt =
     (case take_data a own b rt of
        None \<Rightarrow> (SKYUV_ERROR_OUT_OF_MEMORY, rt)
      | Some (b1, rt1) \<Rightarrow>
          if \<not> a_command a
          then (SKYUV_ERROR_OUT_OF_MEMORY,
                if own = BUFFER_BORROWED then rt1\<lparr>r_released := r_released rt1 @ [b1]\<rparr> else rt1)
          else
            let c1 = c\<lparr>c_data := snd b1, c_release := fst b1, c_ownership := BUFFER_OWNED\<rparr>
            in case skyuv_socket_runtime_submit rt1 c1 of
                 (result, rt2) \<Rightarrow>
                   if result \<noteq> SKYUV_OK
                   then (result, rt2\<lparr>r_released := r_released rt2 @ skyuv_socket_command_destroy
                           (if own = BUFFER_OWNED then c1\<lparr>c_ownership := BUFFER_BORROWED\<rparr> else c1)\<rparr>)
                   else (SKYUV_OK, if own = BUFFER_OWNED
                                   then rt2\<lparr>r_taken := r_taken rt2 @ [b1]\<rparr> else rt2))"

definition runtime_send ::
    "api_env \<Rightarrow> runtime option \<Rightarrow> sock_id \<Rightarrow> ptr option \<Rightarrow> size_t \<Rightarrow> buffer_ownership
      \<Rightarrow> release_fn option \<Rightarrow> bool \<Rightarrow> skyuv_error \<times> runtime option" where
  "runtime_send a rt i data sz own release low_priority =
     (case rt of
        None \<Rightarrow> (SKYUV_ERROR_INVALID_ARGUMENT, None)
      | Some rt \<Rightarrow>
          if sint i \<le> 0 \<or> data = None \<or> sz = 0 \<or> sz > UINT_MAX
          then (SKYUV_ERROR_INVALID_ARGUMENT, Some rt)
          else map_prod id Some (send_command a own (release, data)
                 (command0\<lparr>c_type := if low_priority then COMMAND_SEND_LOW else COMMAND_SEND,
                    c_id := i, c_size := sz\<rparr>) rt))"

definition skyuv_socket_runtime_send where
  "skyuv_socket_runtime_send a rt i data sz own release =
     runtime_send a rt i data sz own release False"

definition skyuv_socket_runtime_send_low where
  "skyuv_socket_runtime_send_low a rt i data sz own release =
     runtime_send a rt i data sz own release True"

definition skyuv_socket_runtime_udp_send ::
    "api_env \<Rightarrow> runtime option \<Rightarrow> sock_id \<Rightarrow> bytes option \<Rightarrow> size_t \<Rightarrow> ptr option \<Rightarrow> size_t
      \<Rightarrow> buffer_ownership \<Rightarrow> release_fn option \<Rightarrow> skyuv_error \<times> runtime option" where
  "skyuv_socket_runtime_udp_send a rt i address address_size data sz own release =
     (case rt of
        None \<Rightarrow> (SKYUV_ERROR_INVALID_ARGUMENT, None)
      | Some rt \<Rightarrow>
          if sint i \<le> 0 \<or> (data = None \<and> sz > 0) \<or> sz > UINT_MAX \<or>
             (address_size \<noteq> 0 \<and> address_size \<noteq> 7 \<and> address_size \<noteq> 19) \<or>
             (address_size > 0 \<and> address = None)
          then (SKYUV_ERROR_INVALID_ARGUMENT, Some rt)
          else map_prod id Some (send_command a own (release, data)
                 (command0\<lparr>c_type := COMMAND_UDP_SEND, c_id := i, c_size := sz,
                    c_address_size := address_size,
                    c_address := (case address of None \<Rightarrow> [] | Some bs \<Rightarrow> take (unat address_size) bs)\<rparr>)
                 rt))"

section \<open>Opening sockets\<close>

definition copy_string :: "bool \<Rightarrow> string option \<Rightarrow> string option" where
  "copy_string alloc v = (case v of None \<Rightarrow> None | Some str \<Rightarrow> if alloc then Some str else None)"

text \<open>
  The common part of \<^verbatim>\<open>listen\<close>, \<^verbatim>\<open>connect\<close> and \<^verbatim>\<open>udp\<close>: reserve an entry, make the command
  with a copy of the host, submit it; each failure after the reservation discards the
  entry.
\<close>

definition open_socket ::
    "build_config \<Rightarrow> api_env \<Rightarrow> uintptr \<Rightarrow> string \<Rightarrow> command \<Rightarrow> runtime
      \<Rightarrow> skyuv_error \<times> sock_id option \<times> runtime" where
  "open_socket cfg a opq host c rt =
     (case reserve_entry cfg (a_entry a) opq rt of
        (result, i, rt1) \<Rightarrow>
          if result \<noteq> SKYUV_OK then (result, None, rt1)
          else if \<not> a_command a \<or> copy_string (a_string a) (Some host) = None
          then (SKYUV_ERROR_OUT_OF_MEMORY, None, discard_uninitialized_entry cfg i rt1)
          else
            let c1 = c\<lparr>c_host := copy_string (a_string a) (Some host), c_id := i, c_opaque := opq\<rparr>
            in case skyuv_socket_runtime_submit rt1 c1 of
                 (result, rt2) \<Rightarrow>
                   if result \<noteq> SKYUV_OK then (result, None, discard_uninitialized_entry cfg i rt2)
                   else (SKYUV_OK, Some i, rt2))"

definition skyuv_socket_runtime_listen ::
    "build_config \<Rightarrow> api_env \<Rightarrow> runtime option \<Rightarrow> string option \<Rightarrow> int \<Rightarrow> int \<Rightarrow> uintptr \<Rightarrow> bool
      \<Rightarrow> skyuv_error \<times> sock_id option \<times> runtime option" where
  "skyuv_socket_runtime_listen cfg a rt host port backlog opq id_ptr =
     (case (rt, host) of
        (Some rt, Some host) \<Rightarrow>
          if port < 0 \<or> port > 65535 \<or> backlog \<le> 0 \<or> \<not> id_ptr
          then (SKYUV_ERROR_INVALID_ARGUMENT, None, Some rt)
          else (case open_socket cfg a opq host
                  (command0\<lparr>c_type := COMMAND_LISTEN, c_port := port, c_backlog := backlog\<rparr>) rt of
                  (r, i, rt1) \<Rightarrow> (r, i, Some rt1))
      | _ \<Rightarrow> (SKYUV_ERROR_INVALID_ARGUMENT, None, rt))"

definition skyuv_socket_runtime_connect ::
    "build_config \<Rightarrow> api_env \<Rightarrow> runtime option \<Rightarrow> string option \<Rightarrow> int \<Rightarrow> uintptr \<Rightarrow> bool
      \<Rightarrow> skyuv_error \<times> sock_id option \<times> runtime option" where
  "skyuv_socket_runtime_connect cfg a rt host port opq id_ptr =
     (case (rt, host) of
        (Some rt, Some host) \<Rightarrow>
          if port < 0 \<or> port > 65535 \<or> \<not> id_ptr
          then (SKYUV_ERROR_INVALID_ARGUMENT, None, Some rt)
          else (case open_socket cfg a opq host
                  (command0\<lparr>c_type := COMMAND_CONNECT, c_port := port\<rparr>) rt of
                  (r, i, rt1) \<Rightarrow> (r, i, Some rt1))
      | _ \<Rightarrow> (SKYUV_ERROR_INVALID_ARGUMENT, None, rt))"

definition skyuv_socket_runtime_udp ::
    "build_config \<Rightarrow> api_env \<Rightarrow> runtime option \<Rightarrow> string option \<Rightarrow> int \<Rightarrow> uintptr \<Rightarrow> bool
      \<Rightarrow> skyuv_error \<times> sock_id option \<times> runtime option" where
  "skyuv_socket_runtime_udp cfg a rt host port opq id_ptr =
     (let bind_host = (case host of None \<Rightarrow> ''0.0.0.0'' | Some h \<Rightarrow> h)
      in case rt of
           None \<Rightarrow> (SKYUV_ERROR_INVALID_ARGUMENT, None, None)
         | Some rt \<Rightarrow>
             if port < 0 \<or> port > 65535 \<or> \<not> id_ptr
             then (SKYUV_ERROR_INVALID_ARGUMENT, None, Some rt)
             else (case open_socket cfg a opq bind_host
                     (command0\<lparr>c_type := COMMAND_UDP, c_port := port\<rparr>) rt of
                     (r, i, rt1) \<Rightarrow> (r, i, Some rt1)))"

definition skyuv_socket_runtime_udp_connect ::
    "api_env \<Rightarrow> runtime option \<Rightarrow> sock_id \<Rightarrow> string option \<Rightarrow> int \<Rightarrow> skyuv_error \<times> runtime option" where
  "skyuv_socket_runtime_udp_connect a rt i host port =
     (case (rt, host) of
        (Some rt, Some host) \<Rightarrow>
          if sint i \<le> 0 \<or> port < 0 \<or> port > 65535 then (SKYUV_ERROR_INVALID_ARGUMENT, Some rt)
          else if \<not> a_command a \<or> copy_string (a_string a) (Some host) = None
          then (SKYUV_ERROR_OUT_OF_MEMORY, Some rt)
          else map_prod id Some (skyuv_socket_runtime_submit rt
                 (command0\<lparr>c_type := COMMAND_UDP_CONNECT, c_id := i, c_port := port,
                    c_host := copy_string (a_string a) (Some host)\<rparr>))
      | _ \<Rightarrow> (SKYUV_ERROR_INVALID_ARGUMENT, rt))"

text \<open>The slots that another socket's external descriptor occupies.\<close>

definition fd_in_use :: "build_config \<Rightarrow> int \<Rightarrow> sock_id \<Rightarrow> runtime \<Rightarrow> bool" where
  "fd_in_use cfg fd i rt =
     list_ex (\<lambda>s. case r_slots rt s of None \<Rightarrow> False | Some e \<Rightarrow> e_id e \<noteq> i \<and> e_external_fd e = fd)
       (exit_slots cfg)"

definition skyuv_socket_runtime_bind ::
    "build_config \<Rightarrow> api_env \<Rightarrow> runtime option \<Rightarrow> int \<Rightarrow> uintptr \<Rightarrow> bool
      \<Rightarrow> skyuv_error \<times> sock_id option \<times> runtime option" where
  "skyuv_socket_runtime_bind cfg a rt fd opq id_ptr =
     (if \<not> external_fd_supported cfg then (SKYUV_ERROR_NOT_SUPPORTED, None, rt)
      else case rt of
        None \<Rightarrow> (SKYUV_ERROR_INVALID_ARGUMENT, None, None)
      | Some rt \<Rightarrow>
          if fd < 0 \<or> \<not> id_ptr then (SKYUV_ERROR_INVALID_ARGUMENT, None, Some rt)
          else case reserve_entry cfg (a_entry a) opq rt of
            (result, i, rt1) \<Rightarrow>
              if result \<noteq> SKYUV_OK then (result, None, Some rt1)
              else if fd_in_use cfg fd i rt1
              then (SKYUV_ERROR_INVALID_STATE, None, Some (discard_uninitialized_entry cfg i rt1))
              else
                let rt2 = upd_entry cfg i (\<lambda>e. e\<lparr>e_external_fd := fd\<rparr>) rt1
                in if \<not> a_command a
                   then (SKYUV_ERROR_OUT_OF_MEMORY, None, Some (discard_uninitialized_entry cfg i rt2))
                   else case skyuv_socket_runtime_submit rt2
                               (command0\<lparr>c_type := COMMAND_BIND, c_id := i, c_opaque := opq, c_fd := fd\<rparr>) of
                          (result, rt3) \<Rightarrow>
                            if result \<noteq> SKYUV_OK
                            then (result, None, Some (discard_uninitialized_entry cfg i rt3))
                            else (SKYUV_OK, Some i, Some rt3))"

section \<open>Queries\<close>

definition skyuv_socket_runtime_state ::
    "build_config \<Rightarrow> runtime option \<Rightarrow> sock_id \<Rightarrow> socket_state" where
  "skyuv_socket_runtime_state cfg rt i =
     (case rt of
        None \<Rightarrow> STATE_INVALID
      | Some rt \<Rightarrow>
          if sint i \<le> 0 then STATE_INVALID
          else case find_entry cfg rt i of
                 None \<Rightarrow> STATE_INVALID
               | Some e \<Rightarrow> if e_close_requested e then STATE_CLOSING else e_state e)"

definition skyuv_socket_runtime_updatetime :: "runtime option \<Rightarrow> u64 \<Rightarrow> runtime option" where
  "skyuv_socket_runtime_updatetime rt tm = map_option (\<lambda>rt. rt\<lparr>r_current_time := tm\<rparr>) rt"

definition skyuv_socket_runtime_take_process_shutdown ::
    "runtime option \<Rightarrow> bool \<times> runtime option" where
  "skyuv_socket_runtime_take_process_shutdown rt =
     (case rt of
        None \<Rightarrow> (False, None)
      | Some rt \<Rightarrow> (r_process_shutdown_requested rt \<noteq> 0, Some (rt\<lparr>r_process_shutdown_requested := 0\<rparr>)))"

datatype info_type = INFO_LISTEN | INFO_TCP | INFO_CLOSING | INFO_UDP

record socket_info =
  i_id :: sock_id
  i_type :: info_type
  i_opaque :: uintptr
  i_read :: u64
  i_write :: u64
  i_rtime :: u64
  i_wtime :: u64
  i_wbuffer :: size_t
  i_reading :: bool
  i_writing :: bool
  i_name :: string

definition has_info :: "entry \<Rightarrow> bool" where
  "has_info e \<longleftrightarrow> e_state e \<in> {STATE_LISTENING, STATE_CONNECTED, STATE_CONNECTED_PAUSED,
     STATE_HALFCLOSE_READ, STATE_UDP, STATE_CLOSING}"

definition entry_info :: "entry \<Rightarrow> socket_info" where
  "entry_info e = \<lparr>i_id = e_id e,
     i_type = (if e_state e = STATE_LISTENING then INFO_LISTEN
               else if e_state e = STATE_UDP then INFO_UDP
               else if e_close_requested e \<or> e_state e = STATE_HALFCLOSE_READ \<or>
                       e_state e = STATE_CLOSING then INFO_CLOSING
               else INFO_TCP),
     i_opaque = e_opaque e,
     i_read = (if e_state e = STATE_LISTENING then e_accept_count e else e_read_bytes e),
     i_write = e_write_bytes e, i_rtime = e_read_time e, i_wtime = e_write_time e,
     i_wbuffer = e_queued_bytes e, i_reading = e_reading e,
     i_writing = (e_writing e \<or> e_queued_bytes e > 0), i_name = e_name e\<rparr>"

text \<open>
  The loop over the slots; \<open>alloc n\<close> is the outcome of the allocation of the \<open>n\<close>-th
  record, and a failure ends the list.
\<close>

fun info_loop :: "(nat \<Rightarrow> bool) \<Rightarrow> nat \<Rightarrow> runtime \<Rightarrow> u16 list \<Rightarrow> socket_info list" where
  "info_loop alloc n rt [] = []"
| "info_loop alloc n rt (s # ss) =
     (case r_slots rt s of
        None \<Rightarrow> info_loop alloc n rt ss
      | Some e \<Rightarrow>
          if \<not> has_info e then info_loop alloc n rt ss
          else if \<not> alloc n then []
          else entry_info e # info_loop alloc (Suc n) rt ss)"

definition skyuv_socket_runtime_info ::
    "build_config \<Rightarrow> (nat \<Rightarrow> bool) \<Rightarrow> runtime option \<Rightarrow> socket_info list" where
  "skyuv_socket_runtime_info cfg alloc rt =
     (case rt of None \<Rightarrow> [] | Some rt \<Rightarrow> info_loop alloc 0 rt (exit_slots cfg))"

section \<open>Polling\<close>

text \<open>
  \<open>uv_run n\<close> is the \<open>n\<close>-th call of \<^verbatim>\<open>uv_run(loop, UV_RUN_ONCE)\<close>: whether handles are still
  active, and the runtime after the callbacks that ran. The wait may not end, so it is
  a partial function.
\<close>

partial_function (option) poll_wait ::
    "(nat \<Rightarrow> runtime \<Rightarrow> bool \<times> runtime) \<Rightarrow> nat \<Rightarrow> runtime \<Rightarrow> (skyuv_error \<times> runtime) option" where
  "poll_wait uv_run n rt =
     (if r_events rt = [] \<and> \<not> r_exit_ready rt
      then (case uv_run n rt of (alive, rt1) \<Rightarrow>
              if \<not> alive \<and> r_events rt1 = [] \<and> \<not> r_exit_ready rt1
              then Some (SKYUV_ERROR_INVALID_STATE, rt1)
              else poll_wait uv_run (Suc n) rt1)
      else Some (SKYUV_OK, rt))"

definition exit_event :: event where
  "exit_event = \<lparr>ev_type = EVENT_EXIT, ev_id = 0, ev_opaque = 0, ev_value = V_int 0,
     ev_data = None, ev_size = 0\<rparr>"

definition take_event :: "runtime \<Rightarrow> event \<times> runtime" where
  "take_event rt =
     (case r_events rt of
        ev # evs \<Rightarrow> (ev, rt\<lparr>r_events := evs\<rparr>)
      | [] \<Rightarrow> (exit_event, rt\<lparr>r_exit_ready := False\<rparr>))"

definition skyuv_socket_runtime_poll ::
    "uv_env \<Rightarrow> (nat \<Rightarrow> runtime \<Rightarrow> bool \<times> runtime) \<Rightarrow> runtime option \<Rightarrow> bool
      \<Rightarrow> (skyuv_error \<times> event option \<times> runtime option) option" where
  "skyuv_socket_runtime_poll env uv_run rt event_ptr =
     (case rt of
        None \<Rightarrow> Some (SKYUV_ERROR_INVALID_ARGUMENT, None, None)
      | Some rt \<Rightarrow>
          if \<not> event_ptr then Some (SKYUV_ERROR_INVALID_ARGUMENT, None, Some rt)
          else case initialize_process_signals env rt of
            (result, rt1) \<Rightarrow>
              if result \<noteq> SKYUV_OK then Some (SKYUV_ERROR_SYSTEM, None, Some rt1)
              else case poll_wait uv_run 0 rt1 of
                     None \<Rightarrow> None
                   | Some (r, rt2) \<Rightarrow>
                       if r \<noteq> SKYUV_OK then Some (r, None, Some rt2)
                       else case take_event rt2 of
                              (ev, rt3) \<Rightarrow> Some (SKYUV_OK, Some ev, Some rt3))"

section \<open>Releasing a runtime\<close>

definition release_slot :: "build_config \<Rightarrow> u16 \<Rightarrow> runtime \<Rightarrow> runtime" where
  "release_slot cfg slot rt =
     (case r_slots rt slot of
        None \<Rightarrow> rt
      | Some e \<Rightarrow>
          if e_initialized e \<and> \<not> uv_is_closing rt (H_socket (e_id e)) then begin_close cfg (e_id e) rt
          else if \<not> e_initialized e then rt\<lparr>r_slots := (r_slots rt)(slot := None)\<rparr>
          else rt)"

text \<open>
  \<open>uv_run\<close> is \<^verbatim>\<open>uv_run(loop, UV_RUN_DEFAULT)\<close> repeated until no handle is active: the
  remaining callbacks. The result is the runtime whose memory is then freed.
\<close>

definition event_buffers :: "event list \<Rightarrow> ptr list" where
  "event_buffers evs = List.map_filter (\<lambda>ev. case ev_data ev of Some (p, _) \<Rightarrow> p | None \<Rightarrow> None) evs"

definition released_runtime :: "build_config \<Rightarrow> (runtime \<Rightarrow> runtime) \<Rightarrow> runtime \<Rightarrow> runtime" where
  "released_runtime cfg uv_run rt =
     (let rt1 = fold (release_slot cfg) (exit_slots cfg) rt;
          rt2 = (if \<not> uv_is_closing rt1 H_async then uv_close H_async rt1 else rt1);
          rt3 = uv_run (close_process_signals rt2)
      in case skyuv_socket_command_queue_destroy (Some (r_commands rt3)) of
           (q, released) \<Rightarrow>
             rt3\<lparr>r_commands := the q, r_released := r_released rt3 @ released,
                 r_freed := r_freed rt3 @ event_buffers (r_events rt3), r_events := []\<rparr>)"

text \<open>The caller's variable afterwards, and the runtime that was freed, if any.\<close>

definition skyuv_socket_runtime_release ::
    "build_config \<Rightarrow> (runtime \<Rightarrow> runtime) \<Rightarrow> runtime option option
      \<Rightarrow> runtime option option \<times> runtime option" where
  "skyuv_socket_runtime_release cfg uv_run var =
     (case var of
        Some (Some rt) \<Rightarrow> (Some None, Some (released_runtime cfg uv_run rt))
      | _ \<Rightarrow> (var, None))"

end
