(* ===== verification/Socket_Loop.thy ===== *)
theory Socket_Loop
  imports Socket_Views
begin

text \<open>
  The two loops of \<^verbatim>\<open>consume_commands\<close>. They end because no handler adds a command or puts
  a socket back on the pump list behind the loop that is running: the handlers leave
  the command queue, the wake-up flag and the log of taken buffers alone.
\<close>

section \<open>What no handler touches\<close>

definition outer :: "runtime \<Rightarrow> command_queue \<times> bool \<times> buffer list" where
  "outer rt = (r_commands rt, l_async (r_loop rt), r_taken rt)"

lemma outer_basic [frame_simps]:
  "outer (raise_fault f rt) = outer rt"
  "outer (enqueue_event ev rt) = outer rt"
  "outer (push_event env ty j opq v rt) = outer rt"
  "outer (free_buffer base rt) = outer rt"
  "outer (release_writes ws rt) = outer rt"
  "outer (update_exit_ready rt) = outer rt"
  "outer (uv_close h rt) = outer rt"
  "outer (uv_forget h rt) = outer rt"
  "outer (rt\<lparr>r_pump := p\<rparr>) = outer rt"
  "outer (rt\<lparr>r_released := q\<rparr>) = outer rt"
  "outer (rt\<lparr>r_exiting := b\<rparr>) = outer rt"
  "outer (rt\<lparr>r_next_slot := k\<rparr>) = outer rt"
  "outer (rt\<lparr>r_process_shutdown_requested := z\<rparr>) = outer rt"
  by (auto simp: outer_def basic_defs uv_close_def uv_forget_def split: option.splits)

lemma outer_upd_loop [frame_simps]:
  "(\<And>l. l_async (g l) = l_async l) \<Longrightarrow> outer (upd_loop g rt) = outer rt"
  by (simp add: outer_def upd_loop_def)

lemma outer_deref [frame_simps]:
  "(\<And>e. outer (k e) = outer rt) \<Longrightarrow> outer (deref cfg rt i k) = outer rt"
  by (simp add: deref_def frame_simps split: option.split)

lemma outer_entry [frame_simps]:
  "outer (upd_entry cfg i h rt) = outer rt"
  "outer (remove_entry cfg i rt) = outer rt"
  unfolding upd_entry_def remove_entry_def by (rule outer_deref, simp add: outer_def)+

lemma outer_steps [frame_simps]:
  "outer (set_entry_state cfg i st rt) = outer rt"
  "outer (begin_close cfg i rt) = outer rt"
  "outer (reject_entry cfg env i err rt) = outer rt"
  "outer (finish_entry cfg env i ty v rt) = outer rt"
  "outer (discard_uninitialized_entry cfg i rt) = outer rt"
  "outer (close_entry cfg i rt) = outer rt"
  "outer (cache_tcp_name cfg env i rt) = outer rt"
  "outer (start_reading cfg env i rt) = outer rt"
  "outer (uv_read_stop env i rt) = outer rt"
  "outer (close_after_writes cfg i rt) = outer rt"
  by (simp_all add: set_entry_state_def begin_close_def reject_entry_def finish_entry_def
      discard_uninitialized_entry_def close_entry_def cache_tcp_name_def start_reading_def
      uv_read_stop_def close_after_writes_def frame_simps split: prod.split option.split)

lemma outer_submit_write [frame_simps]: "outer (submit_write cfg env i w rt) = outer rt"
  by (simp add: submit_write_def Let_def frame_simps outer_deref)

lemma outer_pump_write [frame_simps]: "outer (pump_write cfg env i rt) = outer rt"
  unfolding pump_write_def by (rule outer_deref) (simp add: frame_simps split: list.split)

lemma outer_pump_one [frame_simps]: "outer (pump_one cfg env i rt) = outer rt"
  by (simp add: pump_one_def Let_def frame_simps outer_deref)

lemma outer_exit_slot [frame_simps]: "outer (exit_slot cfg s rt) = outer rt"
  by (simp add: exit_slot_def frame_simps split: option.split)

lemma outer_process_exit [frame_simps]: "outer (process_exit cfg rt) = outer rt"
proof -
  have "outer (fold (exit_slot cfg) ss rt) = outer rt" for ss rt
    by (induction ss arbitrary: rt) (simp_all add: frame_simps)
  moreover have "outer (close_process_signals rt) = outer rt" for rt
    by (simp add: close_process_signals_def close_process_signal_def frame_simps)
  ultimately show ?thesis by (simp add: process_exit_def frame_simps)
qed

lemma outer_commands [frame_simps]:
  "outer (process_listen cfg env c rt) = outer rt"
  "outer (process_connect cfg env c rt) = outer rt"
  "outer (process_bind cfg env c rt) = outer rt"
  "outer (process_udp cfg env c rt) = outer rt"
  "outer (process_udp_connect cfg env c rt) = outer rt"
  "outer (process_start cfg env c rt) = outer rt"
  "outer (process_pause cfg env c rt) = outer rt"
  "outer (process_nodelay cfg env c rt) = outer rt"
  "outer (process_close cfg env c rt) = outer rt"
  by (simp_all add: process_listen_def process_connect_def process_bind_def process_udp_def
      process_udp_connect_def process_start_def process_pause_def process_nodelay_def
      process_close_def Let_def frame_simps split: option.split prod.split)

lemma outer_sends [frame_simps]:
  "outer (snd (process_udp_send cfg env c rt)) = outer rt"
  "outer (enqueue_write cfg env c e rt) = outer rt"
  "outer (snd (process_send cfg env c rt)) = outer rt"
proof -
  show udp: "outer (snd (process_udp_send cfg env c rt)) = outer rt"
    by (simp add: process_udp_send_def Let_def frame_simps split: option.split sum.split)
  show enq: "outer (enqueue_write cfg env c e rt) = outer rt" for e
    by (cases "write_warning (queue_write c e)") (auto simp: enqueue_write_def Let_def frame_simps)
  show "outer (snd (process_send cfg env c rt)) = outer rt"
    by (simp add: process_send_def Let_def frame_simps udp enq split: option.split)
qed

lemma outer_process_command [frame_simps]: "outer (process_command cfg env c rt) = outer rt"
proof -
  have "outer (snd (dispatch_command cfg env c rt)) = outer rt"
    by (simp add: dispatch_command_def frame_simps split: command_type.split)
  then show ?thesis
    by (cases "dispatch_command cfg env c rt") (simp add: process_command_def frame_simps)
qed


section \<open>The loops\<close>

text \<open>
  \<open>envs n\<close> is the environment of the \<open>n\<close>-th iteration. The functions process what is in
  the queue when they start; commands that arrive while the loop runs are processed as
  well, which the step relation of the whole system covers.
\<close>

lemma pop_command_Some:
  assumes "pop_command rt = (Some c, rt1)"
  shows "q_items (r_commands rt) = c # q_items (r_commands rt1)"
    and "rt1 = rt\<lparr>r_commands := (r_commands rt)\<lparr>q_items := q_items (r_commands rt1)\<rparr>\<rparr>"
  using assms by (auto simp: pop_command_def skyuv_socket_command_queue_pop_def
      split: if_splits list.splits)

lemma outer_commands_eq: "outer rt' = outer rt \<Longrightarrow> r_commands rt' = r_commands rt"
  by (simp add: outer_def)

function drain_commands :: "build_config \<Rightarrow> (nat \<Rightarrow> uv_env) \<Rightarrow> nat \<Rightarrow> runtime \<Rightarrow> nat \<times> runtime" where
  "drain_commands cfg envs n rt =
     (case pop_command rt of
        (None, rt1) \<Rightarrow> (n, rt1)
      | (Some c, rt1) \<Rightarrow> drain_commands cfg envs (Suc n) (process_command cfg (envs n) c rt1))"
  by pat_completeness auto
termination
proof (relation "measure (\<lambda>(cfg, envs, n, rt). length (q_items (r_commands rt)))", goal_cases)
  case 1
  show ?case by simp
next
  case (2 cfg envs n rt o' rt1 c)
  then have "q_items (r_commands rt) = c # q_items (r_commands rt1)"
    by (metis pop_command_Some(1))
  moreover have "r_commands (process_command cfg (envs n) c rt1) = r_commands rt1"
    by (rule outer_commands_eq) (simp add: frame_simps)
  ultimately show ?case by simp
qed

declare drain_commands.simps [simp del]


lemma r_pump_deref [frame_simps]:
  "(\<And>e. r_pump (k e) = r_pump rt) \<Longrightarrow> r_pump (deref cfg rt i k) = r_pump rt"
  by (simp add: deref_def frame_simps split: option.split)

lemma r_pump_steps [frame_simps]:
  "r_pump (set_entry_state cfg i st rt) = r_pump rt"
  "r_pump (begin_close cfg i rt) = r_pump rt"
  "r_pump (finish_entry cfg env i ty v rt) = r_pump rt"
  "r_pump (submit_write cfg env i w rt) = r_pump rt"
  by (simp_all add: set_entry_state_def begin_close_def finish_entry_def submit_write_def Let_def
      frame_simps r_pump_deref)

lemma r_pump_pump_write [frame_simps]: "r_pump (pump_write cfg env i rt) = r_pump rt"
  unfolding pump_write_def by (rule r_pump_deref) (simp add: frame_simps split: list.split)

lemma r_pump_pump_one: "r_pump (pump_one cfg env i rt) = tl (r_pump rt)"
proof -
  let ?rt1 = "upd_entry cfg i (\<lambda>e. e\<lparr>e_pump_pending := False\<rparr>) (rt\<lparr>r_pump := tl (r_pump rt)\<rparr>)"
  have "r_pump (pump_one cfg env i rt) = r_pump ?rt1"
    unfolding pump_one_def Let_def by (rule r_pump_deref) (simp add: frame_simps)
  then show ?thesis by (simp add: frame_simps)
qed

function drain_pump :: "build_config \<Rightarrow> (nat \<Rightarrow> uv_env) \<Rightarrow> nat \<Rightarrow> runtime \<Rightarrow> runtime" where
  "drain_pump cfg envs n rt =
     (case r_pump rt of
        [] \<Rightarrow> rt
      | i # _ \<Rightarrow> drain_pump cfg envs (Suc n) (pump_one cfg (envs n) i rt))"
  by pat_completeness auto
termination
  by (relation "measure (\<lambda>(cfg, envs, n, rt). length (r_pump rt))") (auto simp: r_pump_pump_one)

declare drain_pump.simps [simp del]

definition consume_commands :: "build_config \<Rightarrow> (nat \<Rightarrow> uv_env) \<Rightarrow> runtime \<Rightarrow> runtime" where
  "consume_commands cfg envs rt =
     (case drain_commands cfg envs 0 rt of (n, rt1) \<Rightarrow> drain_pump cfg envs n rt1)"

text \<open>When the callback returns, the queue and the pump list are empty.\<close>

lemma drain_commands_empty:
  "q_mutex (r_commands rt) \<Longrightarrow> q_items (r_commands (snd (drain_commands cfg envs n rt))) = []"
proof (induction cfg envs n rt rule: drain_commands.induct)
  case (1 cfg envs n rt)
  show ?case
  proof (cases "q_items (r_commands rt)")
    case Nil
    then have "pop_command rt = (None, rt\<lparr>r_commands := r_commands rt\<rparr>)"
      using 1(2) by (simp add: pop_command_def skyuv_socket_command_queue_pop_def)
    with Nil show ?thesis by (simp add: drain_commands.simps)
  next
    case (Cons c cs)
    let ?rt1 = "rt\<lparr>r_commands := (r_commands rt)\<lparr>q_items := cs\<rparr>\<rparr>"
    have pop: "pop_command rt = (Some c, ?rt1)"
      using Cons 1(2) by (simp add: pop_command_def skyuv_socket_command_queue_pop_def)
    have "r_commands (process_command cfg (envs n) c ?rt1) = r_commands ?rt1"
      by (rule outer_commands_eq) (simp add: frame_simps)
    then show ?thesis
      using 1(1) [OF pop [symmetric] refl] 1(2) pop by (simp add: drain_commands.simps [of cfg envs n rt])
  qed
qed

lemma drain_pump_empty: "r_pump (drain_pump cfg envs n rt) = []"
  by (induction cfg envs n rt rule: drain_pump.induct) (subst drain_pump.simps, simp split: list.split)

lemma outer_drain_pump [frame_simps]: "outer (drain_pump cfg envs n rt) = outer rt"
  by (induction cfg envs n rt rule: drain_pump.induct)
     (subst drain_pump.simps, simp add: frame_simps split: list.split)

section \<open>What no callback touches\<close>

text \<open>The other callbacks leave the pump list alone as well.\<close>

definition quiet :: "runtime \<Rightarrow> (command_queue \<times> bool \<times> buffer list) \<times> sock_id list" where
  "quiet rt = (outer rt, r_pump rt)"

lemma quiet_deref:
  "(\<And>e. quiet (k e) = quiet rt) \<Longrightarrow> quiet (deref cfg rt i k) = quiet rt"
  by (simp add: quiet_def frame_simps)

lemma quiet_basic:
  "quiet (raise_fault f rt) = quiet rt"
  "quiet (enqueue_event ev rt) = quiet rt"
  "quiet (push_event env ty j opq v rt) = quiet rt"
  "quiet (free_buffer base rt) = quiet rt"
  "quiet (release_writes ws rt) = quiet rt"
  "quiet (update_exit_ready rt) = quiet rt"
  "quiet (uv_close h rt) = quiet rt"
  "quiet (upd_entry cfg i k rt) = quiet rt"
  "quiet (remove_entry cfg i rt) = quiet rt"
  "quiet (begin_close cfg i rt) = quiet rt"
  "quiet (set_entry_state cfg i st rt) = quiet rt"
  "quiet (finish_entry cfg env i ty v rt) = quiet rt"
  "quiet (pump_write cfg env i rt) = quiet rt"
  "(\<And>l. l_async (g l) = l_async l) \<Longrightarrow> quiet (upd_loop g rt) = quiet rt"
  by (simp_all add: quiet_def frame_simps)

lemma quiet_steps:
  "quiet (reject_entry cfg env i err rt) = quiet rt"
  "quiet (discard_uninitialized_entry cfg i rt) = quiet rt"
  "quiet (close_entry cfg i rt) = quiet rt"
  "quiet (close_after_writes cfg i rt) = quiet rt"
  "quiet (start_reading cfg env i rt) = quiet rt"
  "quiet (cache_tcp_name cfg env i rt) = quiet rt"
  "quiet (push_data_event cfg env i base bs rt) = quiet rt"
  "quiet (uv_forget h rt) = quiet rt"
  "quiet (uv_write_done w rt) = quiet rt"
  "quiet (uv_udp_send_done w rt) = quiet rt"
  "quiet (uv_connect_done i rt) = quiet rt"
  by (simp_all add: reject_entry_def discard_uninitialized_entry_def close_entry_def
      close_after_writes_def start_reading_def cache_tcp_name_def push_data_event_def uv_forget_def
      uv_write_done_def uv_udp_send_done_def uv_connect_done_def quiet_basic quiet_deref
      split: prod.split option.split)

lemma quiet_reserve_loop: "quiet (snd (snd (reserve_loop cfg alloc opq n rt))) = quiet rt"
proof (induction n arbitrary: rt)
  case (Suc n)
  then show ?case by (simp add: Let_def) (simp add: quiet_def outer_def)
qed simp

lemma quiet_accept: "quiet (accept_connection cfg env i status rt) = quiet rt"
proof -
  have "quiet (case reserve_entry cfg al opq rt of (r, j, rt1) \<Rightarrow> k r j rt1) = quiet rt"
    if "\<And>r j rt1. quiet (k r j rt1) = quiet rt1" for al opq k
    using quiet_reserve_loop [of cfg al opq _ rt] that
    by (cases "reserve_entry cfg al opq rt") (metis prod.case reserve_entry_def snd_conv)
  then show ?thesis
    unfolding accept_connection_def
    by (intro quiet_deref) (simp add: quiet_basic quiet_steps Let_def)
qed

lemma quiet_write_completed: "quiet (write_completed cfg env w status rt) = quiet rt"
  unfolding write_completed_def Let_def
  by (intro quiet_deref) (simp add: quiet_basic quiet_steps quiet_deref)

lemma quiet_reads:
  "quiet (read_completed cfg env i nread base rt) = quiet rt"
  "quiet (udp_received cfg env i nread base addr rt) = quiet rt"
proof -
  have d: "quiet (deref cfg (free_buffer base rt) i k) = quiet rt"
    if "\<And>e. quiet (k e) = quiet (free_buffer base rt)" for k
    using quiet_deref [of k "free_buffer base rt" cfg i, OF that] by (simp add: quiet_basic)
  show "quiet (read_completed cfg env i nread base rt) = quiet rt"
    by (simp add: read_completed_def Let_def quiet_basic quiet_steps d split: read_result.split)
  show "quiet (udp_received cfg env i nread base addr rt) = quiet rt"
    by (simp add: udp_received_def Let_def quiet_basic quiet_steps d
        split: read_result.split option.split)
qed

lemma quiet_callbacks:
  "quiet (udp_write_completed cfg env w status rt) = quiet rt"
  "quiet (connect_completed cfg env i status rt) = quiet rt"
  by (simp_all add: udp_write_completed_def connect_completed_def Let_def quiet_basic quiet_steps
      quiet_deref)

lemma quiet_signals:
  "quiet (on_hangup_signal cfg env rt) = quiet rt"
  "quiet (on_termination_signal env rt) = quiet rt"
  "quiet (snd (initialize_process_signals env rt)) = quiet rt"
proof -
  have field: "quiet (rt\<lparr>r_process_shutdown_requested := z\<rparr>) = quiet rt"
    "quiet (rt\<lparr>r_signal_initialized := a\<rparr>) = quiet rt"
    "quiet (rt\<lparr>r_process_signals_initialized := b\<rparr>) = quiet rt"
    "quiet (rt\<lparr>r_process_signals_failed := b\<rparr>) = quiet rt" for z a b rt
    by (simp_all add: quiet_def outer_def)
  show "quiet (on_hangup_signal cfg env rt) = quiet rt" "quiet (on_termination_signal env rt) = quiet rt"
    by (simp_all add: on_hangup_signal_def on_termination_signal_def quiet_basic field)
  have cl: "quiet (close_process_signals rt) = quiet rt" for rt
    by (simp add: close_process_signals_def close_process_signal_def quiet_basic)
  have one: "quiet rt2 = quiet rt1" if "initialize_process_signal env g rt1 = (r, rt2)" for g rt1 r rt2
    using that by (auto simp: initialize_process_signal_def field split: if_splits)
  let ?rt = "rt\<lparr>r_process_signals_initialized := True\<rparr>"
  obtain r1 rt1 where 1: "initialize_process_signal env Hangup ?rt = (r1, rt1)" by fastforce
  obtain r2 rt2 where 2: "(if r1 = UV_OK then initialize_process_signal env Interrupt rt1
      else (r1, rt1)) = (r2, rt2)" by fastforce
  obtain r3 rt3 where 3: "(if r2 = UV_OK then initialize_process_signal env Termination rt2
      else (r2, rt2)) = (r3, rt3)" by fastforce
  have "quiet rt3 = quiet rt"
    using one [OF 1] 2 3 one by (auto simp: field split: if_splits)
  then show "quiet (snd (initialize_process_signals env rt)) = quiet rt"
    by (simp add: initialize_process_signals_def Let_def 1 2 3 field cl)
qed

end
