(* ===== verification/Socket_Machine.thy ===== *)
theory Socket_Machine
  imports Socket_Exit Socket_Api Socket_Loop
begin

text \<open>
  The whole socket runtime as a transition system: the interface functions called by
  any thread, and the network thread that runs the wake-up callback and the other
  callbacks of the loop. The invariant \<open>runtime_ok\<close> holds in every reachable state in
  which no fault has occurred, and the only fault that can occur is a second
  \<^verbatim>\<open>uv_close\<close> in \<^verbatim>\<open>write_completed\<close>.
\<close>

section \<open>The interface functions preserve the invariant\<close>

lemma queue_ok_push:
  assumes "queue_ok ex q" and "command_ok c" and "q_accepting q" and "c_type c \<noteq> COMMAND_EXIT"
  shows "queue_ok ex (queue_push_locked q c)"
  using assms by (auto simp: queue_ok_def queue_push_locked_def)

text \<open>Changing the queue and the wake-up flag leaves the sockets and the table alone.\<close>

lemma ok_queue:
  assumes "runtime_ok cfg rt" and "queue_ok (r_exiting rt) q"
  shows "runtime_ok cfg (upd_loop (\<lambda>l. l\<lparr>l_async := b\<rparr>) (rt\<lparr>r_commands := q\<rparr>))"
    and "runtime_ok cfg (rt\<lparr>r_commands := q\<rparr>)"
  using assms
  by (auto simp: runtime_ok_def upd_loop_def sview_def find_entry_def table_ok_def exit_ok_def
      globals_def ids_of_def other_closing_def)

lemma submit_cases:
  assumes "skyuv_socket_runtime_submit rt c = (r, rt')"
  shows "r \<noteq> SKYUV_OK \<and> rt' = rt \<or>
    r = SKYUV_OK \<and> q_accepting (r_commands rt) \<and> c_type c \<noteq> COMMAND_EXIT \<and>
    rt' = upd_loop (\<lambda>l. l\<lparr>l_async := True\<rparr>) (rt\<lparr>r_commands := queue_push_locked (r_commands rt) c\<rparr>)"
  using assms
  by (auto simp: skyuv_socket_runtime_submit_def skyuv_socket_command_queue_push_def split: if_splits)

lemma ok_submit:
  assumes "runtime_ok cfg rt" and "command_ok c" and "skyuv_socket_runtime_submit rt c = (r, rt')"
  shows "runtime_ok cfg rt'"
  using submit_cases [OF assms(3)]
proof (elim disjE conjE)
  assume "q_accepting (r_commands rt)" and "c_type c \<noteq> COMMAND_EXIT"
    and rt': "rt' = upd_loop (\<lambda>l. l\<lparr>l_async := True\<rparr>)
      (rt\<lparr>r_commands := queue_push_locked (r_commands rt) c\<rparr>)"
  then have "queue_ok (r_exiting rt) (queue_push_locked (r_commands rt) c)"
    using assms(1,2) by (intro queue_ok_push) (simp_all add: runtime_ok_def)
  from ok_queue(1) [OF assms(1) this] show ?thesis by (simp add: rt')
qed (simp add: assms(1))

lemma ok_exit:
  assumes "runtime_ok cfg rt" and "skyuv_socket_runtime_exit a (Some rt) = (r, Some rt')"
  shows "runtime_ok cfg rt'"
proof -
  have q: "queue_ok (r_exiting rt) (r_commands rt)" using assms(1) by (simp add: runtime_ok_def)
  have "queue_ok (r_exiting rt) (queue_push_locked ((r_commands rt)\<lparr>q_accepting := False\<rparr>)
      (command0\<lparr>c_type := COMMAND_EXIT\<rparr>))" if "q_accepting (r_commands rt)"
    using q that by (auto simp: queue_ok_def queue_push_locked_def command_ok_def is_send_command_def)
  with assms ok_queue [OF assms(1)] show ?thesis
    by (auto simp: skyuv_socket_runtime_exit_def skyuv_socket_command_queue_stop_def split: if_splits)
qed

lemma ok_submit_for_id:
  assumes "runtime_ok cfg rt" and "command_ok c" and "submit_for_id a (Some rt) c = (r, Some rt')"
  shows "runtime_ok cfg rt'"
  using assms ok_submit [OF assms(1,2)]
  by (cases "skyuv_socket_runtime_submit rt c") (auto simp: submit_for_id_def split: if_splits)

lemma runtime_ok_logs [simp]:
  "runtime_ok cfg (rt\<lparr>r_taken := q\<rparr>) = runtime_ok cfg rt"
  "runtime_ok cfg (rt\<lparr>r_current_time := tm\<rparr>) = runtime_ok cfg rt"
  "runtime_ok cfg (rt\<lparr>r_process_shutdown_requested := z\<rparr>) = runtime_ok cfg rt"
  "runtime_ok cfg (rt\<lparr>r_events := evs\<rparr>) = runtime_ok cfg rt"
  by (rule runtime_ok_cong; auto simp: globals_def ids_of_def fun_eq_iff other_closing_def sview_def
      find_entry_def)+

lemma ok_send_command:
  assumes "runtime_ok cfg rt" and "c_size c \<le> UINT_MAX" and "send_command a own b c rt = (r, rt')"
  shows "runtime_ok cfg rt'"
proof (cases "take_data a own b rt")
  case None
  with assms show ?thesis by (simp add: send_command_def)
next
  case (Some p)
  then obtain b1 rt1 where p: "take_data a own b rt = Some (b1, rt1)" by (cases p) auto
  have ok1: "runtime_ok cfg rt1"
    using p assms(1) by (auto simp: take_data_def split: buffer_ownership.splits option.splits)
  let ?c = "c\<lparr>c_data := snd b1, c_release := fst b1, c_ownership := BUFFER_OWNED\<rparr>"
  obtain r2 rt2 where sub: "skyuv_socket_runtime_submit rt1 ?c = (r2, rt2)" by fastforce
  have "command_ok ?c" using assms(2) by (simp add: command_ok_def)
  from ok_submit [OF ok1 this sub] have ok2: "runtime_ok cfg rt2" .
  with assms(3) p sub ok1 show ?thesis
    by (auto simp: send_command_def Let_def split: if_splits)
qed

lemma ok_runtime_send:
  assumes "runtime_ok cfg rt" and "runtime_send a (Some rt) i data sz own rel low = (r, Some rt')"
  shows "runtime_ok cfg rt'"
proof (cases "sz \<le> UINT_MAX")
  case True
  let ?c = "command0\<lparr>c_type := if low then COMMAND_SEND_LOW else COMMAND_SEND, c_id := i, c_size := sz\<rparr>"
  obtain r2 rt2 where send: "send_command a own (rel, data) ?c rt = (r2, rt2)" by fastforce
  have "runtime_ok cfg rt2" using ok_send_command [OF assms(1) _ send] True by simp
  with assms send show ?thesis by (simp add: runtime_send_def split: if_splits)
qed (use assms in \<open>simp add: runtime_send_def not_le\<close>)

lemma ok_udp_send:
  assumes "runtime_ok cfg rt"
    and "skyuv_socket_runtime_udp_send a (Some rt) i addr asz data sz own rel = (r, Some rt')"
  shows "runtime_ok cfg rt'"
proof (cases "sz \<le> UINT_MAX")
  case True
  let ?c = "command0\<lparr>c_type := COMMAND_UDP_SEND, c_id := i, c_size := sz, c_address_size := asz,
    c_address := (case addr of None \<Rightarrow> [] | Some bs \<Rightarrow> take (unat asz) bs)\<rparr>"
  obtain r2 rt2 where send: "send_command a own (rel, data) ?c rt = (r2, rt2)" by fastforce
  have "runtime_ok cfg rt2" using ok_send_command [OF assms(1) _ send] True by simp
  with assms send show ?thesis by (simp add: skyuv_socket_runtime_udp_send_def split: if_splits)
qed (use assms in \<open>simp add: skyuv_socket_runtime_udp_send_def not_le\<close>)

lemma table_ok_generations:
  assumes "table_ok cfg g" and "g_ids g' = g_ids g" and "g_count g' = g_count g"
    and "\<And>t i. g_ids g t = Some i \<Longrightarrow> g_generations g' t = g_generations g t"
  shows "table_ok cfg g'"
  using assms by (simp add: table_ok_def)

text \<open>
  Discarding an entry that was only just reserved gives the invariant back, also while
  the runtime is exiting.
\<close>

lemma ok_reserve_discard:
  assumes cfg: "cfg_ok cfg" and ok: "runtime_ok cfg rt"
    and vs: "valid_slot cfg s" and none: "r_slots rt s = None" and id: "\<And>e. e_id (f e) = e_id e"
  defines "i \<equiv> skyuv_socket_id_make cfg s (skyuv_socket_id_next_generation (r_generations rt s))"
  shows "runtime_ok cfg (discard_uninitialized_entry cfg i (upd_entry cfg i f (reserved_in cfg opq s k rt)))"
    (is "runtime_ok cfg ?rt")
proof -
  let ?new = "upd_entry cfg i f (reserved_in cfg opq s k rt)"
  note F = find_entry_reserved_in [OF cfg vs none, folded i_def]
  have new: "find_entry cfg ?new i = Some (f (reserved_entry i opq))"
    by (simp add: frame_simps id F)
  have slot: "skyuv_socket_id_slot cfg i = s"
    unfolding i_def by (rule id_slot_make [OF cfg vs next_generation_valid])
  have ids: "ids_of rt s = None" using none by (simp add: ids_of_def)
  have views: "sview cfg ?rt j = sview cfg rt j" for j
    by (simp add: discard_uninitialized_entry_def sview_def frame_simps id F)
  have eq: "globals ?rt = removed_globals cfg i (globals (reserved_in cfg opq s k rt))"
    using globals_remove_entry [OF new]
    by (simp only: discard_uninitialized_entry_def globals_upd_entry [OF id])
  have g: "g_exiting (globals ?rt) = r_exiting rt" "g_commands (globals ?rt) = r_commands rt"
    "g_ids (globals ?rt) = ids_of rt" "g_count (globals ?rt) = r_entry_count rt"
    "g_closing (globals ?rt) = other_closing rt"
    "\<forall>t. t \<noteq> s \<longrightarrow> g_generations (globals ?rt) t = r_generations rt t"
    "g_exit_ready (globals ?rt) \<longrightarrow> r_exit_ready rt \<or> r_exiting rt \<and> r_entry_count rt = 0"
    unfolding eq globals_reserved_in removed_globals_def Let_def slot
    by (auto simp: globals_def ids fun_upd_idem)
  have "r_fault ?rt = None"
    using new runtime_ok_fault [OF ok] F
    by (simp add: discard_uninitialized_entry_def frame_simps id)
  moreover have "r_exiting ?rt = r_exiting rt" "r_commands ?rt = r_commands rt"
    using g(1,2) by (simp_all add: globals_def)
  moreover have "table_ok cfg (globals ?rt)"
  proof (rule table_ok_generations [of cfg "globals rt"])
    fix t j assume "g_ids (globals rt) t = Some j"
    then have "t \<noteq> s" using ids by (auto simp: globals_def)
    then show "g_generations (globals ?rt) t = g_generations (globals rt) t"
      using g(6) by (simp add: globals_def)
  qed (use ok g in \<open>simp_all add: runtime_ok_def, simp_all add: globals_def\<close>)
  moreover have "exit_ok (globals ?rt)"
    unfolding exit_ok_def g using ok g(7) by (auto simp: runtime_ok_def exit_ok_def globals_def)
  ultimately show ?thesis using ok by (simp add: runtime_ok_def views)
qed

lemma ok_open_socket:
  assumes cfg: "cfg_ok cfg" and ok: "runtime_ok cfg rt" and c: "\<not> is_send_command (c_type c)"
    and res: "open_socket cfg a opq host c rt = (r, i', rt')"
  shows "runtime_ok cfg rt'"
proof -
  obtain r1 i rt1 where r: "reserve_entry cfg (a_entry a) opq rt = (r1, i, rt1)"
    by (cases "reserve_entry cfg (a_entry a) opq rt")
  note cases = reserve_loop_cases [OF cfg r [unfolded reserve_entry_def]]
  show ?thesis
  proof (cases "r1 = SKYUV_OK")
    case False
    then have "runtime_ok cfg rt1" using cases ok by auto
    with False r res show ?thesis by (simp add: open_socket_def)
  next
    case True
    then obtain s k where none: "r_slots rt s = None" and vs: "valid_slot cfg s"
      and i: "i = skyuv_socket_id_make cfg s (skyuv_socket_id_next_generation (r_generations rt s))"
      and rt1: "rt1 = reserved_in cfg opq s k rt"
      using cases by auto
    have find: "find_entry cfg rt1 i = Some (reserved_entry i opq)"
      unfolding rt1 i by (simp add: find_entry_reserved_in [OF cfg vs none])
    have dis: "runtime_ok cfg (discard_uninitialized_entry cfg i rt1)"
      using ok_reserve_discard [OF cfg ok vs none, of "\<lambda>e. e" opq k, folded i rt1]
      by (simp add: upd_entry_id [OF find])
    let ?c = "c\<lparr>c_host := copy_string (a_string a) (Some host), c_id := i, c_opaque := opq\<rparr>"
    obtain r2 rt2 where sub: "skyuv_socket_runtime_submit rt1 ?c = (r2, rt2)" by fastforce
    have "runtime_ok cfg rt2" if "r2 = SKYUV_OK"
    proof -
      have "q_accepting (r_commands rt)"
        using submit_cases [OF sub] that by (simp add: rt1 frame_simps)
      then have "\<not> r_exiting rt" using ok by (auto simp: runtime_ok_def queue_ok_def)
      from ok_submit [OF ok_reserved_in [OF cfg ok this vs none] _ sub [unfolded rt1]] c
      show ?thesis by (simp add: command_ok_def)
    qed
    with True r res dis sub submit_cases [OF sub] show ?thesis
      by (auto simp: open_socket_def Let_def split: if_splits)
  qed
qed

lemma ok_bind:
  assumes cfg: "cfg_ok cfg" and ok: "runtime_ok cfg rt"
    and res: "skyuv_socket_runtime_bind cfg a (Some rt) fd opq p = (r, i', Some rt')"
  shows "runtime_ok cfg rt'"
proof -
  obtain r1 i rt1 where r: "reserve_entry cfg (a_entry a) opq rt = (r1, i, rt1)"
    by (cases "reserve_entry cfg (a_entry a) opq rt")
  note cases = reserve_loop_cases [OF cfg r [unfolded reserve_entry_def]]
  show ?thesis
  proof (cases "r1 = SKYUV_OK")
    case False
    then have "runtime_ok cfg rt1" using cases ok by auto
    with False r res ok show ?thesis by (auto simp: skyuv_socket_runtime_bind_def split: if_splits)
  next
    case True
    then obtain s k where none: "r_slots rt s = None" and vs: "valid_slot cfg s"
      and i: "i = skyuv_socket_id_make cfg s (skyuv_socket_id_next_generation (r_generations rt s))"
      and rt1: "rt1 = reserved_in cfg opq s k rt"
      using cases by auto
    let ?f = "\<lambda>e. e\<lparr>e_external_fd := fd\<rparr>"
    have find: "find_entry cfg rt1 i = Some (reserved_entry i opq)"
      unfolding rt1 i by (simp add: find_entry_reserved_in [OF cfg vs none])
    have dis: "runtime_ok cfg (discard_uninitialized_entry cfg i rt1)"
      using ok_reserve_discard [OF cfg ok vs none, of "\<lambda>e. e" opq k, folded i rt1]
      by (simp add: upd_entry_id [OF find])
    have dis2: "runtime_ok cfg (discard_uninitialized_entry cfg i (upd_entry cfg i ?f rt1))"
      using ok_reserve_discard [OF cfg ok vs none, of ?f opq k, folded i rt1] by simp
    let ?c = "command0\<lparr>c_type := COMMAND_BIND, c_id := i, c_opaque := opq, c_fd := fd\<rparr>"
    obtain r2 rt2 where sub: "skyuv_socket_runtime_submit (upd_entry cfg i ?f rt1) ?c = (r2, rt2)"
      by fastforce
    have "runtime_ok cfg rt2" if "r2 = SKYUV_OK"
    proof -
      have "r_commands (upd_entry cfg i ?f rt1) = r_commands rt"
        using outer_commands_eq [OF outer_entry(1)] by (simp add: rt1 frame_simps)
      then have "q_accepting (r_commands rt)"
        using submit_cases [OF sub] that by simp
      then have ex: "\<not> r_exiting rt" using ok by (auto simp: runtime_ok_def queue_ok_def)
      have "runtime_ok cfg rt1" unfolding rt1 by (rule ok_reserved_in [OF cfg ok ex vs none])
      then have "runtime_ok cfg (upd_entry cfg i ?f rt1)"
        using find by (rule ok_upd_core) (simp add: core_def)
      from ok_submit [OF this _ sub] show ?thesis by (simp add: command_ok_def is_send_command_def)
    qed
    with True r res dis dis2 sub submit_cases [OF sub] ok show ?thesis
      by (auto simp: skyuv_socket_runtime_bind_def Let_def split: if_splits)
  qed
qed

section \<open>The wake-up callback preserves the invariant\<close>

lemma ok_process_command:
  assumes ok: "runtime_ok cfg rt" and c: "command_ok c" and "c_type c \<noteq> COMMAND_EXIT"
  shows "runtime_ok cfg (process_command cfg env c rt)"
proof -
  have sz: "c_size c \<le> UINT_MAX" if "c_type c = COMMAND_SEND \<or> c_type c = COMMAND_SEND_LOW"
    using c that by (auto simp: command_ok_def is_send_command_def)
  have "runtime_ok cfg (snd (dispatch_command cfg env c rt))"
    using assms(3) ok_process_listen [OF ok] ok_process_connect [OF ok] ok_process_bind [OF ok]
      ok_process_udp [OF ok] ok_process_udp_connect [OF ok] ok_process_udp_send [OF ok]
      ok_process_start [OF ok] ok_process_pause [OF ok] ok_process_nodelay [OF ok]
      ok_process_send [OF ok sz] ok_process_close [OF ok]
    by (cases "c_type c") (simp_all add: dispatch_command_def)
  then show ?thesis
    by (cases "dispatch_command cfg env c rt") (simp add: process_command_def)
qed

lemma ok_pop_process:
  assumes cfg: "cfg_ok cfg" and ok: "runtime_ok cfg rt" and pop: "pop_command rt = (Some c, rt1)"
  shows "runtime_ok cfg (process_command cfg env c rt1)"
proof -
  let ?q = "r_commands rt" and ?q1 = "r_commands rt1"
  have items: "q_items ?q = c # q_items ?q1" and rt1: "rt1 = rt\<lparr>r_commands := ?q\<lparr>q_items := q_items ?q1\<rparr>\<rparr>"
    using pop_command_Some [OF pop] by auto
  have q: "queue_ok (r_exiting rt) ?q" using ok by (simp add: runtime_ok_def)
  have ex: "\<not> r_exiting rt" using q items by (auto simp: queue_ok_def split: if_splits)
  show ?thesis
  proof (cases "c_type c = COMMAND_EXIT")
    case False
    then have "queue_ok (r_exiting rt) (?q\<lparr>q_items := q_items ?q1\<rparr>)"
      using q items ex by (auto simp: queue_ok_def split: if_splits)
    then have "runtime_ok cfg rt1" by (subst rt1) (rule ok_queue(2) [OF ok])
    moreover have "command_ok c" using q items by (simp add: queue_ok_def)
    ultimately show ?thesis using False by (intro ok_process_command)
  next
    case True
    have acc: "\<not> q_accepting ?q" and nil: "q_items ?q1 = []" and mut: "q_mutex ?q"
      using q items ex True by (auto simp: queue_ok_def split: if_splits)
    have ready: "\<not> r_exit_ready rt" using ok ex by (auto simp: runtime_ok_def exit_ok_def globals_def)
    have "before_exit rt1 = rt\<lparr>r_commands := \<lparr>q_mutex = True, q_items = [], q_accepting = True\<rparr>\<rparr>"
      using ex ready by (subst rt1) (simp add: before_exit_def)
    moreover have "queue_ok (r_exiting rt) \<lparr>q_mutex = True, q_items = [], q_accepting = True\<rparr>"
      using ex by (simp add: queue_ok_def)
    ultimately have "runtime_ok cfg (before_exit rt1)" using ok_queue(2) [OF ok] by simp
    moreover have "r_commands rt1 = \<lparr>q_mutex = True, q_items = [], q_accepting = False\<rparr>"
      using acc nil mut by (subst rt1) simp
    moreover have "\<not> r_exit_ready rt1" using ready by (subst rt1) simp
    ultimately have "runtime_ok cfg (process_exit cfg rt1)" by (intro ok_process_exit [OF cfg])
    with True show ?thesis
      by (simp add: process_command_def dispatch_command_def)
  qed
qed

section \<open>Signals and polling\<close>

lemma ok_close_process_signals:
  assumes "runtime_ok cfg rt"
  shows "runtime_ok cfg (close_process_signals rt)"
proof -
  have flags: "r_exiting (close_process_signals rt) = r_exiting rt"
    "r_commands (close_process_signals rt) = r_commands rt"
    using close_process_signals_simps(5) [of rt] by (simp_all add: exit_flags_def)
  have "H_async \<in> set (other_closing (close_process_signals rt)) \<longleftrightarrow> H_async \<in> set (other_closing rt)"
    using close_process_signals_simps(4) [of rt] by (simp add: other_closing_def)
  with assms show ?thesis
    by (auto simp: runtime_ok_def table_ok_def exit_ok_def globals_def flags frame_simps)
qed

lemma runtime_ok_signal_fields [simp]:
  "runtime_ok cfg (rt\<lparr>r_signal_initialized := a\<rparr>) = runtime_ok cfg rt"
  "runtime_ok cfg (rt\<lparr>r_process_signals_initialized := b\<rparr>) = runtime_ok cfg rt"
  "runtime_ok cfg (rt\<lparr>r_process_signals_failed := b\<rparr>) = runtime_ok cfg rt"
  by (rule runtime_ok_cong; auto simp: globals_def ids_of_def fun_eq_iff other_closing_def sview_def
      find_entry_def)+

lemma ok_initialize_process_signals:
  assumes "runtime_ok cfg rt"
  shows "runtime_ok cfg (snd (initialize_process_signals env rt))"
  using assms
  by (auto simp: initialize_process_signals_def initialize_process_signal_def Let_def
      intro!: ok_close_process_signals)

lemma ok_take_event:
  assumes "runtime_ok cfg rt"
  shows "runtime_ok cfg (snd (take_event rt))"
proof -
  have "runtime_ok cfg (rt\<lparr>r_exit_ready := False\<rparr>)"
    using assms by (simp add: runtime_ok_def sview_def find_entry_def table_ok_def exit_ok_def
        globals_def ids_of_def other_closing_def)
  with assms show ?thesis by (simp add: take_event_def split: list.split)
qed

section \<open>The system\<close>

text \<open>One call of an interface function, by any thread. Each call is one step.\<close>

inductive api_step :: "build_config \<Rightarrow> runtime \<Rightarrow> runtime \<Rightarrow> bool" for cfg where
  api_listen: "skyuv_socket_runtime_listen cfg a (Some rt) host port backlog opq p = (r, i, Some rt')
    \<Longrightarrow> api_step cfg rt rt'"
| api_connect: "skyuv_socket_runtime_connect cfg a (Some rt) host port opq p = (r, i, Some rt')
    \<Longrightarrow> api_step cfg rt rt'"
| api_udp: "skyuv_socket_runtime_udp cfg a (Some rt) host port opq p = (r, i, Some rt')
    \<Longrightarrow> api_step cfg rt rt'"
| api_bind: "skyuv_socket_runtime_bind cfg a (Some rt) fd opq p = (r, i, Some rt')
    \<Longrightarrow> api_step cfg rt rt'"
| api_udp_connect: "skyuv_socket_runtime_udp_connect a (Some rt) j host port = (r, Some rt')
    \<Longrightarrow> api_step cfg rt rt'"
| api_start: "skyuv_socket_runtime_start a (Some rt) j opq = (r, Some rt') \<Longrightarrow> api_step cfg rt rt'"
| api_pause: "skyuv_socket_runtime_pause a (Some rt) j opq = (r, Some rt') \<Longrightarrow> api_step cfg rt rt'"
| api_nodelay: "skyuv_socket_runtime_nodelay a (Some rt) j = (r, Some rt') \<Longrightarrow> api_step cfg rt rt'"
| api_close: "skyuv_socket_runtime_close a (Some rt) j opq = (r, Some rt') \<Longrightarrow> api_step cfg rt rt'"
| api_shutdown: "skyuv_socket_runtime_shutdown a (Some rt) j opq = (r, Some rt')
    \<Longrightarrow> api_step cfg rt rt'"
| api_send: "skyuv_socket_runtime_send a (Some rt) j data sz own rel = (r, Some rt')
    \<Longrightarrow> api_step cfg rt rt'"
| api_send_low: "skyuv_socket_runtime_send_low a (Some rt) j data sz own rel = (r, Some rt')
    \<Longrightarrow> api_step cfg rt rt'"
| api_udp_send: "skyuv_socket_runtime_udp_send a (Some rt) j addr asz data sz own rel = (r, Some rt')
    \<Longrightarrow> api_step cfg rt rt'"
| api_exit: "skyuv_socket_runtime_exit a (Some rt) = (r, Some rt') \<Longrightarrow> api_step cfg rt rt'"
| api_updatetime: "skyuv_socket_runtime_updatetime (Some rt) tm = Some rt' \<Longrightarrow> api_step cfg rt rt'"
| api_take_shutdown: "skyuv_socket_runtime_take_process_shutdown (Some rt) = (b, Some rt')
    \<Longrightarrow> api_step cfg rt rt'"

text \<open>
  The network thread. \<open>Waiting\<close>: it is in \<^verbatim>\<open>uv_run\<close> or between two calls of the poll
  function; \<open>Draining\<close> and \<open>Pumping\<close>: it is in the first or in the second loop of
  \<^verbatim>\<open>consume_commands\<close>. The premises of the callbacks are what libuv promises: a request's
  callback runs once per accepted request; the callbacks of a watcher run while it is
  armed and its handle is not closing; the close callback runs after the callbacks of
  the handle's requests.
\<close>

datatype loop_mode = Waiting | Draining | Pumping

inductive loop_step :: "build_config \<Rightarrow> loop_mode \<times> runtime \<Rightarrow> loop_mode \<times> runtime \<Rightarrow> bool" for cfg where
  wake: "l_async (r_loop rt) \<Longrightarrow> \<not> uv_is_closing rt H_async \<Longrightarrow>
    loop_step cfg (Waiting, rt) (Draining, upd_loop (\<lambda>l. l\<lparr>l_async := False\<rparr>) rt)"
| command: "pop_command rt = (Some c, rt1) \<Longrightarrow>
    loop_step cfg (Draining, rt) (Draining, process_command cfg env c rt1)"
| drained: "q_items (r_commands rt) = [] \<Longrightarrow> loop_step cfg (Draining, rt) (Pumping, rt)"
| pump: "r_pump rt = i # rest \<Longrightarrow> loop_step cfg (Pumping, rt) (Pumping, pump_one cfg env i rt)"
| pumped: "r_pump rt = [] \<Longrightarrow> loop_step cfg (Pumping, rt) (Waiting, rt)"
| read: "l_reading (r_loop rt) i \<Longrightarrow> \<not> uv_is_closing rt (H_socket i) \<Longrightarrow>
    loop_step cfg (Waiting, rt) (Waiting, read_completed cfg env i nread base rt)"
| receive: "l_receiving (r_loop rt) i \<Longrightarrow> \<not> uv_is_closing rt (H_socket i) \<Longrightarrow>
    loop_step cfg (Waiting, rt) (Waiting, udp_received cfg env i nread base addr rt)"
| accept: "l_listening (r_loop rt) i \<Longrightarrow> \<not> uv_is_closing rt (H_socket i) \<Longrightarrow>
    loop_step cfg (Waiting, rt) (Waiting, accept_connection cfg env i status rt)"
| written: "w \<in> set (l_writes (r_loop rt)) \<Longrightarrow>
    loop_step cfg (Waiting, rt) (Waiting, write_completed cfg env w status (uv_write_done w rt))"
| udp_written: "w \<in> set (l_udp_sends (r_loop rt)) \<Longrightarrow>
    loop_step cfg (Waiting, rt) (Waiting, udp_write_completed cfg env w status (uv_udp_send_done w rt))"
| connected: "i \<in> set (l_connects (r_loop rt)) \<Longrightarrow>
    loop_step cfg (Waiting, rt) (Waiting, connect_completed cfg env i status (uv_connect_done i rt))"
| closed: "close_ready i rt \<Longrightarrow>
    loop_step cfg (Waiting, rt) (Waiting, close_entry cfg i (uv_forget (H_socket i) rt))"
| hangup: "loop_step cfg (Waiting, rt) (Waiting, on_hangup_signal cfg env rt)"
| terminate: "loop_step cfg (Waiting, rt) (Waiting, on_termination_signal env rt)"
| signals: "loop_step cfg (Waiting, rt) (Waiting, snd (initialize_process_signals env rt))"
| poll: "r_events rt \<noteq> [] \<or> r_exit_ready rt \<Longrightarrow>
    loop_step cfg (Waiting, rt) (Waiting, snd (take_event rt))"

text \<open>A fault ends the run: libuv stops the process on a second \<^verbatim>\<open>uv_close\<close>.\<close>

inductive reachable :: "build_config \<Rightarrow> loop_mode \<times> runtime \<Rightarrow> bool" for cfg where
  created: "skyuv_socket_runtime_create k (Some None) = (SKYUV_OK, Some rt) \<Longrightarrow>
    reachable cfg (Waiting, rt)"
| by_api: "reachable cfg (m, rt) \<Longrightarrow> r_fault rt = None \<Longrightarrow> api_step cfg rt rt' \<Longrightarrow>
    reachable cfg (m, rt')"
| by_loop: "reachable cfg (m, rt) \<Longrightarrow> r_fault rt = None \<Longrightarrow> loop_step cfg (m, rt) s' \<Longrightarrow>
    reachable cfg s'"

inductive_cases loop_step_waiting: "loop_step cfg (Waiting, rt) s'"
inductive_cases loop_step_draining: "loop_step cfg (Draining, rt) s'"
inductive_cases loop_step_pumping: "loop_step cfg (Pumping, rt) s'"

section \<open>The invariant of the system\<close>

text \<open>
  In addition to \<open>runtime_ok\<close>: the pump list is empty outside \<^verbatim>\<open>consume_commands\<close>, and a
  queue that is not being drained and is not empty has a wake-up pending.
\<close>

fun system_ok :: "build_config \<Rightarrow> loop_mode \<times> runtime \<Rightarrow> bool" where
  "system_ok cfg (m, rt) \<longleftrightarrow> runtime_ok cfg rt \<and> (m = Waiting \<longrightarrow> r_pump rt = []) \<and>
     (q_items (r_commands rt) \<noteq> [] \<and> m \<noteq> Draining \<longrightarrow> l_async (r_loop rt))"

lemma system_ok_created:
  assumes "skyuv_socket_runtime_create k (Some None) = (SKYUV_OK, Some rt)"
  shows "system_ok cfg (Waiting, rt)"
proof -
  have rt: "rt = created_runtime \<lparr>q_mutex = True, q_items = [], q_accepting = True\<rparr>"
    using assms by (auto simp: skyuv_socket_runtime_create_def skyuv_socket_command_queue_init_def
        split: if_splits)
  have "runtime_ok cfg rt"
    by (simp add: rt runtime_ok_def created_runtime_def empty_loop_def view_ok_def sview_def find_entry_def
        idle_def table_ok_def globals_def ids_of_def exit_ok_def other_closing_def queue_ok_def)
  then show ?thesis by (simp add: rt created_runtime_def)
qed

lemma system_ok_quiet:
  assumes "system_ok cfg (m, rt)" and "runtime_ok cfg rt'" and "quiet rt' = quiet rt"
  shows "system_ok cfg (m, rt')"
  using assms by (auto simp: quiet_def outer_def)

lemma quiet_take_event: "quiet (snd (take_event rt)) = quiet rt"
  by (simp add: take_event_def quiet_def outer_def split: list.split)

lemma write_completed_ok:
  fixes env :: uv_env and status :: uv_code
  assumes "runtime_ok cfg rt" and "w \<in> set (l_writes (r_loop rt))"
  defines "rt' \<equiv> write_completed cfg env w status (uv_write_done w rt)"
  shows "runtime_ok cfg rt' \<or> r_fault rt' = Some Double_close"
proof -
  obtain e where "find_entry cfg rt (w_entry w) = Some e"
    using pending_write [OF assms(1,2)] by blast
  from write_completed_result [OF assms(1,2) this] show ?thesis unfolding rt'_def by blast
qed

lemma system_ok_callback:
  assumes "system_ok cfg (m, rt)" and "quiet rt' = quiet rt"
    and "runtime_ok cfg rt \<Longrightarrow> runtime_ok cfg rt'"
  shows "system_ok cfg (m, rt') \<or> X"
  using assms system_ok_quiet [OF assms(1)] by auto

lemmas callback_quiet = quiet_reads quiet_accept quiet_write_completed quiet_callbacks quiet_signals
  quiet_take_event quiet_steps

text \<open>The completion of a write, the one step that can fail.\<close>

definition write_step :: "build_config \<Rightarrow> loop_mode \<times> runtime \<Rightarrow> loop_mode \<times> runtime \<Rightarrow> bool" where
  "write_step cfg s s' \<longleftrightarrow> (\<exists>rt w env status. s = (Waiting, rt) \<and> w \<in> set (l_writes (r_loop rt)) \<and>
     s' = (Waiting, write_completed cfg env w status (uv_write_done w rt)))"

lemma system_ok_other_step:
  assumes cfg: "cfg_ok cfg" and ok: "system_ok cfg s" and "loop_step cfg s s'"
  shows "system_ok cfg s' \<or> write_step cfg s s'"
  using assms(3)
proof cases
  case (wake rt)
  have "runtime_ok cfg rt" using ok wake(1) by simp
  then have "runtime_ok cfg (upd_loop (\<lambda>l. l\<lparr>l_async := False\<rparr>) (rt\<lparr>r_commands := r_commands rt\<rparr>))"
    by (intro ok_queue) (simp_all add: runtime_ok_def)
  then show ?thesis using wake by simp
next
  case (command rt c rt1 env)
  then show ?thesis using ok_pop_process [OF cfg _ command(3)] ok by simp
next
  case (drained rt)
  then show ?thesis using ok by simp
next
  case (pump rt i rest env)
  have "outer (pump_one cfg env i rt) = outer rt" by (simp add: frame_simps)
  then show ?thesis using ok_pump_one [OF _ pump(3)] ok pump by (simp add: outer_def)
next
  case (pumped rt)
  then show ?thesis using ok by simp
next
  case (read rt i env nread base)
  show ?thesis unfolding read(2)
    by (rule system_ok_callback [OF ok [unfolded read(1)]])
       (simp_all add: callback_quiet ok_read_completed read(3,4))
next
  case (receive rt i env nread base addr)
  show ?thesis unfolding receive(2)
    by (rule system_ok_callback [OF ok [unfolded receive(1)]])
       (simp_all add: callback_quiet ok_udp_received receive(3))
next
  case (accept rt i env status)
  show ?thesis unfolding accept(2)
    by (rule system_ok_callback [OF ok [unfolded accept(1)]])
       (simp_all add: callback_quiet ok_accept_connection [OF cfg] accept(3,4))
next
  case (written w rt env status)
  then show ?thesis unfolding write_step_def by blast
next
  case (udp_written w rt env status)
  show ?thesis unfolding udp_written(2)
    by (rule system_ok_callback [OF ok [unfolded udp_written(1)]])
       (simp_all add: callback_quiet ok_udp_write_completed udp_written(3))
next
  case (connected i rt env status)
  show ?thesis unfolding connected(2)
    by (rule system_ok_callback [OF ok [unfolded connected(1)]])
       (simp_all add: callback_quiet ok_connect_completed connected(3))
next
  case (closed i rt)
  have "r_pump rt = []" using ok closed(1) by simp
  then show ?thesis unfolding closed(2)
    by (intro system_ok_callback [OF ok [unfolded closed(1)]])
       (simp_all add: callback_quiet ok_close_entry closed(3))
next
  case (hangup rt env)
  show ?thesis unfolding hangup(2)
    by (rule system_ok_callback [OF ok [unfolded hangup(1)]])
       (simp_all add: callback_quiet, simp add: on_hangup_signal_def)
next
  case (terminate rt env)
  show ?thesis unfolding terminate(2)
    by (rule system_ok_callback [OF ok [unfolded terminate(1)]])
       (simp_all add: callback_quiet, simp add: on_termination_signal_def)
next
  case (signals rt env)
  show ?thesis unfolding signals(2)
    by (rule system_ok_callback [OF ok [unfolded signals(1)]])
       (simp_all add: callback_quiet ok_initialize_process_signals)
next
  case (poll rt)
  show ?thesis unfolding poll(2)
    by (rule system_ok_callback [OF ok [unfolded poll(1)]])
       (simp_all add: callback_quiet ok_take_event)
qed

lemma system_ok_loop_step:
  assumes cfg: "cfg_ok cfg" and ok: "system_ok cfg s" and step: "loop_step cfg s s'"
  shows "system_ok cfg s' \<or> r_fault (snd s') = Some Double_close"
proof (cases "write_step cfg s s'")
  case True
  then obtain rt w env status where s: "s = (Waiting, rt)" and w: "w \<in> set (l_writes (r_loop rt))"
    and s': "s' = (Waiting, write_completed cfg env w status (uv_write_done w rt))"
    unfolding write_step_def by blast
  have "runtime_ok cfg rt" using ok s by simp
  from write_completed_ok [OF this w, of env status] show ?thesis
    using system_ok_quiet [OF ok [unfolded s], of "snd s'"]
    by (auto simp: s' callback_quiet simp del: system_ok.simps)
next
  case False
  with system_ok_other_step [OF assms] show ?thesis by blast
qed

lemma command_ok_plain: "\<not> is_send_command (c_type c) \<Longrightarrow> command_ok c"
  by (simp add: command_ok_def)

lemma open_socket_types:
  "\<not> is_send_command COMMAND_LISTEN" "\<not> is_send_command COMMAND_CONNECT"
  "\<not> is_send_command COMMAND_UDP" "\<not> is_send_command COMMAND_START"
  "\<not> is_send_command COMMAND_PAUSE" "\<not> is_send_command COMMAND_NODELAY"
  "\<not> is_send_command COMMAND_CLOSE" "\<not> is_send_command COMMAND_SHUTDOWN"
  "\<not> is_send_command COMMAND_UDP_CONNECT"
  by (simp_all add: is_send_command_def)

text \<open>Every interface function keeps the invariant, whatever its arguments.\<close>

lemma runtime_ok_api_step:
  assumes cfg: "cfg_ok cfg" and ok: "runtime_ok cfg rt" and "api_step cfg rt rt'"
  shows "runtime_ok cfg rt'"
proof -
  note open_ok = ok_open_socket [OF cfg ok]
  note id_ok = ok_submit_for_id [OF ok command_ok_plain]
  from assms(3) show ?thesis
  proof cases
    case (api_listen a host port backlog opq p r i)
    then show ?thesis
      using ok by (auto simp: skyuv_socket_runtime_listen_def open_socket_types
          split: option.splits if_splits prod.splits intro: open_ok [rotated])
  next
    case (api_connect a host port opq p r i)
    then show ?thesis
      using ok by (auto simp: skyuv_socket_runtime_connect_def open_socket_types
          split: option.splits if_splits prod.splits intro: open_ok [rotated])
  next
    case (api_udp a host port opq p r i)
    then show ?thesis
      using ok by (auto simp: skyuv_socket_runtime_udp_def open_socket_types Let_def
          split: if_splits prod.splits intro: open_ok [rotated])
  next
    case (api_bind a fd opq p r i)
    then show ?thesis by (rule ok_bind [OF cfg ok])
  next
    case (api_udp_connect a j host port r)
    then show ?thesis
      using ok by (auto simp: skyuv_socket_runtime_udp_connect_def map_prod_def open_socket_types
          split: option.splits if_splits prod.splits intro: ok_submit [OF ok command_ok_plain, rotated])
  next
    case (api_start a j opq r)
    then show ?thesis
      using ok by (auto simp: skyuv_socket_runtime_start_def open_socket_types
          split: if_splits prod.splits intro: ok_submit [OF ok command_ok_plain, rotated])
  next
    case (api_pause a j opq r)
    then show ?thesis unfolding skyuv_socket_runtime_pause_def
      by (rule id_ok [rotated]) (simp add: open_socket_types)
  next
    case (api_nodelay a j r)
    then show ?thesis unfolding skyuv_socket_runtime_nodelay_def
      by (rule id_ok [rotated]) (simp add: open_socket_types)
  next
    case (api_close a j opq r)
    then show ?thesis unfolding skyuv_socket_runtime_close_def
      by (rule id_ok [rotated]) (simp add: open_socket_types)
  next
    case (api_shutdown a j opq r)
    then show ?thesis unfolding skyuv_socket_runtime_shutdown_def
      by (rule id_ok [rotated]) (simp add: open_socket_types)
  next
    case (api_send a j data sz own rel r)
    then show ?thesis unfolding skyuv_socket_runtime_send_def by (rule ok_runtime_send [OF ok])
  next
    case (api_send_low a j data sz own rel r)
    then show ?thesis unfolding skyuv_socket_runtime_send_low_def by (rule ok_runtime_send [OF ok])
  next
    case (api_udp_send a j addr asz data sz own rel r)
    then show ?thesis by (rule ok_udp_send [OF ok])
  next
    case (api_exit a r)
    then show ?thesis by (rule ok_exit [OF ok])
  next
    case (api_updatetime tm)
    then show ?thesis using ok by (auto simp: skyuv_socket_runtime_updatetime_def)
  next
    case (api_take_shutdown b)
    then show ?thesis using ok by (auto simp: skyuv_socket_runtime_take_process_shutdown_def)
  qed
qed

text \<open>
  What an interface function does to the parts the network thread waits for: it leaves
  them, or it signals the asynchronous handle.
\<close>

definition woken :: "runtime \<Rightarrow> runtime \<Rightarrow> bool" where
  "woken rt rt' \<longleftrightarrow> r_pump rt' = r_pump rt \<and>
     (l_async (r_loop rt') \<or>
      r_commands rt' = r_commands rt \<and> l_async (r_loop rt') = l_async (r_loop rt))"

lemma woken_refl [simp]: "woken rt rt"
  by (simp add: woken_def)

lemma woken_trans: "woken rt rt1 \<Longrightarrow> woken rt1 rt2 \<Longrightarrow> woken rt rt2"
  by (auto simp: woken_def)

lemma woken_quiet: "quiet rt' = quiet rt \<Longrightarrow> woken rt rt'"
  by (simp add: woken_def quiet_def outer_def)

lemma woken_submit: "skyuv_socket_runtime_submit rt c = (r, rt') \<Longrightarrow> woken rt rt'"
  using submit_cases [of rt c r rt'] by (auto simp: woken_def upd_loop_def)

lemma woken_reserve: "reserve_entry cfg alloc opq rt = (r, i, rt') \<Longrightarrow> woken rt rt'"
  using quiet_reserve_loop [of cfg alloc opq "unat (SKYUV_SOCKET_SLOT_COUNT cfg)" rt]
  by (intro woken_quiet) (simp add: reserve_entry_def)

lemma woken_discard: "woken rt (discard_uninitialized_entry cfg i rt)"
  by (rule woken_quiet) (simp add: quiet_def frame_simps discard_uninitialized_entry_def)

lemma woken_upd_entry: "woken rt (upd_entry cfg i f rt)"
  by (rule woken_quiet) (simp add: quiet_def frame_simps)

lemma woken_open_socket:
  assumes "open_socket cfg a opq host c rt = (r, i, rt')"
  shows "woken rt rt'"
proof -
  obtain r1 j rt1 where r: "reserve_entry cfg (a_entry a) opq rt = (r1, j, rt1)"
    by (cases "reserve_entry cfg (a_entry a) opq rt")
  have "woken rt1 rt'"
    using assms r by (auto simp: open_socket_def Let_def woken_discard split: if_splits prod.splits
        dest!: woken_submit intro: woken_trans [OF _ woken_discard])
  with woken_reserve [OF r] show ?thesis by (rule woken_trans)
qed

lemma woken_bind:
  assumes "skyuv_socket_runtime_bind cfg a (Some rt) fd opq p = (r, i, Some rt')"
  shows "woken rt rt'"
proof (cases "external_fd_supported cfg \<and> \<not> fd < 0 \<and> p")
  case True
  obtain r1 j rt1 where r: "reserve_entry cfg (a_entry a) opq rt = (r1, j, rt1)"
    by (cases "reserve_entry cfg (a_entry a) opq rt")
  have "woken rt1 rt'"
    using assms r True
    by (auto simp: skyuv_socket_runtime_bind_def Let_def woken_discard
        woken_trans [OF woken_upd_entry woken_discard] split: if_splits prod.splits
        dest!: woken_submit intro: woken_trans [OF woken_upd_entry]
          woken_trans [OF woken_trans [OF woken_upd_entry] woken_discard])
  with woken_reserve [OF r] show ?thesis by (rule woken_trans)
next
  case False
  then show ?thesis using assms by (auto simp: skyuv_socket_runtime_bind_def split: if_splits)
qed

lemma woken_send_command:
  assumes "send_command a own b c rt = (r, rt')"
  shows "woken rt rt'"
proof (cases "take_data a own b rt")
  case None
  then show ?thesis using assms by (simp add: send_command_def)
next
  case (Some p)
  obtain b1 rt1 where p: "p = (b1, rt1)" by (cases p)
  have "woken rt rt1" using Some p
    by (auto simp: take_data_def woken_def split: buffer_ownership.splits option.splits)
  moreover have "woken rt1 rt'"
    using assms Some p
    by (auto simp: send_command_def Let_def woken_def upd_loop_def split: if_splits prod.splits
        dest!: submit_cases)
  ultimately show ?thesis by (rule woken_trans)
qed

lemma woken_submit_for_id: "submit_for_id a (Some rt) c = (r, Some rt') \<Longrightarrow> woken rt rt'"
  by (auto simp: submit_for_id_def map_prod_def split: if_splits prod.splits dest: woken_submit)

lemma woken_runtime_send:
  "runtime_send a (Some rt) i data sz own rel low = (r, Some rt') \<Longrightarrow> woken rt rt'"
  by (auto simp: runtime_send_def map_prod_def split: if_splits prod.splits dest: woken_send_command)

lemma woken_api_step: "api_step cfg rt rt' \<Longrightarrow> woken rt rt'"
proof (induction rule: api_step.induct)
  case (api_listen a rt host port backlog opq p r i rt')
  then show ?case
    by (auto simp: skyuv_socket_runtime_listen_def split: option.splits if_splits prod.splits
        dest: woken_open_socket)
next
  case (api_connect a rt host port opq p r i rt')
  then show ?case
    by (auto simp: skyuv_socket_runtime_connect_def split: option.splits if_splits prod.splits
        dest: woken_open_socket)
next
  case (api_udp a rt host port opq p r i rt')
  then show ?case
    by (auto simp: skyuv_socket_runtime_udp_def Let_def split: if_splits prod.splits
        dest: woken_open_socket)
next
  case (api_bind a rt fd opq p r i rt')
  then show ?case by (rule woken_bind)
next
  case (api_udp_connect a rt j host port r rt')
  then show ?case
    by (auto simp: skyuv_socket_runtime_udp_connect_def map_prod_def
        split: option.splits if_splits prod.splits dest: woken_submit)
next
  case (api_start a rt j opq r rt')
  then show ?case
    by (auto simp: skyuv_socket_runtime_start_def split: if_splits prod.splits dest: woken_submit)
next
  case (api_udp_send a rt j addr asz data sz own rel r rt')
  then show ?case
    by (auto simp: skyuv_socket_runtime_udp_send_def map_prod_def split: if_splits prod.splits
        dest: woken_send_command)
next
  case (api_exit a rt r rt')
  then show ?case
    by (auto simp: skyuv_socket_runtime_exit_def skyuv_socket_command_queue_stop_def woken_def
        upd_loop_def split: if_splits)
next
  case (api_updatetime rt tm rt')
  then show ?case by (auto simp: skyuv_socket_runtime_updatetime_def woken_def)
next
  case (api_take_shutdown rt b rt')
  then show ?case by (auto simp: skyuv_socket_runtime_take_process_shutdown_def woken_def)
qed (unfold skyuv_socket_runtime_pause_def skyuv_socket_runtime_nodelay_def
    skyuv_socket_runtime_close_def skyuv_socket_runtime_shutdown_def skyuv_socket_runtime_send_def
    skyuv_socket_runtime_send_low_def, (erule woken_submit_for_id woken_runtime_send)+)

lemma system_ok_api_step:
  assumes "cfg_ok cfg" and "system_ok cfg (m, rt)" and "api_step cfg rt rt'"
  shows "system_ok cfg (m, rt')"
  using assms runtime_ok_api_step [OF assms(1) _ assms(3)] woken_api_step [OF assms(3)]
  by (auto simp: woken_def)

lemma reachable_system_ok:
  assumes "cfg_ok cfg" and "reachable cfg s"
  shows "system_ok cfg s \<or> r_fault (snd s) = Some Double_close"
  using assms(2)
proof induction
  case (created k rt)
  then show ?case by (intro disjI1) (rule system_ok_created)
next
  case (by_api m rt rt')
  then have "system_ok cfg (m, rt)" by (simp del: system_ok.simps)
  then show ?case using system_ok_api_step [OF assms(1) _ by_api(3)] by blast
next
  case (by_loop m rt s')
  then have "system_ok cfg (m, rt)" by (simp del: system_ok.simps)
  then show ?case using by_loop(3) by (rule system_ok_loop_step [OF assms(1)])
qed

end
