(* ===== verification/Socket_Run.thy ===== *)
theory Socket_Run
  imports Socket_Machine
begin

text \<open>
  The transition system of \<open>Socket_Machine\<close> as a program: \<open>act\<close> performs one action of a
  worker thread or of the network thread when its premises hold, \<open>run\<close> a sequence of
  them, and every state it computes is reachable. The concrete runs below, on a table of
  four slots and an environment in which every allocation and every libuv call succeeds,
  are the interleavings at which the properties of the runtime are instantiated.
\<close>

datatype action =
    Do_connect string int uintptr
  | Do_listen string int int uintptr
  | Do_udp string int uintptr
  | Do_send sock_id ptr size_t
  | Do_close sock_id uintptr
  | Do_shutdown sock_id uintptr
  | Do_exit
  | On_wake
  | On_command
  | On_drained
  | On_pump
  | On_pumped
  | On_accept sock_id uv_code
  | On_written uv_code
  | On_connected sock_id uv_code
  | On_closed sock_id
  | On_poll

definition guarded :: "bool \<Rightarrow> 'a \<Rightarrow> 'a option" where
  "guarded b x = (if b then Some x else None)"

text \<open>\<open>after_api\<close> continues with the runtime that an interface function leaves.\<close>

definition after_api :: "loop_mode \<Rightarrow> runtime option \<Rightarrow> (loop_mode \<times> runtime) option" where
  "after_api m r = map_option (Pair m) r"

fun act :: "build_config \<Rightarrow> uv_env \<Rightarrow> api_env \<Rightarrow> action \<Rightarrow> loop_mode \<times> runtime
    \<Rightarrow> (loop_mode \<times> runtime) option" where
  "act cfg env a (Do_connect host port opq) (m, rt) =
     after_api m (snd (snd (skyuv_socket_runtime_connect cfg a (Some rt) (Some host) port opq True)))"
| "act cfg env a (Do_listen host port backlog opq) (m, rt) =
     after_api m (snd (snd (skyuv_socket_runtime_listen cfg a (Some rt) (Some host) port backlog opq True)))"
| "act cfg env a (Do_udp host port opq) (m, rt) =
     after_api m (snd (snd (skyuv_socket_runtime_udp cfg a (Some rt) (Some host) port opq True)))"
| "act cfg env a (Do_send i p sz) (m, rt) =
     after_api m (snd (skyuv_socket_runtime_send a (Some rt) i (Some p) sz BUFFER_OWNED None))"
| "act cfg env a (Do_close i opq) (m, rt) =
     after_api m (snd (skyuv_socket_runtime_close a (Some rt) i opq))"
| "act cfg env a (Do_shutdown i opq) (m, rt) =
     after_api m (snd (skyuv_socket_runtime_shutdown a (Some rt) i opq))"
| "act cfg env a Do_exit (m, rt) = after_api m (snd (skyuv_socket_runtime_exit a (Some rt)))"
| "act cfg env a On_wake (m, rt) =
     guarded (m = Waiting \<and> l_async (r_loop rt) \<and> \<not> uv_is_closing rt H_async)
       (Draining, upd_loop (\<lambda>l. l\<lparr>l_async := False\<rparr>) rt)"
| "act cfg env a On_command (m, rt) =
     (case pop_command rt of
        (Some c, rt1) \<Rightarrow> guarded (m = Draining) (Draining, process_command cfg env c rt1)
      | (None, _) \<Rightarrow> None)"
| "act cfg env a On_drained (m, rt) =
     guarded (m = Draining \<and> q_items (r_commands rt) = []) (Pumping, rt)"
| "act cfg env a On_pump (m, rt) =
     (case r_pump rt of
        [] \<Rightarrow> None
      | i # _ \<Rightarrow> guarded (m = Pumping) (Pumping, pump_one cfg env i rt))"
| "act cfg env a On_pumped (m, rt) = guarded (m = Pumping \<and> r_pump rt = []) (Waiting, rt)"
| "act cfg env a (On_accept i status) (m, rt) =
     guarded (m = Waiting \<and> l_listening (r_loop rt) i \<and> \<not> uv_is_closing rt (H_socket i))
       (Waiting, accept_connection cfg env i status rt)"
| "act cfg env a (On_written status) (m, rt) =
     (case l_writes (r_loop rt) of
        [] \<Rightarrow> None
      | w # _ \<Rightarrow> guarded (m = Waiting) (Waiting, write_completed cfg env w status (uv_write_done w rt)))"
| "act cfg env a (On_connected i status) (m, rt) =
     guarded (m = Waiting \<and> i \<in> set (l_connects (r_loop rt)))
       (Waiting, connect_completed cfg env i status (uv_connect_done i rt))"
| "act cfg env a (On_closed i) (m, rt) =
     guarded (m = Waiting \<and> close_ready i rt)
       (Waiting, close_entry cfg i (uv_forget (H_socket i) rt))"
| "act cfg env a On_poll (m, rt) =
     guarded (m = Waiting \<and> (r_events rt \<noteq> [] \<or> r_exit_ready rt)) (Waiting, snd (take_event rt))"

fun run :: "build_config \<Rightarrow> uv_env \<Rightarrow> api_env \<Rightarrow> action list \<Rightarrow> loop_mode \<times> runtime
    \<Rightarrow> (loop_mode \<times> runtime) option" where
  "run cfg env a [] s = Some s"
| "run cfg env a (x # xs) s =
     (if r_fault (snd s) \<noteq> None then None
      else case act cfg env a x s of None \<Rightarrow> None | Some s' \<Rightarrow> run cfg env a xs s')"

definition api_or_loop :: "build_config \<Rightarrow> loop_mode \<times> runtime \<Rightarrow> loop_mode \<times> runtime \<Rightarrow> bool" where
  "api_or_loop cfg s s' \<longleftrightarrow> fst s' = fst s \<and> api_step cfg (snd s) (snd s') \<or> loop_step cfg s s'"

lemma after_api_Some: "after_api m r = Some s' \<longleftrightarrow> fst s' = m \<and> r = Some (snd s')"
  by (cases s') (auto simp: after_api_def)

lemma guarded_Some: "guarded b x = Some y \<longleftrightarrow> b \<and> y = x"
  by (auto simp: guarded_def)

lemma snd_Some: "snd p = Some x \<Longrightarrow> p = (fst p, Some x)"
  by (cases p) auto

lemma snd_snd_Some: "snd (snd p) = Some x \<Longrightarrow> p = (fst p, fst (snd p), Some x)"
  by (cases p) auto

lemma act_step:
  assumes "act cfg env a x s = Some s'"
  shows "api_or_loop cfg s s'"
proof -
  obtain m rt where s: "s = (m, rt)" by (cases s)
  obtain m' rt' where s': "s' = (m', rt')" by (cases s')
  show ?thesis
    using assms
    by (cases x)
       (auto simp: s s' api_or_loop_def after_api_Some guarded_Some
         split: prod.splits option.splits list.splits
         intro: api_connect [OF snd_snd_Some] api_listen [OF snd_snd_Some] api_udp [OF snd_snd_Some]
           api_send [OF snd_Some] api_close [OF snd_Some] api_shutdown [OF snd_Some]
           api_exit [OF snd_Some] loop_step.intros)
qed

lemma run_reachable:
  "reachable cfg s \<Longrightarrow> run cfg env a xs s = Some s' \<Longrightarrow> reachable cfg s'"
proof (induction xs arbitrary: s)
  case (Cons x xs)
  then obtain s1 where s1: "act cfg env a x s = Some s1" "run cfg env a xs s1 = Some s'"
    and f: "r_fault (snd s) = None"
    by (auto split: if_splits option.splits)
  have "reachable cfg s1"
    using act_step [OF s1(1)] Cons.prems(1) f
    by (cases s; cases s1) (auto simp: api_or_loop_def intro: reachable.by_api reachable.by_loop)
  then show ?case using Cons.IH s1(2) by blast
qed simp

section \<open>Concrete runs\<close>

definition ex_cfg :: build_config where
  "ex_cfg = \<lparr>slot_bits = 2, external_fd_supported = True, win32 = False\<rparr>"

definition ex_addr :: sockaddr where
  "ex_addr = Sockaddr_in [0x1f, 0x90] [127, 0, 0, 1]"

definition ex_env :: uv_env where
  "ex_env = \<lparr>en_event_alloc = (\<lambda>_. True), en_alloc = True, en_malloc = Some 9,
     en_ip4_addr = (\<lambda>_ _. (UV_OK, ex_addr)), en_ip6_addr = (\<lambda>_ _. (UV_EINVAL, Sockaddr_none)),
     en_tcp_init = UV_OK, en_tcp_bind = UV_OK, en_listen = UV_OK, en_tcp_connect = UV_OK,
     en_tcp_open = UV_OK, en_accept = UV_OK, en_read_start = UV_OK, en_read_stop = UV_OK,
     en_nodelay = UV_OK, en_write = UV_OK, en_udp_init = UV_OK, en_udp_bind = UV_OK,
     en_udp_recv_start = UV_OK, en_udp_send = UV_OK, en_getname = (UV_EINVAL, Sockaddr_none),
     en_getsockname = (UV_OK, ex_addr), en_ip_name = (\<lambda>_. (UV_OK, ''127.0.0.1'')),
     en_signal_init = (\<lambda>_. UV_OK), en_signal_start = (\<lambda>_. UV_OK)\<rparr>"

definition ex_api :: api_env where
  "ex_api = \<lparr>a_entry = True, a_command = True, a_string = True, a_data = Some 7\<rparr>"

definition ex_start :: runtime where
  "ex_start = created_runtime \<lparr>q_mutex = True, q_items = [], q_accepting = True\<rparr>"

lemma ex_cfg_ok [simp]: "cfg_ok ex_cfg"
  by (simp add: cfg_ok_def ex_cfg_def)

lemma ex_start_reachable: "reachable cfg (Waiting, ex_start)"
  by (rule reachable.created [of "\<lparr>k_runtime = True, k_slots = True, k_generations = True,
        k_loop_init = UV_OK, k_queue_mutex = SKYUV_OK, k_slots_mutex = SKYUV_OK, k_async_init = UV_OK\<rparr>"])
     (simp add: skyuv_socket_runtime_create_def skyuv_socket_command_queue_init_def ex_start_def)

definition ex_run :: "action list \<Rightarrow> (loop_mode \<times> runtime) option" where
  "ex_run xs = run ex_cfg ex_env ex_api xs (Waiting, ex_start)"

lemma ex_run_reachable: "ex_run xs = Some s \<Longrightarrow> reachable ex_cfg s"
  unfolding ex_run_def by (rule run_reachable [OF ex_start_reachable])

text \<open>The first id of the table of four slots: slot 0, generation 1.\<close>

definition ex_connected :: "action list" where
  "ex_connected = [Do_connect ''localhost'' 8080 5, On_wake, On_command, On_drained, On_pumped,
     On_connected 4 UV_OK]"

text \<open>Two writes are queued, the first is in flight, and a close has been requested.\<close>

definition ex_two_writes :: "action list" where
  "ex_two_writes = ex_connected @ [Do_send 4 100 10, Do_send 4 200 20, On_wake, On_command, On_command,
     On_drained, On_pump, On_pumped]"

definition ex_closing :: "action list \<Rightarrow> action list" where
  "ex_closing xs = xs @ [Do_close 4 5, On_wake, On_command, On_drained, On_pumped]"

definition ex_mode :: "action list \<Rightarrow> loop_mode option" where
  "ex_mode xs = map_option fst (ex_run xs)"

definition ex_rt :: "action list \<Rightarrow> runtime" where
  "ex_rt xs = snd (the (ex_run xs))"

lemma ex_rt_reachable: "ex_mode xs = Some m \<Longrightarrow> reachable ex_cfg (m, ex_rt xs)"
  using ex_run_reachable [of xs] by (auto simp: ex_mode_def ex_rt_def)

end
