(* ===== verification/Socket_Safety.thy ===== *)
theory Socket_Safety
  imports Socket_Run
begin

text \<open>
  What holds in every state that the worker threads and the network thread can reach:
  which faults can happen and where, what a requested close does, and what the
  invariant says about pending writes and wake-ups.
\<close>

section \<open>Faults\<close>



lemma reachable_runtime_ok:
  assumes "cfg_ok cfg" and "reachable cfg (m, rt)" and "r_fault rt = None"
  shows "runtime_ok cfg rt"
  using reachable_system_ok [OF assms(1,2)] assms(3) by auto

text \<open>The state in which the callback of a write closes a handle that is closing.\<close>

definition closes_twice :: "entry \<Rightarrow> uv_code \<Rightarrow> bool" where
  "closes_twice e status \<longleftrightarrow> e_close_requested e \<and> e_high e = [] \<and> e_low e = [] \<and>
     (e_state e = STATE_CLOSING \<or> status \<noteq> UV_OK)"

text \<open>
  C2. When the completion of a write closes a handle twice: in a run without a fault so
  far, exactly when it is the last write of a socket whose close was requested, and the
  socket is closing already or the write failed. \<^verbatim>\<open>close_after_writes\<close> does not look at the
  state, so a connection that breaks while its last write is in flight stops the process.
\<close>

theorem write_completed_fault:
  assumes "cfg_ok cfg" and "reachable cfg (Waiting, rt)" and "r_fault rt = None"
    and "w \<in> set (l_writes (r_loop rt))"
  shows "\<exists>e. find_entry cfg rt (w_entry w) = Some e \<and>
    r_fault (write_completed cfg env w status (uv_write_done w rt))
      = (if closes_twice e status then Some Double_close else None)"
proof -
  have ok: "runtime_ok cfg rt" by (rule reachable_runtime_ok [OF assms(1-3)])
  obtain e where e: "find_entry cfg rt (w_entry w) = Some e"
    using pending_write [OF ok assms(4)] by blast
  note R = write_completed_result [OF ok assms(4) e, folded closes_twice_def, of status env]
  show ?thesis
  proof (cases "closes_twice e status")
    case True
    with R(2) e show ?thesis by (simp add: closes_twice_def)
  next
    case False
    with R(1) e show ?thesis by (simp add: closes_twice_def runtime_ok_def)
  qed
qed

definition ex_one_write :: "action list" where
  "ex_one_write = ex_connected @ [Do_send 4 100 10, On_wake, On_command, On_drained, On_pump, On_pumped]"

definition ex_write :: socket_write where
  "ex_write = \<lparr>w_entry = 4, w_data = Some 100, w_size = 10, w_release = None\<rparr>"

theorem write_completed_fault_witness:
  "let rt = ex_rt (ex_closing ex_one_write)
   in r_fault rt = None \<and>
      r_fault (write_completed ex_cfg ex_env ex_write UV_ECANCELED (uv_write_done ex_write rt))
        = Some Double_close"
proof -
  let ?xs = "ex_closing ex_one_write" and ?rt = "ex_rt (ex_closing ex_one_write)"
  have "ex_mode ?xs = Some Waiting" by code_simp
  then have r: "reachable ex_cfg (Waiting, ?rt)" by (rule ex_rt_reachable)
  have f: "r_fault ?rt = None" by code_simp
  have w: "ex_write \<in> set (l_writes (r_loop ?rt))" by code_simp
  have "map_option (\<lambda>e. closes_twice e UV_ECANCELED) (find_entry ex_cfg ?rt (w_entry ex_write)) = Some True"
    by code_simp
  with write_completed_fault [OF ex_cfg_ok r f w, of ex_env UV_ECANCELED] f show ?thesis
    by (auto simp: Let_def)
qed



section \<open>Writes\<close>



text \<open>
  The socket after a successful write whose close was requested while more writes are
  queued: \<^verbatim>\<open>close_after_writes\<close> returns because there is data left, and nobody sends it.
\<close>

lemma write_completed_requested:
  assumes e: "find_entry cfg rt (w_entry w) = Some e" and "e_close_requested e"
    and "e_high e \<noteq> [] \<or> e_low e \<noteq> []"
  shows "\<exists>e'. find_entry cfg (write_completed cfg env w UV_OK (uv_write_done w rt)) (w_entry w) = Some e' \<and>
    e_state e' = e_state e \<and> e_high e' = e_high e \<and> e_low e' = e_low e \<and> \<not> e_writing e' \<and>
    e_close_requested e'"
  using assms
  by (simp add: write_completed_def uv_write_done_def close_after_writes_def Let_def deref_Some
      find_entry_upd_entry frame_simps)

text \<open>
  C5. A requested close can hang. When a write completes, further writes are queued and
  a close has been requested, the callback neither sends the next write nor closes the
  socket: the queue is unchanged, nothing is in flight for the socket, it is not in the
  list of sockets to pump, its handle is not closing, and the network thread goes back
  to waiting. The queued data is never sent, and the close waits for it.
\<close>

theorem requested_close_stalls:
  fixes env :: uv_env
  assumes cfg: "cfg_ok cfg" and r: "reachable cfg (Waiting, rt)" and f: "r_fault rt = None"
    and w: "w \<in> set (l_writes (r_loop rt))" and e: "find_entry cfg rt (w_entry w) = Some e"
    and req: "e_close_requested e" "e_state e \<noteq> STATE_CLOSING" "e_high e \<noteq> [] \<or> e_low e \<noteq> []"
  defines "rt' \<equiv> write_completed cfg env w UV_OK (uv_write_done w rt)"
  shows "reachable cfg (Waiting, rt') \<and> r_fault rt' = None \<and>
    (\<exists>e'. find_entry cfg rt' (w_entry w) = Some e' \<and> e_high e' = e_high e \<and> e_low e' = e_low e \<and>
       e_close_requested e' \<and> e_state e' = e_state e) \<and>
    filter (\<lambda>v. w_entry v = w_entry w) (l_writes (r_loop rt')) = [] \<and> r_pump rt' = [] \<and>
    \<not> uv_is_closing rt' (H_socket (w_entry w))"
proof -
  have step: "loop_step cfg (Waiting, rt) (Waiting, rt')" unfolding rt'_def by (rule loop_step.written [OF w])
  then have r': "reachable cfg (Waiting, rt')" by (rule reachable.by_loop [OF r f])
  have rok: "runtime_ok cfg rt" by (rule reachable_runtime_ok [OF cfg r f])
  have "\<not> (e_close_requested e \<and> e_high e = [] \<and> e_low e = [] \<and> (e_state e = STATE_CLOSING \<or> UV_OK \<noteq> UV_OK))"
    using req(3) by auto
  then have ok': "runtime_ok cfg rt'" unfolding rt'_def by (rule write_completed_result(1) [OF rok w e])
  then have f': "r_fault rt' = None" by (simp add: runtime_ok_def)
  have pump: "r_pump rt' = []"
    using reachable_system_ok [OF cfg r'] f' by auto
  obtain e' where e': "find_entry cfg rt' (w_entry w) = Some e'" "e_state e' = e_state e"
    "e_high e' = e_high e" "e_low e' = e_low e" "\<not> e_writing e'" "e_close_requested e'"
    using write_completed_requested [OF e req(1,3)] unfolding rt'_def by blast
  note but = runtime_ok_but [OF ok' e'(1)]
  have "v_writes (sview cfg rt' (w_entry w)) = []"
    using runtime_ok_entry [OF ok' e'(1)] e'(5) by (simp add: entry_ok_def entry_base_def)
  moreover have "\<not> uv_is_closing rt' (H_socket (w_entry w))"
    using closing_iff [OF but e'(1)] e'(2) req(2) by (simp add: uv_is_closing_def)
  ultimately show ?thesis using r' f' pump e' by (auto simp: sview_def)
qed

theorem requested_close_stalls_witness:
  "let rt = ex_rt (ex_closing ex_two_writes);
       rt' = write_completed ex_cfg ex_env ex_write UV_OK (uv_write_done ex_write rt)
   in reachable ex_cfg (Waiting, rt') \<and> l_writes (r_loop rt') = [] \<and>
      map_option (\<lambda>e. map w_data (e_high e)) (find_entry ex_cfg rt' 4) = Some [Some 200]"
proof -
  let ?xs = "ex_closing ex_two_writes" and ?rt = "ex_rt (ex_closing ex_two_writes)"
  let ?rt' = "write_completed ex_cfg ex_env ex_write UV_OK (uv_write_done ex_write ?rt)"
  have "ex_mode ?xs = Some Waiting" by code_simp
  then have r: "reachable ex_cfg (Waiting, ?rt)" by (rule ex_rt_reachable)
  have f: "r_fault ?rt = None" by code_simp
  have w: "ex_write \<in> set (l_writes (r_loop ?rt))" by code_simp
  have "map_option (\<lambda>e. (e_close_requested e, e_state e, map w_data (e_high e)))
      (find_entry ex_cfg ?rt (w_entry ex_write)) = Some (True, STATE_CONNECTED, [Some 200])" by code_simp
  then obtain e where "find_entry ex_cfg ?rt (w_entry ex_write) = Some e" "e_close_requested e"
    "e_state e \<noteq> STATE_CLOSING" "e_high e \<noteq> [] \<or> e_low e \<noteq> []" by auto
  from requested_close_stalls [OF ex_cfg_ok r f w this, of ex_env] have "reachable ex_cfg (Waiting, ?rt')"
    by blast
  moreover have "l_writes (r_loop ?rt') = []" by code_simp
  moreover have "map_option (\<lambda>e. map w_data (e_high e)) (find_entry ex_cfg ?rt' 4) = Some [Some 200]"
    by code_simp
  ultimately show ?thesis by (simp add: Let_def)
qed

section \<open>Wake-ups\<close>

text \<open>
  C6. No wake-up is lost. When the network thread waits and a command is queued, the
  wake-up callback is pending and can run; and the callback takes every command out of
  the queue and serves every socket it put on the pump list before it returns.
\<close>

theorem queued_command_wakes:
  assumes "cfg_ok cfg" and "reachable cfg (Waiting, rt)" and "r_fault rt = None"
    and "q_items (r_commands rt) \<noteq> []"
  shows "(\<exists>rt'. loop_step cfg (Waiting, rt) (Draining, rt')) \<and>
    q_items (r_commands (consume_commands cfg envs rt)) = [] \<and> r_pump (consume_commands cfg envs rt) = []"
proof -
  have sys: "system_ok cfg (Waiting, rt)" using reachable_system_ok [OF assms(1,2)] assms(3) by auto
  then have ok: "runtime_ok cfg rt" and "l_async (r_loop rt)" using assms(4) by auto
  have q: "queue_ok (r_exiting rt) (r_commands rt)" and x: "exit_ok (globals rt)"
    using ok by (simp_all add: runtime_ok_def)
  then have "\<not> r_exiting rt" using assms(4) by (auto simp: queue_ok_def split: if_splits)
  then have "\<not> uv_is_closing rt H_async"
    using x by (auto simp: exit_ok_def globals_def other_closing_def uv_is_closing_def)
  with \<open>l_async (r_loop rt)\<close> have "\<exists>rt'. loop_step cfg (Waiting, rt) (Draining, rt')"
    by (blast intro: loop_step.wake)
  moreover have "q_items (r_commands (consume_commands cfg envs rt)) = []"
  proof -
    obtain n rt1 where d: "drain_commands cfg envs 0 rt = (n, rt1)" by (cases "drain_commands cfg envs 0 rt")
    have "outer (drain_pump cfg envs n rt1) = outer rt1" by (rule outer_drain_pump)
    then show ?thesis
      using drain_commands_empty [of rt cfg envs 0] q d
      by (simp add: consume_commands_def outer_def queue_ok_def)
  qed
  moreover have "r_pump (consume_commands cfg envs rt) = []"
    by (simp add: consume_commands_def drain_pump_empty split: prod.split)
  ultimately show ?thesis by blast
qed

theorem queued_command_wakes_witness:
  "let rt = ex_rt [Do_connect ''localhost'' 8080 5]
   in q_items (r_commands rt) \<noteq> [] \<and>
      q_items (r_commands (consume_commands ex_cfg (\<lambda>_. ex_env) rt)) = []"
proof -
  let ?xs = "[Do_connect ''localhost'' 8080 5]"
  have "ex_mode ?xs = Some Waiting" by code_simp
  then have r: "reachable ex_cfg (Waiting, ex_rt ?xs)" by (rule ex_rt_reachable)
  have f: "r_fault (ex_rt ?xs) = None" by code_simp
  have "length (q_items (r_commands (ex_rt ?xs))) = 1" by code_simp
  then have q: "q_items (r_commands (ex_rt ?xs)) \<noteq> []" by auto
  from queued_command_wakes [OF ex_cfg_ok r f q, of "\<lambda>_. ex_env"] q show ?thesis by (simp add: Let_def)
qed

text \<open>
  A second close while writes are pending is reported again, with the address of the second caller: the
  socket is not yet closing, so \<^verbatim>\<open>process_close\<close> does not notice the first one. The plan
  \<^verbatim>\<open>docs/plans/003-libuv-tcp-minimum.md\<close> promises one event with the address of the first.
\<close>

lemma close_reported_twice:
  "map (\<lambda>e. (ev_type e, ev_opaque e))
     (r_events (ex_rt (ex_closing ex_two_writes @ [Do_close 4 6, On_wake, On_command])))
   = [(EVENT_OPEN, 5), (EVENT_CLOSE, 5), (EVENT_CLOSE, 6)]"
  by code_simp

section \<open>Polling returns\<close>

text \<open>The runtime after \<open>k\<close> passes of the loop, and whether there is something to report.\<close>

fun passes :: "(nat \<Rightarrow> runtime \<Rightarrow> bool \<times> runtime) \<Rightarrow> nat \<Rightarrow> nat \<Rightarrow> runtime \<Rightarrow> runtime" where
  "passes uv_run n 0 rt = rt"
| "passes uv_run n (Suc k) rt = passes uv_run (Suc n) k (snd (uv_run n rt))"

definition reportable :: "runtime \<Rightarrow> bool" where
  "reportable rt \<longleftrightarrow> r_events rt \<noteq> [] \<or> r_exit_ready rt"

text \<open>
  The wait of \<^verbatim>\<open>skyuv_socket_runtime_poll\<close> ends as soon as a pass of the loop has left something to report, and then
  reports it; it ends earlier only with an error, when the loop has no active handle.
\<close>

lemma poll_wait_returns:
  assumes "reportable (passes uv_run n k rt)"
  shows "\<exists>j \<le> k. poll_wait uv_run n rt = Some (SKYUV_OK, passes uv_run n j rt) \<and> reportable (passes uv_run n j rt)
      \<or> poll_wait uv_run n rt = Some (SKYUV_ERROR_INVALID_STATE, passes uv_run n j rt)"
  using assms
proof (induction k arbitrary: n rt)
  case 0
  then show ?case by (subst (1 2) poll_wait.simps) (auto simp: reportable_def)
next
  case (Suc k)
  obtain alive rt1 where u: "uv_run n rt = (alive, rt1)" by fastforce
  show ?case
  proof (cases "reportable rt \<or> \<not> alive \<and> \<not> reportable rt1")
    case True
    then have "poll_wait uv_run n rt
        = Some (if reportable rt then (SKYUV_OK, rt) else (SKYUV_ERROR_INVALID_STATE, rt1))"
      by (subst poll_wait.simps) (auto simp: reportable_def u)
    with True show ?thesis
      by (cases "reportable rt") (auto simp: u intro: exI [of _ 0] exI [of _ "Suc 0"])
  next
    case False
    then have p: "poll_wait uv_run n rt = poll_wait uv_run (Suc n) rt1"
      by (subst poll_wait.simps) (auto simp: reportable_def u)
    from Suc.IH [of "Suc n" rt1] Suc.prems u obtain j where "j \<le> k"
      "poll_wait uv_run (Suc n) rt1 = Some (SKYUV_OK, passes uv_run (Suc n) j rt1) \<and> reportable (passes uv_run (Suc n) j rt1)
      \<or> poll_wait uv_run (Suc n) rt1 = Some (SKYUV_ERROR_INVALID_STATE, passes uv_run (Suc n) j rt1)"
      by auto
    then show ?thesis using p u by (intro exI [of _ "Suc j"]) simp
  qed
qed

end
