(* ===== verification/Socket_Typing.thy ===== *)
theory Socket_Typing
  imports Socket_Run
begin

text \<open>
  The command is one structure for fourteen types (\<^verbatim>\<open>struct skyuv_socket_command\<close>): which of its fields
  are set, and within which range, depends on the type. \<open>command_typed\<close> says which, and
  every command that the interface functions queue has this form, so that the network
  thread, which does not check the fields again, never reads an unset one.
\<close>

definition port_typed :: "command \<Rightarrow> bool" where
  "port_typed c \<longleftrightarrow> 0 \<le> c_port c \<and> c_port c \<le> 65535"

definition plain_typed :: "command \<Rightarrow> bool" where
  "plain_typed c \<longleftrightarrow> c_host c = None \<and> c_data c = None"

definition command_typed :: "command \<Rightarrow> bool" where
  "command_typed c \<longleftrightarrow>
     (case c_type c of
        COMMAND_LISTEN \<Rightarrow> 0 < sint (c_id c) \<and> c_host c \<noteq> None \<and> port_typed c \<and> 0 < c_backlog c
      | COMMAND_CONNECT \<Rightarrow> 0 < sint (c_id c) \<and> c_host c \<noteq> None \<and> port_typed c
      | COMMAND_UDP \<Rightarrow> 0 < sint (c_id c) \<and> c_host c \<noteq> None \<and> port_typed c
      | COMMAND_UDP_CONNECT \<Rightarrow> 0 < sint (c_id c) \<and> c_host c \<noteq> None \<and> port_typed c
      | COMMAND_BIND \<Rightarrow> 0 < sint (c_id c) \<and> 0 \<le> c_fd c \<and> plain_typed c
      | COMMAND_START \<Rightarrow> 0 < sint (c_id c) \<and> plain_typed c
      | COMMAND_PAUSE \<Rightarrow> 0 < sint (c_id c) \<and> plain_typed c
      | COMMAND_NODELAY \<Rightarrow> 0 < sint (c_id c) \<and> plain_typed c
      | COMMAND_CLOSE \<Rightarrow> 0 < sint (c_id c) \<and> plain_typed c
      | COMMAND_SHUTDOWN \<Rightarrow> 0 < sint (c_id c) \<and> plain_typed c
      | COMMAND_SEND \<Rightarrow> 0 < sint (c_id c) \<and> c_data c \<noteq> None \<and> c_ownership c = BUFFER_OWNED
          \<and> 0 < c_size c \<and> c_size c \<le> UINT_MAX
      | COMMAND_SEND_LOW \<Rightarrow> 0 < sint (c_id c) \<and> c_data c \<noteq> None \<and> c_ownership c = BUFFER_OWNED
          \<and> 0 < c_size c \<and> c_size c \<le> UINT_MAX
      | COMMAND_UDP_SEND \<Rightarrow> 0 < sint (c_id c) \<and> (c_data c = None \<longrightarrow> c_size c = 0)
          \<and> c_ownership c = BUFFER_OWNED \<and> c_size c \<le> UINT_MAX
          \<and> (c_address_size c = 0 \<or> c_address_size c = 7 \<or> c_address_size c = 19)
      | COMMAND_EXIT \<Rightarrow> plain_typed c)"

definition queue_typed :: "runtime \<Rightarrow> bool" where
  "queue_typed rt \<longleftrightarrow> list_all command_typed (q_items (r_commands rt))"

lemma queue_typed_commands: "r_commands rt' = r_commands rt \<Longrightarrow> queue_typed rt' = queue_typed rt"
  by (simp add: queue_typed_def)

lemma queue_typed_quiet: "quiet rt' = quiet rt \<Longrightarrow> queue_typed rt' = queue_typed rt"
  by (rule queue_typed_commands) (simp add: quiet_def outer_def)

section \<open>The interface functions\<close>

lemma typed_submit:
  assumes "queue_typed rt" and "command_typed c" and "skyuv_socket_runtime_submit rt c = (r, rt')"
  shows "queue_typed rt'"
  using submit_cases [OF assms(3)] assms(1,2)
  by (auto simp: queue_typed_def queue_push_locked_def upd_loop_def)

lemma typed_reserve:
  assumes "cfg_ok cfg" and "reserve_entry cfg alloc opq rt = (r, i, rt')"
  shows "queue_typed rt' = queue_typed rt" and "r = SKYUV_OK \<Longrightarrow> 0 < sint i"
proof -
  note cases = reserve_loop_cases [OF assms(1) assms(2) [unfolded reserve_entry_def]]
  show "queue_typed rt' = queue_typed rt"
    using quiet_reserve_loop [of cfg alloc opq "unat (SKYUV_SOCKET_SLOT_COUNT cfg)" rt] assms(2)
    by (intro queue_typed_quiet) (simp add: reserve_entry_def)
  show "0 < sint i" if "r = SKYUV_OK"
    using cases that id_make_positive [OF assms(1) _ next_generation_valid] by auto
qed

lemma typed_discard [simp]: "queue_typed (discard_uninitialized_entry cfg i rt) = queue_typed rt"
  by (rule queue_typed_quiet) (simp add: quiet_def frame_simps discard_uninitialized_entry_def)

lemma typed_upd_entry [simp]: "queue_typed (upd_entry cfg i f rt) = queue_typed rt"
  by (rule queue_typed_quiet) (simp add: quiet_def frame_simps)

lemma typed_open_socket:
  assumes cfg: "cfg_ok cfg" and rt: "queue_typed rt"
    and c: "\<And>i h. 0 < sint i \<Longrightarrow> command_typed (c\<lparr>c_host := Some h, c_id := i, c_opaque := opq\<rparr>)"
    and res: "open_socket cfg a opq host c rt = (r, i', rt')"
  shows "queue_typed rt'"
proof -
  obtain r1 i rt1 where r: "reserve_entry cfg (a_entry a) opq rt = (r1, i, rt1)"
    by (cases "reserve_entry cfg (a_entry a) opq rt")
  have rt1: "queue_typed rt1" using typed_reserve(1) [OF cfg r] rt by simp
  show ?thesis
    using res r rt1 c [OF typed_reserve(2) [OF cfg r], of host]
    by (auto simp: open_socket_def copy_string_def Let_def split: if_splits prod.splits
        dest: typed_submit [OF rt1, rotated])
qed

lemma typed_bind:
  assumes cfg: "cfg_ok cfg" and rt: "queue_typed rt"
    and res: "skyuv_socket_runtime_bind cfg a (Some rt) fd opq p = (r, i', Some rt')"
  shows "queue_typed rt'"
proof -
  obtain r1 i rt1 where r: "reserve_entry cfg (a_entry a) opq rt = (r1, i, rt1)"
    by (cases "reserve_entry cfg (a_entry a) opq rt")
  have rt1: "queue_typed rt1" using typed_reserve(1) [OF cfg r] rt by simp
  let ?c = "command0\<lparr>c_type := COMMAND_BIND, c_id := i, c_opaque := opq, c_fd := fd\<rparr>"
  have c: "command_typed ?c" if "r1 = SKYUV_OK" "\<not> fd < 0"
    using typed_reserve(2) [OF cfg r that(1)] that(2)
    by (simp add: command_typed_def plain_typed_def command0_def)
  let ?rt2 = "upd_entry cfg i (\<lambda>e. e\<lparr>e_external_fd := fd\<rparr>) rt1"
  obtain r3 rt3 where s: "skyuv_socket_runtime_submit ?rt2 ?c = (r3, rt3)" by fastforce
  have "queue_typed rt3" if "r1 = SKYUV_OK" "\<not> fd < 0"
    using typed_submit [OF _ c [OF that] s] rt1 by simp
  then show ?thesis
    using res r rt rt1 s by (auto simp: skyuv_socket_runtime_bind_def Let_def split: if_splits)
qed

lemma typed_send_command:
  assumes rt: "queue_typed rt" and c: "\<And>p rel. (case own of BUFFER_OWNED \<Rightarrow> p = snd b | BUFFER_BORROWED \<Rightarrow> p \<noteq> None) \<Longrightarrow>
      command_typed (c\<lparr>c_data := p, c_release := rel, c_ownership := BUFFER_OWNED\<rparr>)"
    and res: "send_command a own b c rt = (r, rt')"
  shows "queue_typed rt'"
proof (cases "take_data a own b rt")
  case None
  then show ?thesis using res rt by (simp add: send_command_def)
next
  case (Some t)
  then obtain b1 rt1 where t: "take_data a own b rt = Some (b1, rt1)" by (cases t) auto
  have rt1: "queue_typed rt1" and b1: "case own of BUFFER_OWNED \<Rightarrow> snd b1 = snd b | BUFFER_BORROWED \<Rightarrow> snd b1 \<noteq> None"
    using t rt by (auto simp: take_data_def queue_typed_def split: buffer_ownership.splits option.splits)
  let ?c = "c\<lparr>c_data := snd b1, c_release := fst b1, c_ownership := BUFFER_OWNED\<rparr>"
  obtain r2 rt2 where s: "skyuv_socket_runtime_submit rt1 ?c = (r2, rt2)" by fastforce
  have "queue_typed rt2" by (rule typed_submit [OF rt1 c [OF b1] s])
  then show ?thesis
    using res t s rt1 by (auto simp: send_command_def Let_def queue_typed_def split: if_splits)
qed

lemma typed_submit_for_id:
  assumes "queue_typed rt" and "0 < sint (c_id c) \<Longrightarrow> command_typed c"
    and "submit_for_id a (Some rt) c = (r, Some rt')"
  shows "queue_typed rt'"
  using assms by (auto simp: submit_for_id_def map_prod_def split: if_splits prod.splits
      dest: typed_submit [rotated 2])

lemma typed_runtime_send:
  assumes rt: "queue_typed rt" and res: "runtime_send a (Some rt) i data sz own rel low = (r, Some rt')"
  shows "queue_typed rt'"
proof (cases "sint i \<le> 0 \<or> data = None \<or> sz = 0 \<or> sz > UINT_MAX")
  case False
  let ?c = "command0\<lparr>c_type := if low then COMMAND_SEND_LOW else COMMAND_SEND, c_id := i, c_size := sz\<rparr>"
  obtain r2 rt2 where s: "send_command a own (rel, data) ?c rt = (r2, rt2)" by fastforce
  have "queue_typed rt2"
    by (rule typed_send_command [OF rt _ s])
       (use False in \<open>auto simp: command_typed_def not_le not_less word_gt_0 split: buffer_ownership.splits\<close>)
  with False s res show ?thesis by (auto simp: runtime_send_def)
qed (use rt res in \<open>auto simp: runtime_send_def\<close>)

lemma typed_udp_send:
  assumes rt: "queue_typed rt"
    and res: "skyuv_socket_runtime_udp_send a (Some rt) i addr asz data sz own rel = (r, Some rt')"
  shows "queue_typed rt'"
proof -
  let ?c = "command0\<lparr>c_type := COMMAND_UDP_SEND, c_id := i, c_size := sz, c_address_size := asz,
    c_address := (case addr of None \<Rightarrow> [] | Some bs \<Rightarrow> take (unat asz) bs)\<rparr>"
  obtain r2 rt2 where s: "send_command a own (rel, data) ?c rt = (r2, rt2)" by fastforce
  have "queue_typed rt2" if "0 < sint i" "data = None \<longrightarrow> sz = 0" "sz \<le> UINT_MAX" "asz = 0 \<or> asz = 7 \<or> asz = 19"
    by (rule typed_send_command [OF rt _ s])
       (use that in \<open>auto simp: command_typed_def split: buffer_ownership.splits\<close>)
  with rt s res show ?thesis
    by (auto simp: skyuv_socket_runtime_udp_send_def not_le not_less word_gt_0 split: if_splits)
qed

lemma typed_exit:
  assumes "queue_typed rt" and "skyuv_socket_runtime_exit a (Some rt) = (r, Some rt')"
  shows "queue_typed rt'"
  using assms
  by (auto simp: skyuv_socket_runtime_exit_def skyuv_socket_command_queue_stop_def queue_typed_def
      queue_push_locked_def upd_loop_def command_typed_def plain_typed_def command0_def split: if_splits)

lemma typed_api_step:
  assumes cfg: "cfg_ok cfg" and "api_step cfg rt rt'" and rt: "queue_typed rt"
  shows "queue_typed rt'"
proof -
  note opens = typed_open_socket [OF cfg rt, rotated]
  note sub = typed_submit [OF rt, rotated]
  note typed = command_typed_def plain_typed_def port_typed_def command0_def
  from assms(2) show ?thesis
  proof cases
    case (api_listen a host port backlog opq p r i)
    then show ?thesis
      using rt by (auto simp: skyuv_socket_runtime_listen_def typed
          split: option.splits if_splits prod.splits intro!: opens)
  next
    case (api_connect a host port opq p r i)
    then show ?thesis
      using rt by (auto simp: skyuv_socket_runtime_connect_def typed
          split: option.splits if_splits prod.splits intro!: opens)
  next
    case (api_udp a host port opq p r i)
    then show ?thesis
      using rt by (auto simp: skyuv_socket_runtime_udp_def Let_def typed
          split: if_splits prod.splits intro!: opens)
  next
    case (api_bind a fd opq p r i)
    then show ?thesis by (rule typed_bind [OF cfg rt])
  next
    case (api_udp_connect a j host port r)
    then show ?thesis
      using rt by (auto simp: skyuv_socket_runtime_udp_connect_def copy_string_def map_prod_def typed
          split: option.splits if_splits prod.splits intro!: sub)
  next
    case (api_start a j opq r)
    then show ?thesis
      using rt by (auto simp: skyuv_socket_runtime_start_def typed split: if_splits prod.splits intro!: sub)
  next
    case (api_pause a j opq r)
    then show ?thesis unfolding skyuv_socket_runtime_pause_def
      by (rule typed_submit_for_id [OF rt, rotated]) (simp add: typed)
  next
    case (api_nodelay a j r)
    then show ?thesis unfolding skyuv_socket_runtime_nodelay_def
      by (rule typed_submit_for_id [OF rt, rotated]) (simp add: typed)
  next
    case (api_close a j opq r)
    then show ?thesis unfolding skyuv_socket_runtime_close_def
      by (rule typed_submit_for_id [OF rt, rotated]) (simp add: typed)
  next
    case (api_shutdown a j opq r)
    then show ?thesis unfolding skyuv_socket_runtime_shutdown_def
      by (rule typed_submit_for_id [OF rt, rotated]) (simp add: typed)
  next
    case (api_send a j data sz own rel r)
    then show ?thesis unfolding skyuv_socket_runtime_send_def by (rule typed_runtime_send [OF rt])
  next
    case (api_send_low a j data sz own rel r)
    then show ?thesis unfolding skyuv_socket_runtime_send_low_def by (rule typed_runtime_send [OF rt])
  next
    case (api_udp_send a j addr asz data sz own rel r)
    then show ?thesis by (rule typed_udp_send [OF rt])
  next
    case (api_exit a r)
    then show ?thesis by (rule typed_exit [OF rt])
  next
    case (api_updatetime tm)
    then show ?thesis using rt by (auto simp: skyuv_socket_runtime_updatetime_def queue_typed_def)
  next
    case (api_take_shutdown b)
    then show ?thesis using rt by (auto simp: skyuv_socket_runtime_take_process_shutdown_def queue_typed_def)
  qed
qed

section \<open>The network thread\<close>

lemma typed_pop:
  assumes "queue_typed rt" and "pop_command rt = (Some c, rt1)"
  shows "command_typed c" and "queue_typed rt1"
  using assms pop_command_Some [OF assms(2)] by (auto simp: queue_typed_def)

lemma typed_loop_step:
  assumes "loop_step cfg s s'" and "queue_typed (snd s)"
  shows "queue_typed (snd s')"
  using assms
proof cases
  case (wake rt)
  then show ?thesis using assms(2) by (simp add: queue_typed_def upd_loop_def)
next
  case (command rt c rt1 env)
  have "queue_typed rt1" using typed_pop(2) [OF _ command(3)] assms(2) command(1) by simp
  moreover have "r_commands (process_command cfg env c rt1) = r_commands rt1"
    by (rule outer_commands_eq) (simp add: frame_simps)
  ultimately show ?thesis by (simp add: command(2) queue_typed_def)
next
  case (pump rt i rest env)
  have "r_commands (pump_one cfg env i rt) = r_commands rt"
    by (rule outer_commands_eq) (simp add: frame_simps)
  then show ?thesis using assms(2) by (simp add: pump(1,2) queue_typed_def)
qed (use assms(2) in \<open>simp_all, (subst queue_typed_quiet, simp_all add: callback_quiet)+\<close>)

lemma reachable_typed:
  assumes "cfg_ok cfg" and "reachable cfg s"
  shows "queue_typed (snd s)"
  using assms(2)
proof induction
  case (created k rt)
  then show ?case
    by (auto simp: skyuv_socket_runtime_create_def skyuv_socket_command_queue_init_def queue_typed_def
        created_runtime_def split: if_splits)
next
  case (by_api m rt rt')
  then show ?case using typed_api_step [OF assms(1)] by simp
next
  case (by_loop m rt s')
  then show ?case using typed_loop_step by fastforce
qed

text \<open>
  C7. Commands are well typed: in every reachable state each command in the queue has the fields its
  type needs, within their ranges. An opening command has a positive id, a host and a port of 16 bits,
  a listening one a positive backlog, and a binding one a descriptor; a send has data that the
  runtime owns and a size that fits the 32 bits of a libuv buffer, never zero for TCP; a datagram has an address of a
  known length or none. So does the command that the network thread takes next.
\<close>

theorem queued_commands_typed:
  assumes "cfg_ok cfg" and "reachable cfg (m, rt)"
  shows "(\<forall>c \<in> set (q_items (r_commands rt)). command_typed c)
    \<and> (\<forall>c rt1. pop_command rt = (Some c, rt1) \<longrightarrow> command_typed c)"
  using reachable_typed [OF assms] typed_pop(1)
  by (auto simp: queue_typed_def list_all_iff)

definition ex_queued :: "action list" where
  "ex_queued = ex_connected @ [Do_send 4 100 10, Do_listen ''0.0.0.0'' 80 5 1, Do_exit]"

theorem queued_commands_typed_witness:
  "list_all command_typed (q_items (r_commands (ex_rt ex_queued)))
    \<and> map c_type (q_items (r_commands (ex_rt ex_queued))) = [COMMAND_SEND, COMMAND_LISTEN, COMMAND_EXIT]
    \<and> \<not> command_typed (command0\<lparr>c_type := COMMAND_SEND, c_id := 4, c_size := 10\<rparr>)"
proof -
  have "ex_mode ex_queued = Some Waiting" by code_simp
  then have "reachable ex_cfg (Waiting, ex_rt ex_queued)" by (rule ex_rt_reachable)
  from queued_commands_typed [OF ex_cfg_ok this]
  have "list_all command_typed (q_items (r_commands (ex_rt ex_queued)))" by (simp add: list_all_iff)
  moreover have "map c_type (q_items (r_commands (ex_rt ex_queued))) = [COMMAND_SEND, COMMAND_LISTEN, COMMAND_EXIT]"
    by code_simp
  ultimately show ?thesis by (simp add: command_typed_def command0_def)
qed

end
