(* ===== verification/Clock.thy ===== *)
theory Clock
  imports Skyuv_Prelude
begin

text \<open>
  Clocks and pauses: \<^verbatim>\<open>src/src/platform/time.c\<close>, the replacement of \<^verbatim>\<open>clock_gettime\<close> in
  \<^verbatim>\<open>compat/skynet/skyuv_time.h\<close>, and the Windows replacements of \<^verbatim>\<open>sleep\<close> and \<^verbatim>\<open>usleep\<close> in
  \<^verbatim>\<open>compat/skynet/start/unistd.h\<close>. Signed fields of libuv's structures are integers;
  times are 64-bit words, and their arithmetic wraps. What libuv's clock functions
  return is a parameter.
\<close>

section \<open>Conversions\<close>

record uv_timeval =
  tv_sec :: int
  tv_usec :: int

record uv_timespec64 =
  ts_sec :: int
  ts_nsec :: int

definition NANOSECONDS_PER_SECOND :: u64 where
  "NANOSECONDS_PER_SECOND = 1000000000"

definition NANOSECONDS_PER_MICROSECOND :: u64 where
  "NANOSECONDS_PER_MICROSECOND = 1000"

definition UINT64_MAX :: u64 where
  "UINT64_MAX = - 1"

text \<open>\<open>Inl\<close> is the error returned, \<open>Inr\<close> the value stored through the pointer.\<close>

definition timeval_to_nanoseconds :: "uv_timeval \<Rightarrow> skyuv_error + u64" where
  "timeval_to_nanoseconds t =
     (if tv_sec t < 0 \<or> tv_usec t < 0 then Inl SKYUV_ERROR_SYSTEM
      else
        let seconds = of_int (tv_sec t); microseconds = of_int (tv_usec t)
        in if seconds > UINT64_MAX div NANOSECONDS_PER_SECOND then Inl SKYUV_ERROR_SYSTEM
           else Inr (seconds * NANOSECONDS_PER_SECOND + microseconds * NANOSECONDS_PER_MICROSECOND))"

section \<open>Clocks\<close>

text \<open>
  \<open>ptr\<close>: the output pointer is not NULL. \<open>clock\<close>, \<open>rusage\<close> and \<open>hrtime\<close> are the results of
  \<^verbatim>\<open>uv_clock_gettime\<close>, \<^verbatim>\<open>uv_getrusage_thread\<close> and \<^verbatim>\<open>uv_hrtime\<close>.
\<close>

definition skyuv_time_monotonic :: "u64 \<Rightarrow> bool \<Rightarrow> skyuv_error + u64" where
  "skyuv_time_monotonic hrtime p =
     (if \<not> p then Inl SKYUV_ERROR_INVALID_ARGUMENT else Inr hrtime)"

definition skyuv_time_realtime :: "uv_code \<times> uv_timespec64 \<Rightarrow> bool \<Rightarrow> skyuv_error + u64" where
  "skyuv_time_realtime clock p =
     (if \<not> p then Inl SKYUV_ERROR_INVALID_ARGUMENT
      else case clock of (result, t) \<Rightarrow>
        if result \<noteq> UV_OK \<or> ts_sec t < 0 \<or> ts_nsec t < 0 \<or> ts_nsec t \<ge> 1000000000
        then Inl SKYUV_ERROR_SYSTEM
        else if of_int (ts_sec t) > UINT64_MAX div NANOSECONDS_PER_SECOND
        then Inl SKYUV_ERROR_SYSTEM
        else Inr (of_int (ts_sec t) * NANOSECONDS_PER_SECOND + of_int (ts_nsec t)))"

definition skyuv_time_thread_cpu ::
    "uv_code \<times> uv_timeval \<times> uv_timeval \<Rightarrow> bool \<Rightarrow> skyuv_error + u64" where
  "skyuv_time_thread_cpu rusage p =
     (if \<not> p then Inl SKYUV_ERROR_INVALID_ARGUMENT
      else case rusage of (result, utime, stime) \<Rightarrow>
        if result = UV_ENOTSUP then Inl SKYUV_ERROR_NOT_SUPPORTED
        else if result \<noteq> UV_OK then Inl SKYUV_ERROR_SYSTEM
        else case timeval_to_nanoseconds utime of
          Inl _ \<Rightarrow> Inl SKYUV_ERROR_SYSTEM
        | Inr user_ns \<Rightarrow>
            (case timeval_to_nanoseconds stime of
               Inl _ \<Rightarrow> Inl SKYUV_ERROR_SYSTEM
             | Inr system_ns \<Rightarrow>
                 if user_ns > UINT64_MAX - system_ns then Inl SKYUV_ERROR_SYSTEM
                 else Inr (user_ns + system_ns)))"

text \<open>
  \<^verbatim>\<open>clock_gettime\<close> for Skynet: the three clocks it knows, and -1 for the others. \<open>None\<close>
  is the result -1, \<open>Some\<close> the structure that was filled in.
\<close>

record uv_clocks =
  k_real :: "uv_code \<times> uv_timespec64"
  k_hrtime :: u64
  k_rusage :: "uv_code \<times> uv_timeval \<times> uv_timeval"

definition CLOCK_REALTIME :: int where "CLOCK_REALTIME = 0"
definition CLOCK_MONOTONIC :: int where "CLOCK_MONOTONIC = 1"
definition CLOCK_THREAD_CPUTIME_ID :: int where "CLOCK_THREAD_CPUTIME_ID = 2"

definition skyuv_compat_clock_gettime :: "uv_clocks \<Rightarrow> int \<Rightarrow> uv_timespec64 option" where
  "skyuv_compat_clock_gettime k clock_id =
     (let result =
        (if clock_id = CLOCK_REALTIME then Some (skyuv_time_realtime (k_real k) True)
         else if clock_id = CLOCK_MONOTONIC then Some (skyuv_time_monotonic (k_hrtime k) True)
         else if clock_id = CLOCK_THREAD_CPUTIME_ID then Some (skyuv_time_thread_cpu (k_rusage k) True)
         else None)
      in case result of
           Some (Inr time_ns) \<Rightarrow>
             Some \<lparr>ts_sec = sint (time_ns div 1000000000), ts_nsec = sint (time_ns mod 1000000000)\<rparr>
         | _ \<Rightarrow> None)"

section \<open>Pauses\<close>

text \<open>The number of milliseconds \<^verbatim>\<open>uv_sleep\<close> is called with.\<close>

definition skyuv_compat_sleep :: "u32 \<Rightarrow> u32" where
  "skyuv_compat_sleep seconds = seconds * 1000"

definition skyuv_compat_usleep :: "u32 \<Rightarrow> u32" where
  "skyuv_compat_usleep microseconds = (microseconds + 999) div 1000"

section \<open>Arithmetic\<close>

lemma uint_of_int_small: "0 \<le> k \<Longrightarrow> k < 2 ^ 64 \<Longrightarrow> uint (of_int k :: u64) = k"
  by (simp add: uint_word_of_int_eq take_bit_int_eq_self)

lemma sint_small:
  assumes "uint w < 2 ^ 63"
  shows "sint (w :: u64) = uint w"
proof -
  have "- (2 ^ 63) \<le> uint w" by (rule order_trans [OF _ uint_nonnegative]) simp
  with assms have "signed_take_bit 63 (uint w) = uint w" by (simp add: signed_take_bit_int_eq_self)
  then show ?thesis by (simp add: sint_uint)
qed

lemma sint_quotient: "sint (w div 1000000000 :: u64) = uint w div 1000000000"
proof -
  have "uint w < 2 ^ 64" using uint_bounded [of w] by simp
  then have "uint (w div 1000000000) < 2 ^ 63" by (simp add: uint_div_distrib)
  then show ?thesis by (simp add: sint_small uint_div_distrib)
qed

lemma sint_remainder: "sint (w mod 1000000000 :: u64) = uint w mod 1000000000"
proof -
  have "uint (w mod 1000000000) < 2 ^ 63"
    using pos_mod_bound [of 1000000000 "uint w"] by (simp add: uint_mod_distrib)
  then show ?thesis by (simp add: sint_small uint_mod_distrib)
qed

lemma seconds_limit: "UINT64_MAX div NANOSECONDS_PER_SECOND = 18446744073"
  by (simp add: UINT64_MAX_def NANOSECONDS_PER_SECOND_def)

lemma of_int_le_limit:
  assumes "0 \<le> s" and "s < 2 ^ 63"
  shows "(of_int s :: u64) > 18446744073 \<longleftrightarrow> s > 18446744073"
proof -
  have "uint (of_int s :: u64) = s" using assms by (simp add: uint_word_of_int_eq take_bit_int_eq_self)
  then show ?thesis by (simp add: word_less_def)
qed

section \<open>Properties\<close>



text \<open>
  \<^verbatim>\<open>clock_gettime\<close> splits the nanoseconds without loss: the seconds and nanoseconds it
  stores make up the time the clock returned, and the nanoseconds are below a second. It
  fails exactly for an unknown clock or when the clock function fails.
\<close>

theorem clock_gettime_exact:
  assumes "(clock_id, reading) \<in> {(CLOCK_REALTIME, skyuv_time_realtime (k_real k) True),
      (CLOCK_MONOTONIC, skyuv_time_monotonic (k_hrtime k) True),
      (CLOCK_THREAD_CPUTIME_ID, skyuv_time_thread_cpu (k_rusage k) True)}"
  shows "(case reading of
      Inl _ \<Rightarrow> skyuv_compat_clock_gettime k clock_id = None
    | Inr time_ns \<Rightarrow>
        (\<exists>t. skyuv_compat_clock_gettime k clock_id = Some t \<and> 0 \<le> ts_nsec t \<and>
           ts_nsec t < 1000000000 \<and> ts_sec t * 1000000000 + ts_nsec t = uint time_ns)) \<and>
    (other \<notin> {CLOCK_REALTIME, CLOCK_MONOTONIC, CLOCK_THREAD_CPUTIME_ID} \<longrightarrow>
       skyuv_compat_clock_gettime k other = None)"
  using assms
  by (auto simp: skyuv_compat_clock_gettime_def Let_def CLOCK_REALTIME_def CLOCK_MONOTONIC_def
      CLOCK_THREAD_CPUTIME_ID_def sint_quotient sint_remainder split: sum.splits)

theorem clock_gettime_exact_witness:
  "\<exists>t. skyuv_compat_clock_gettime \<lparr>k_real = (UV_OK, \<lparr>ts_sec = 5, ts_nsec = 7\<rparr>), k_hrtime = 12345678901,
       k_rusage = (UV_ENOTSUP, \<lparr>tv_sec = 0, tv_usec = 0\<rparr>, \<lparr>tv_sec = 0, tv_usec = 0\<rparr>)\<rparr> CLOCK_MONOTONIC = Some t \<and>
     ts_sec t * 1000000000 + ts_nsec t = 12345678901"
  using clock_gettime_exact [of CLOCK_MONOTONIC "Inr 12345678901"
      "\<lparr>k_real = (UV_OK, \<lparr>ts_sec = 5, ts_nsec = 7\<rparr>), k_hrtime = 12345678901,
        k_rusage = (UV_ENOTSUP, \<lparr>tv_sec = 0, tv_usec = 0\<rparr>, \<lparr>tv_sec = 0, tv_usec = 0\<rparr>)\<rparr>"]
  by (auto simp: skyuv_time_monotonic_def)

text \<open>
  The thread's processor time: when the sum of user and system time fits 64 bits and
  each is converted without loss, the result is the sum; a sum that does not fit is an
  error and never a small number.
\<close>

theorem thread_cpu_no_wrap:
  assumes "timeval_to_nanoseconds u = Inr user_ns" and "timeval_to_nanoseconds s = Inr system_ns"
  shows "skyuv_time_thread_cpu (UV_OK, u, s) True =
    (if uint user_ns + uint system_ns < 2 ^ 64
     then Inr (of_int (uint user_ns + uint system_ns)) else Inl SKYUV_ERROR_SYSTEM)"
proof -
  have "uint (UINT64_MAX - system_ns) = 2 ^ 64 - 1 - uint system_ns"
  proof -
    have "UINT64_MAX - system_ns = of_int (2 ^ 64 - 1 - uint system_ns)"
      by (simp add: UINT64_MAX_def)
    moreover have "0 \<le> 2 ^ 64 - 1 - uint system_ns" "2 ^ 64 - 1 - uint system_ns < 2 ^ 64"
      using uint_bounded [of system_ns] uint_nonnegative [of system_ns] by (simp, linarith)
    ultimately show ?thesis by (simp only: uint_of_int_small)
  qed
  then have "user_ns > UINT64_MAX - system_ns \<longleftrightarrow> \<not> uint user_ns + uint system_ns < 2 ^ 64"
    unfolding word_less_def by linarith
  then show ?thesis using assms by (simp add: skyuv_time_thread_cpu_def)
qed

theorem thread_cpu_no_wrap_witness:
  "skyuv_time_thread_cpu (UV_OK, \<lparr>tv_sec = 1, tv_usec = 2\<rparr>, \<lparr>tv_sec = 18446744073, tv_usec = 0\<rparr>) True
     = Inl SKYUV_ERROR_SYSTEM"
  using thread_cpu_no_wrap [of "\<lparr>tv_sec = 1, tv_usec = 2\<rparr>" 1000002000
      "\<lparr>tv_sec = 18446744073, tv_usec = 0\<rparr>" 18446744073000000000]
  by (simp add: timeval_to_nanoseconds_def UINT64_MAX_def NANOSECONDS_PER_SECOND_def
      NANOSECONDS_PER_MICROSECOND_def)

text \<open>
  The Windows replacements of \<^verbatim>\<open>sleep\<close> and \<^verbatim>\<open>usleep\<close> pause for at least the time asked
  for and less than a millisecond more, for up to 4294967 seconds and up to 4294966296
  microseconds. A longer \<^verbatim>\<open>usleep\<close> wraps and does not pause at all.
\<close>

theorem pauses_long_enough:
  "(unat s \<le> 4294967 \<longrightarrow> unat (skyuv_compat_sleep s) = unat s * 1000) \<and>
   (unat us \<le> 4294966296 \<longrightarrow>
      unat us \<le> unat (skyuv_compat_usleep us) * 1000 \<and>
      unat (skyuv_compat_usleep us) * 1000 < unat us + 1000) \<and>
   (4294966296 < unat us \<longrightarrow> skyuv_compat_usleep us = 0)"
proof (intro conjI impI)
  assume "unat s \<le> 4294967"
  then show "unat (skyuv_compat_sleep s) = unat s * 1000"
    by (simp add: skyuv_compat_sleep_def unat_word_ariths)
next
  assume "unat us \<le> 4294966296"
  then have u: "unat (skyuv_compat_usleep us) = (unat us + 999) div 1000"
    by (simp add: skyuv_compat_usleep_def unat_div_distrib unat_word_ariths)
  show "unat us \<le> unat (skyuv_compat_usleep us) * 1000"
    and "unat (skyuv_compat_usleep us) * 1000 < unat us + 1000"
    unfolding u by linarith+
next
  assume big: "4294966296 < unat us"
  have "unat us < 4294967296" using unsigned_less [of us, where ?'a = nat] by simp
  then have "unat (us + 999) = unat us + 999 - 4294967296" and "unat us + 999 - 4294967296 < 1000"
    using big by (simp_all add: unat_word_ariths mod_if)
  then show "skyuv_compat_usleep us = 0"
    by (simp add: skyuv_compat_usleep_def word_unat_eq_iff unat_div_distrib)
qed

theorem pauses_long_enough_witness:
  "unat (skyuv_compat_usleep 1500) = 2 \<and> skyuv_compat_usleep 4294967295 = 0"
proof -
  have "skyuv_compat_usleep 4294967295 = 0" using pauses_long_enough [of 0 4294967295] by simp
  moreover have "unat (skyuv_compat_usleep 1500) = 2"
    using pauses_long_enough [of 0 1500] by simp
  ultimately show ?thesis by simp
qed

end
