(* ===== verification/Memory.thy ===== *)
theory Memory
  imports Skyuv_Prelude
begin

text \<open>
  The allocator interface (\<^verbatim>\<open>src/src/memory/memory.c\<close>), in its Windows form, which puts a
  header in front of an aligned block of \<^verbatim>\<open>HeapAlloc\<close>, and in its form for the other
  platforms, which forwards to the C library or jemalloc. Sizes and addresses are 64-bit
  words. The system allocator is a parameter.
\<close>

section \<open>Windows\<close>

text \<open>
  \<open>ha_alloc\<close>: what \<^verbatim>\<open>HeapAlloc\<close> returns for a size; \<open>ha_junk\<close>: the bytes a block holds that
  was not requested as zero. The headers are kept apart from the bytes of the blocks.
\<close>

record heap_api =
  ha_alloc :: "size_t \<Rightarrow> uintptr option"
  ha_junk :: "uintptr \<Rightarrow> u8"

record memory_header =
  hd_base :: uintptr
  hd_size :: size_t

record win_heap =
  wh_header :: "uintptr \<Rightarrow> memory_header"
  wh_mem :: "uintptr \<Rightarrow> u8"
  wh_freed :: "uintptr list"

definition sizeof_pointer :: size_t where
  "sizeof_pointer = 8"

definition sizeof_header :: size_t where
  "sizeof_header = 16"

definition SIZE_MAX :: size_t where
  "SIZE_MAX = 0xFFFFFFFFFFFFFFFF"

definition SKYUV_WINDOWS_DEFAULT_ALIGNMENT :: size_t where
  "SKYUV_WINDOWS_DEFAULT_ALIGNMENT = 2 * sizeof_pointer"

definition skyuv_is_power_of_two :: "size_t \<Rightarrow> bool" where
  "skyuv_is_power_of_two value \<longleftrightarrow> value \<noteq> 0 \<and> value AND (value - 1) = 0"

definition normalized :: "size_t \<Rightarrow> size_t" where
  "normalized sz = (if sz = 0 then 1 else sz)"

definition skyuv_heap_allocate ::
    "heap_api \<Rightarrow> size_t \<Rightarrow> size_t \<Rightarrow> bool \<Rightarrow> win_heap \<Rightarrow> uintptr option \<times> win_heap" where
  "skyuv_heap_allocate api alignment sz zero_memory h =
     (if \<not> skyuv_is_power_of_two alignment \<or> alignment < sizeof_pointer then (None, h)
      else
        let extra = sizeof_header + alignment - 1
        in if normalized sz > SIZE_MAX - extra then (None, h)
           else case ha_alloc api (normalized sz + extra) of
             None \<Rightarrow> (None, h)
           | Some base \<Rightarrow>
               let candidate = base + sizeof_header;
                   aligned = (candidate + alignment - 1) AND NOT (alignment - 1)
               in (Some aligned,
                   h\<lparr>wh_mem := (\<lambda>x. if x - base < normalized sz + extra
                                    then (if zero_memory then 0 else ha_junk api x) else wh_mem h x),
                     wh_header := (wh_header h)(aligned - sizeof_header :=
                                    \<lparr>hd_base = base, hd_size = normalized sz\<rparr>)\<rparr>))"

definition skyuv_malloc :: "heap_api \<Rightarrow> size_t \<Rightarrow> win_heap \<Rightarrow> uintptr option \<times> win_heap" where
  "skyuv_malloc api sz h = skyuv_heap_allocate api SKYUV_WINDOWS_DEFAULT_ALIGNMENT sz False h"

definition skyuv_calloc ::
    "heap_api \<Rightarrow> size_t \<Rightarrow> size_t \<Rightarrow> win_heap \<Rightarrow> uintptr option \<times> win_heap" where
  "skyuv_calloc api cnt sz h =
     (if cnt \<noteq> 0 \<and> sz > SIZE_MAX div cnt then (None, h)
      else skyuv_heap_allocate api SKYUV_WINDOWS_DEFAULT_ALIGNMENT (cnt * sz) True h)"

definition skyuv_free :: "uintptr option \<Rightarrow> win_heap \<Rightarrow> win_heap" where
  "skyuv_free p h =
     (case p of
        None \<Rightarrow> h
      | Some p \<Rightarrow> h\<lparr>wh_freed := wh_freed h @ [hd_base (wh_header h (p - sizeof_header))]\<rparr>)"

definition memcpy :: "uintptr \<Rightarrow> uintptr \<Rightarrow> size_t \<Rightarrow> (uintptr \<Rightarrow> u8) \<Rightarrow> uintptr \<Rightarrow> u8" where
  "memcpy dst src n mem = (\<lambda>x. if x - dst < n then mem (src + (x - dst)) else mem x)"

definition skyuv_realloc ::
    "heap_api \<Rightarrow> uintptr option \<Rightarrow> size_t \<Rightarrow> win_heap \<Rightarrow> uintptr option \<times> win_heap" where
  "skyuv_realloc api p sz h =
     (case p of
        None \<Rightarrow> skyuv_malloc api sz h
      | Some p \<Rightarrow>
          if sz = 0 then (None, skyuv_free (Some p) h)
          else
            let header = wh_header h (p - sizeof_header)
            in case skyuv_malloc api sz h of
                 (None, h1) \<Rightarrow> (None, h1)
               | (Some replacement, h1) \<Rightarrow>
                   let copy_size = (if hd_size header < sz then hd_size header else sz)
                   in (Some replacement,
                       skyuv_free (Some p) (h1\<lparr>wh_mem := memcpy replacement p copy_size (wh_mem h1)\<rparr>)))"

definition skyuv_aligned_alloc ::
    "heap_api \<Rightarrow> size_t \<Rightarrow> size_t \<Rightarrow> win_heap \<Rightarrow> uintptr option \<times> win_heap" where
  "skyuv_aligned_alloc api alignment sz h = skyuv_heap_allocate api alignment sz False h"

text \<open>\<open>res\<close>: the result pointer is not NULL; the second component is what is stored there.\<close>

datatype memalign_result = Memalign_ok | Memalign_EINVAL | Memalign_ENOMEM

definition skyuv_posix_memalign ::
    "heap_api \<Rightarrow> bool \<Rightarrow> size_t \<Rightarrow> size_t \<Rightarrow> win_heap
      \<Rightarrow> memalign_result \<times> uintptr option \<times> win_heap" where
  "skyuv_posix_memalign api res alignment sz h =
     (if \<not> res \<or> \<not> skyuv_is_power_of_two alignment \<or> alignment < sizeof_pointer
      then (Memalign_EINVAL, None, h)
      else case skyuv_aligned_alloc api alignment sz h of
             (None, h1) \<Rightarrow> (Memalign_ENOMEM, None, h1)
           | (Some p, h1) \<Rightarrow> (Memalign_ok, Some p, h1))"

section \<open>The other platforms\<close>

text \<open>
  The call the backend gets. \<open>Refused\<close>: NULL is returned without a call.
\<close>

datatype backend_call =
    Refused
  | Backend_malloc size_t
  | Backend_calloc size_t size_t
  | Backend_realloc "ptr option" size_t
  | Backend_free "ptr option"
  | Backend_memalign size_t size_t

definition posix_malloc :: "size_t \<Rightarrow> backend_call" where
  "posix_malloc sz = Backend_malloc (if sz = 0 then 1 else sz)"

definition posix_calloc :: "size_t \<Rightarrow> size_t \<Rightarrow> backend_call" where
  "posix_calloc cnt sz =
     (if cnt \<noteq> 0 \<and> sz > SIZE_MAX div cnt then Refused
      else if cnt = 0 \<or> sz = 0 then Backend_calloc 1 1
      else Backend_calloc cnt sz)"

definition posix_realloc :: "ptr option \<Rightarrow> size_t \<Rightarrow> backend_call" where
  "posix_realloc p sz = (if sz = 0 then Backend_free p else Backend_realloc p sz)"

definition posix_free :: "ptr option \<Rightarrow> backend_call" where
  "posix_free p = Backend_free p"

definition posix_aligned_alloc :: "size_t \<Rightarrow> size_t \<Rightarrow> backend_call" where
  "posix_aligned_alloc alignment sz =
     (if alignment < sizeof_pointer \<or> alignment AND (alignment - 1) \<noteq> 0 then Refused
      else Backend_memalign alignment (if sz = 0 then 1 else sz))"

definition posix_posix_memalign :: "bool \<Rightarrow> size_t \<Rightarrow> size_t \<Rightarrow> memalign_result + backend_call" where
  "posix_posix_memalign res alignment sz =
     (if \<not> res \<or> alignment < sizeof_pointer \<or> alignment AND (alignment - 1) \<noteq> 0
      then Inl Memalign_EINVAL
      else Inr (Backend_memalign alignment (if sz = 0 then 1 else sz)))"

text \<open>Skynet's allocator for Lua.\<close>

definition skynet_lalloc :: "ptr option \<Rightarrow> size_t \<Rightarrow> size_t \<Rightarrow> backend_call" where
  "skynet_lalloc p old_size new_size = posix_realloc p new_size"

section \<open>Powers of two\<close>

lemma power_of_two_iff: "skyuv_is_power_of_two v \<longleftrightarrow> (\<exists>k < 64. v = 2 ^ k)"
proof
  assume "\<exists>k < 64. v = 2 ^ k"
  then obtain k where k: "k < 64" "v = 2 ^ k" by blast
  then have "v \<noteq> 0" by (simp add: word_unat_eq_iff unat_power2)
  moreover have "v AND (v - 1) = 0"
  proof -
    have "v - 1 = mask k" using k(2) by (simp add: mask_eq_exp_minus_1)
    moreover have "(2 ^ k AND mask k :: u64) = 0"
      by (rule bit_word_eqI) (auto simp: bit_and_iff bit_mask_iff bit_exp_iff)
    ultimately show ?thesis using k(2) by simp
  qed
  ultimately show "skyuv_is_power_of_two v" by (simp add: skyuv_is_power_of_two_def)
next
  assume "skyuv_is_power_of_two v"
  then have nz: "v \<noteq> 0" and disj: "v AND (v - 1) = 0" by (simp_all add: skyuv_is_power_of_two_def)
  have "1 \<le> unat v" using nz by (simp add: unat_gt_0 Suc_le_eq)
  then obtain n where n: "2 ^ n \<le> unat v" "unat v < 2 ^ (n + 1)"
    using ex_power_ivl1 [of 2 "unat v"] by auto
  have "unat v < 2 ^ 64" using unsigned_less [of v, where ?'a = nat] by simp
  with n(1) have "(2::nat) ^ n < 2 ^ 64" by (rule order_le_less_trans)
  then have "n < 64" by (rule power_less_imp_less_exp [rotated]) simp
  have top: "bit v n" if "2 ^ n \<le> unat v" "unat v < 2 ^ (n + 1)" for v :: u64
  proof -
    have "unat v div 2 ^ n = 1" using that by (intro div_nat_eqI) auto
    then have "bit (unat v) n" by (simp add: bit_iff_odd)
    then show ?thesis by (simp add: bit_unsigned_iff)
  qed
  have "unat v = 2 ^ n"
  proof (rule ccontr)
    assume "unat v \<noteq> 2 ^ n"
    moreover have "unat (v - 1) = unat v - 1" using \<open>1 \<le> unat v\<close> by (simp add: unat_minus_one nz)
    ultimately have "2 ^ n \<le> unat (v - 1)" "unat (v - 1) < 2 ^ (n + 1)" using n by simp_all
    then have "bit (v - 1) n" by (rule top)
    moreover have "bit v n" by (rule top [OF n])
    ultimately have "bit (v AND (v - 1)) n" by (simp add: bit_and_iff)
    with disj show False by simp
  qed
  then have "v = 2 ^ n" using \<open>n < 64\<close> by (simp add: word_unat_eq_iff unat_power2)
  with \<open>n < 64\<close> show "\<exists>k < 64. v = 2 ^ k" by blast
qed

text \<open>Rounding down to a multiple of a power of two.\<close>

lemma unat_round_down:
  assumes "k < 64"
  shows "unat ((x :: u64) AND NOT (2 ^ k - 1)) = unat x div 2 ^ k * 2 ^ k"
proof -
  have "x AND NOT (2 ^ k - 1) = push_bit k (drop_bit k x)"
    by (rule bit_word_eqI)
       (auto simp: bit_and_iff bit_not_iff bit_mask_iff bit_push_bit_iff bit_drop_bit_eq
         simp flip: mask_eq_exp_minus_1 dest: bit_imp_le_length)
  moreover have "unat x div 2 ^ k * 2 ^ k \<le> unat x" by simp
  then have "unat x div 2 ^ k * 2 ^ k < 2 ^ 64"
    by (rule order_le_less_trans) (use unsigned_less [of x, where ?'a = nat] in simp)
  then have "unat (push_bit k (drop_bit k x)) = unat x div 2 ^ k * 2 ^ k"
    using assms by (simp add: push_bit_eq_mult drop_bit_eq_div unat_word_ariths unat_div_distrib unat_power2
        mod_mult_left_eq)
  ultimately show ?thesis by simp
qed

text \<open>Adding without wrapping.\<close>

lemma unat_plus_small: "unat (a :: u64) + unat b < 2 ^ 64 \<Longrightarrow> unat (a + b) = unat a + unat b"
  by (simp add: unat_word_ariths)

lemma size_check:
  fixes n e :: u64
  shows "n \<le> SIZE_MAX - e \<longleftrightarrow> unat n + unat e < 2 ^ 64"
proof -
  have e: "unat e < 2 ^ 64" using unsigned_less [of e, where ?'a = nat] by simp
  moreover have "unat SIZE_MAX = 2 ^ 64 - 1" by (simp add: SIZE_MAX_def)
  ultimately have "unat (SIZE_MAX - e) = 2 ^ 64 - 1 - unat e" by (simp add: unat_sub_if')
  with e show ?thesis unfolding word_le_nat_alt by linarith
qed

lemma heap_block:
  assumes "\<And>n base. ha_alloc api n = Some base \<Longrightarrow> unat base + unat n \<le> 2 ^ 64"
    and "skyuv_heap_allocate api alignment sz zero h = (Some p, h')"
  obtains blk base where "ha_alloc api blk = Some base" "unat p mod unat alignment = 0"
    "unat base + 16 \<le> unat p" "unat p + unat (normalized sz) \<le> unat base + unat blk"
    "wh_freed h' = wh_freed h"
    "wh_header h' = (wh_header h)(p - sizeof_header := \<lparr>hd_base = base, hd_size = normalized sz\<rparr>)"
    "wh_mem h' = (\<lambda>x. if x - base < blk then (if zero then 0 else ha_junk api x) else wh_mem h x)"
proof -
  define e where "e = sizeof_header + alignment - 1"
  have pow: "skyuv_is_power_of_two alignment" and fits: "normalized sz \<le> SIZE_MAX - e"
    using assms(2) by (auto simp: skyuv_heap_allocate_def Let_def e_def not_less split: if_splits option.splits)
  obtain k where k: "k < 64" "alignment = 2 ^ k" using pow power_of_two_iff by blast
  have al: "unat alignment = 2 ^ k" using k by (simp add: unat_power2)
  obtain base where base: "ha_alloc api (normalized sz + e) = Some base"
    and p: "p = (base + sizeof_header + alignment - 1) AND NOT (alignment - 1)"
    and h': "wh_header h' = (wh_header h)(p - sizeof_header := \<lparr>hd_base = base, hd_size = normalized sz\<rparr>)"
      "wh_freed h' = wh_freed h"
      "wh_mem h' = (\<lambda>x. if x - base < normalized sz + e
        then (if zero then 0 else ha_junk api x) else wh_mem h x)"
    using assms(2) by (auto simp: skyuv_heap_allocate_def Let_def e_def split: if_splits option.splits)
  have e: "unat e = 15 + 2 ^ k"
  proof -
    have "(2::nat) ^ k \<le> 2 ^ 63" using k(1) by (intro power_increasing) auto
    then have "unat (15 + alignment) = 15 + unat alignment"
      using al by (intro trans [OF unat_plus_small]) simp_all
    then show ?thesis using al by (simp add: e_def sizeof_header_def)
  qed
  have nz: "unat (normalized sz) \<ge> 1"
    by (simp add: normalized_def unat_gt_0 Suc_le_eq)
  have blk: "unat (normalized sz + e) = unat (normalized sz) + unat e"
    using fits by (intro unat_plus_small) (simp add: size_check)
  have space: "unat base + unat (normalized sz) + unat e \<le> 2 ^ 64"
    using assms(1) [OF base] blk by simp
  define x where "x = base + e"
  have x: "unat x = unat base + 15 + 2 ^ k"
    using space nz e by (simp add: x_def unat_plus_small)
  have px: "p = x AND NOT (2 ^ k - 1)" using p k(2) by (simp add: x_def e_def algebra_simps)
  have pu: "unat p = unat x div 2 ^ k * 2 ^ k" unfolding px by (rule unat_round_down [OF k(1)])
  have "unat x mod 2 ^ k < 2 ^ k" by simp
  then have low: "unat p \<le> unat x" and high: "unat x < unat p + 2 ^ k"
    using pu div_mult_mod_eq [of "unat x" "2 ^ k"] by linarith+
  have "unat p mod unat alignment = 0" using pu al by simp
  moreover have "unat base + 16 \<le> unat p" using high x by linarith
  moreover have "unat p + unat (normalized sz) \<le> unat base + unat (normalized sz + e)"
    using low x blk e by linarith
  ultimately show thesis using base h' by (intro that)
qed

section \<open>Properties\<close>

text \<open>
  C36. Where an aligned block lies. For every request that \<^verbatim>\<open>HeapAlloc\<close> serves with a block
  inside the address space, the pointer returned is a multiple of the alignment, leaves
  room for the header before it, and the requested bytes (one, for an empty request) end
  inside the block; nothing wraps, and the header found before the pointer names the block,
  so that freeing the pointer frees the block.
\<close>

theorem heap_block_fits:
  assumes "\<And>n base. ha_alloc api n = Some base \<Longrightarrow> unat base + unat n \<le> 2 ^ 64"
    and "skyuv_heap_allocate api alignment sz zero h = (Some p, h')"
  shows "\<exists>blk base. ha_alloc api blk = Some base \<and> unat p mod unat alignment = 0 \<and>
    unat base + 16 \<le> unat p \<and> unat p + unat (normalized sz) \<le> unat base + unat blk \<and>
    wh_freed (skyuv_free (Some p) h') = wh_freed h' @ [base]"
proof -
  obtain blk base where "ha_alloc api blk = Some base" "unat p mod unat alignment = 0"
    "unat base + 16 \<le> unat p" "unat p + unat (normalized sz) \<le> unat base + unat blk"
    "wh_freed h' = wh_freed h"
    "wh_header h' = (wh_header h)(p - sizeof_header := \<lparr>hd_base = base, hd_size = normalized sz\<rparr>)"
    "wh_mem h' = (\<lambda>x. if x - base < blk then (if zero then 0 else ha_junk api x) else wh_mem h x)"
    by (rule heap_block [OF assms])
  then show ?thesis
    by (intro exI [of _ blk] exI [of _ base]) (simp add: skyuv_free_def)
qed

definition ex_heap_api :: heap_api where
  "ex_heap_api = \<lparr>ha_alloc = (\<lambda>n. if n \<le> 4096 then Some 0x10004 else None), ha_junk = (\<lambda>_. 0xcd)\<rparr>"

definition ex_heap :: win_heap where
  "ex_heap = \<lparr>wh_header = (\<lambda>_. \<lparr>hd_base = 0, hd_size = 0\<rparr>), wh_mem = (\<lambda>_. 0), wh_freed = []\<rparr>"

lemma ex_heap_api_space: "ha_alloc ex_heap_api n = Some base \<Longrightarrow> unat base + unat n \<le> 2 ^ 64"
  by (auto simp: ex_heap_api_def word_le_nat_alt split: if_splits)

theorem heap_block_fits_witness:
  "case skyuv_heap_allocate ex_heap_api 64 100 False ex_heap of (p, h') \<Rightarrow>
     p = Some 0x10040 \<and> (\<exists>base. wh_freed (skyuv_free p h') = [base] \<and> unat base + 16 \<le> 0x10040)"
proof -
  obtain p h' where r: "skyuv_heap_allocate ex_heap_api 64 100 False ex_heap = (p, h')" by fastforce
  have "fst (skyuv_heap_allocate ex_heap_api 64 100 False ex_heap) = Some 0x10040" by code_simp
  then have p: "p = Some 0x10040" using r by simp
  have "wh_freed h' = wh_freed ex_heap"
    using r by (auto simp: skyuv_heap_allocate_def Let_def split: if_splits option.splits)
  then show ?thesis
    using heap_block_fits [OF ex_heap_api_space r [unfolded p]] r p by (auto simp: ex_heap_def)
qed

text \<open>
  The product of \<^verbatim>\<open>calloc\<close> never wraps: on every platform a request whose product does not
  fit \<^verbatim>\<open>size_t\<close> is refused, and any other is passed on with the exact product (the
  Windows form allocates the product, the other platforms pass both factors and turn an
  empty request into one byte).
\<close>

theorem calloc_exact:
  "(unat cnt * unat sz < 2 ^ 64 \<longrightarrow>
      skyuv_calloc api cnt sz h
        = skyuv_heap_allocate api SKYUV_WINDOWS_DEFAULT_ALIGNMENT (of_nat (unat cnt * unat sz)) True h \<and>
      posix_calloc cnt sz = (if unat cnt * unat sz = 0 then Backend_calloc 1 1 else Backend_calloc cnt sz)) \<and>
   (\<not> unat cnt * unat sz < 2 ^ 64 \<longrightarrow>
      skyuv_calloc api cnt sz h = (None, h) \<and> posix_calloc cnt sz = Refused)"
proof -
  have "(cnt \<noteq> 0 \<and> sz > SIZE_MAX div cnt) \<longleftrightarrow> \<not> unat cnt * unat sz < 2 ^ 64"
  proof (cases "cnt = 0")
    case False
    then have pos: "0 < unat cnt" by (simp add: unat_gt_0)
    have "unat (SIZE_MAX div cnt) = (2 ^ 64 - 1) div unat cnt"
      by (simp add: unat_div_distrib SIZE_MAX_def)
    then have "sz > SIZE_MAX div cnt \<longleftrightarrow> (2 ^ 64 - 1) div unat cnt < unat sz"
      by (simp only: word_less_nat_alt)
    also have "\<dots> \<longleftrightarrow> 2 ^ 64 - 1 < unat sz * unat cnt" by (rule div_less_iff_less_mult [OF pos])
    finally show ?thesis using False by (auto simp: mult.commute)
  qed simp
  then show ?thesis
    by (auto simp: skyuv_calloc_def posix_calloc_def unat_eq_zero)
qed

theorem calloc_exact_witness:
  "posix_calloc 0x100000000 0x100000000 = Refused \<and> posix_calloc 3 5 = Backend_calloc 3 5"
  using calloc_exact [of "0x100000000" "0x100000000" ex_heap_api ex_heap]
    calloc_exact [of 3 5 ex_heap_api ex_heap]
  by simp

lemma in_block:
  assumes "unat base \<le> unat p" and "unat p < unat base + unat blk"
  shows "p - base < (blk :: u64)"
  using assms by (simp add: word_less_nat_alt unat_sub_if')



end
