(* ===== verification/Atomic.thy ===== *)
theory Atomic
  imports Skyuv_Prelude
begin

text \<open>
  Atomic cells (\<^verbatim>\<open>src/src/platform/atomic.c\<close>, \<^verbatim>\<open>compat/skynet/atomic.h\<close>) and the spin lock
  built on them (\<^verbatim>\<open>compat/skynet/spinlock.h\<close>). A cell is a machine word; an operation takes
  the contents and returns its result and the new contents in one step. The file has two
  implementations: over the Interlocked functions of Visual C, and over the
  \<^verbatim>\<open>__atomic\<close> builtins of GCC and Clang. The order argument selects fences and does not
  change the value an atomic operation returns, so it is kept only where the code
  converts it.
\<close>

section \<open>Intrinsics\<close>

definition interlocked_compare_exchange :: "'a::len word \<Rightarrow> 'a word \<Rightarrow> 'a word \<Rightarrow> 'a word \<times> 'a word" where
  "interlocked_compare_exchange cell exch comparand =
     (cell, if cell = comparand then exch else cell)"

definition interlocked_exchange :: "'a::len word \<Rightarrow> 'a word \<Rightarrow> 'a word \<times> 'a word" where
  "interlocked_exchange cell v = (cell, v)"

definition interlocked_exchange_add :: "'a::len word \<Rightarrow> 'a word \<Rightarrow> 'a word \<times> 'a word" where
  "interlocked_exchange_add cell v = (cell, cell + v)"

definition interlocked_and :: "'a::len word \<Rightarrow> 'a word \<Rightarrow> 'a word \<times> 'a word" where
  "interlocked_and cell v = (cell, cell AND v)"

section \<open>Visual C\<close>

text \<open>
  \<^verbatim>\<open>compare_exchange\<close> returns whether it stored, the new \<^verbatim>\<open>*expected\<close> and the new contents.
  \<^verbatim>\<open>unsigned long\<close> has 32 bits on this platform.
\<close>

definition msvc_i32_init :: "u32 \<Rightarrow> u32 \<Rightarrow> u32" where
  "msvc_i32_init cell v = v"

definition msvc_i32_load :: "u32 \<Rightarrow> u32 \<times> u32" where
  "msvc_i32_load cell = interlocked_compare_exchange cell 0 0"

definition msvc_i32_store :: "u32 \<Rightarrow> u32 \<Rightarrow> u32" where
  "msvc_i32_store cell v = snd (interlocked_exchange cell v)"

definition msvc_i32_exchange :: "u32 \<Rightarrow> u32 \<Rightarrow> u32 \<times> u32" where
  "msvc_i32_exchange cell v = interlocked_exchange cell v"

definition msvc_i32_compare_exchange :: "u32 \<Rightarrow> u32 \<Rightarrow> u32 \<Rightarrow> bool \<times> u32 \<times> u32" where
  "msvc_i32_compare_exchange cell expected desired =
     (case interlocked_compare_exchange cell desired expected of
        (previous, cell') \<Rightarrow>
          if previous = expected then (True, expected, cell') else (False, previous, cell'))"

definition msvc_i32_fetch_add :: "u32 \<Rightarrow> u32 \<Rightarrow> u32 \<times> u32" where
  "msvc_i32_fetch_add cell v = interlocked_exchange_add cell v"

definition msvc_i32_fetch_sub :: "u32 \<Rightarrow> u32 \<Rightarrow> u32 \<times> u32" where
  "msvc_i32_fetch_sub cell v = interlocked_exchange_add cell (0 - v)"

definition msvc_i32_fetch_and :: "u32 \<Rightarrow> u32 \<Rightarrow> u32 \<times> u32" where
  "msvc_i32_fetch_and cell v = interlocked_and cell v"

definition msvc_uintptr_init :: "u64 \<Rightarrow> u64 \<Rightarrow> u64" where
  "msvc_uintptr_init cell v = v"

definition msvc_uintptr_load :: "u64 \<Rightarrow> u64 \<times> u64" where
  "msvc_uintptr_load cell = interlocked_compare_exchange cell 0 0"

definition msvc_uintptr_store :: "u64 \<Rightarrow> u64 \<Rightarrow> u64" where
  "msvc_uintptr_store cell v = snd (interlocked_exchange cell v)"

definition msvc_uintptr_exchange :: "u64 \<Rightarrow> u64 \<Rightarrow> u64 \<times> u64" where
  "msvc_uintptr_exchange cell v = interlocked_exchange cell v"

definition msvc_uintptr_compare_exchange :: "u64 \<Rightarrow> u64 \<Rightarrow> u64 \<Rightarrow> bool \<times> u64 \<times> u64" where
  "msvc_uintptr_compare_exchange cell expected desired =
     (case interlocked_compare_exchange cell desired expected of
        (previous, cell') \<Rightarrow>
          if previous = expected then (True, expected, cell') else (False, previous, cell'))"

definition msvc_uintptr_fetch_add :: "u64 \<Rightarrow> u64 \<Rightarrow> u64 \<times> u64" where
  "msvc_uintptr_fetch_add cell v = interlocked_exchange_add cell v"

definition msvc_uintptr_fetch_sub :: "u64 \<Rightarrow> u64 \<Rightarrow> u64 \<times> u64" where
  "msvc_uintptr_fetch_sub cell v = msvc_uintptr_fetch_add cell (0 - v)"

text \<open>
  The loop of \<^verbatim>\<open>fetch_and\<close>: load, then compare and exchange until it succeeds. \<open>others n\<close> is
  what the other threads do to the cell before the \<open>n\<close>-th compare and exchange.
\<close>

partial_function (option) msvc_uintptr_fetch_and_loop ::
    "(nat \<Rightarrow> u64 \<Rightarrow> u64) \<Rightarrow> nat \<Rightarrow> u64 \<Rightarrow> u64 \<Rightarrow> u64 \<Rightarrow> (u64 \<times> u64) option" where
  "msvc_uintptr_fetch_and_loop others n v expected cell =
     (case msvc_uintptr_compare_exchange (others n cell) expected (expected AND v) of
        (stored, expected', cell') \<Rightarrow>
          if stored then Some (expected', cell')
          else msvc_uintptr_fetch_and_loop others (Suc n) v expected' cell')"

definition msvc_uintptr_fetch_and :: "(nat \<Rightarrow> u64 \<Rightarrow> u64) \<Rightarrow> u64 \<Rightarrow> u64 \<Rightarrow> (u64 \<times> u64) option" where
  "msvc_uintptr_fetch_and others cell v =
     (case msvc_uintptr_load cell of
        (expected, cell') \<Rightarrow> msvc_uintptr_fetch_and_loop others 0 v expected cell')"

definition msvc_ulong_init :: "u32 \<Rightarrow> u32 \<Rightarrow> u32" where
  "msvc_ulong_init cell v = v"

definition msvc_ulong_load :: "u32 \<Rightarrow> u32 \<times> u32" where
  "msvc_ulong_load cell = interlocked_compare_exchange cell 0 0"

definition msvc_ulong_store :: "u32 \<Rightarrow> u32 \<Rightarrow> u32" where
  "msvc_ulong_store cell v = snd (interlocked_exchange cell v)"

definition msvc_ulong_exchange :: "u32 \<Rightarrow> u32 \<Rightarrow> u32 \<times> u32" where
  "msvc_ulong_exchange cell v = interlocked_exchange cell v"

definition msvc_ulong_compare_exchange :: "u32 \<Rightarrow> u32 \<Rightarrow> u32 \<Rightarrow> bool \<times> u32 \<times> u32" where
  "msvc_ulong_compare_exchange cell expected desired =
     (case interlocked_compare_exchange cell desired expected of
        (previous, cell') \<Rightarrow>
          if previous = expected then (True, expected, cell') else (False, previous, cell'))"

definition msvc_ulong_fetch_add :: "u32 \<Rightarrow> u32 \<Rightarrow> u32 \<times> u32" where
  "msvc_ulong_fetch_add cell v = interlocked_exchange_add cell v"

definition msvc_ulong_fetch_sub :: "u32 \<Rightarrow> u32 \<Rightarrow> u32 \<times> u32" where
  "msvc_ulong_fetch_sub cell v = msvc_ulong_fetch_add cell (0xFFFFFFFF - v + 1)"

definition msvc_ulong_fetch_and :: "u32 \<Rightarrow> u32 \<Rightarrow> u32 \<times> u32" where
  "msvc_ulong_fetch_and cell v = interlocked_and cell v"

section \<open>GCC and Clang\<close>

datatype skyuv_memory_order =
    SKYUV_MEMORY_RELAXED | SKYUV_MEMORY_ACQUIRE | SKYUV_MEMORY_RELEASE | SKYUV_MEMORY_ACQ_REL
  | SKYUV_MEMORY_SEQ_CST

datatype builtin_order = ATOMIC_RELAXED | ATOMIC_ACQUIRE | ATOMIC_RELEASE | ATOMIC_ACQ_REL | ATOMIC_SEQ_CST

fun native_memory_order :: "skyuv_memory_order \<Rightarrow> builtin_order" where
  "native_memory_order SKYUV_MEMORY_RELAXED = ATOMIC_RELAXED"
| "native_memory_order SKYUV_MEMORY_ACQUIRE = ATOMIC_ACQUIRE"
| "native_memory_order SKYUV_MEMORY_RELEASE = ATOMIC_RELEASE"
| "native_memory_order SKYUV_MEMORY_ACQ_REL = ATOMIC_ACQ_REL"
| "native_memory_order SKYUV_MEMORY_SEQ_CST = ATOMIC_SEQ_CST"

text \<open>The functions the macro defines, for a cell of any width.\<close>

definition gcc_init :: "'a::len word \<Rightarrow> 'a word \<Rightarrow> 'a word" where
  "gcc_init cell v = v"

definition gcc_load :: "'a::len word \<Rightarrow> 'a word \<times> 'a word" where
  "gcc_load cell = (cell, cell)"

definition gcc_store :: "'a::len word \<Rightarrow> 'a word \<Rightarrow> 'a word" where
  "gcc_store cell v = v"

definition gcc_exchange :: "'a::len word \<Rightarrow> 'a word \<Rightarrow> 'a word \<times> 'a word" where
  "gcc_exchange cell v = (cell, v)"

definition gcc_compare_exchange :: "'a::len word \<Rightarrow> 'a word \<Rightarrow> 'a word \<Rightarrow> bool \<times> 'a word \<times> 'a word" where
  "gcc_compare_exchange cell expected desired =
     (if cell = expected then (True, expected, desired) else (False, cell, cell))"

definition gcc_fetch_add :: "'a::len word \<Rightarrow> 'a word \<Rightarrow> 'a word \<times> 'a word" where
  "gcc_fetch_add cell v = (cell, cell + v)"

definition gcc_fetch_sub :: "'a::len word \<Rightarrow> 'a word \<Rightarrow> 'a word \<times> 'a word" where
  "gcc_fetch_sub cell v = (cell, cell - v)"

definition gcc_fetch_and :: "'a::len word \<Rightarrow> 'a word \<Rightarrow> 'a word \<times> 'a word" where
  "gcc_fetch_and cell v = (cell, cell AND v)"

section \<open>Operations as a program\<close>

text \<open>One operation of a client, and what a client observes of it.\<close>

datatype 'a atomic_op =
    Init 'a | Load | Store 'a | Exchange 'a | Compare_exchange 'a 'a | Fetch_add 'a | Fetch_sub 'a
  | Fetch_and 'a

datatype 'a atomic_result = Done | Value 'a | Compared bool 'a

fun gcc_step :: "'a::len word atomic_op \<Rightarrow> 'a word \<Rightarrow> 'a word atomic_result \<times> 'a word" where
  "gcc_step (Init v) c = (Done, gcc_init c v)"
| "gcc_step Load c = apfst Value (gcc_load c)"
| "gcc_step (Store v) c = (Done, gcc_store c v)"
| "gcc_step (Exchange v) c = apfst Value (gcc_exchange c v)"
| "gcc_step (Compare_exchange e d) c = (case gcc_compare_exchange c e d of (b, e', c') \<Rightarrow> (Compared b e', c'))"
| "gcc_step (Fetch_add v) c = apfst Value (gcc_fetch_add c v)"
| "gcc_step (Fetch_sub v) c = apfst Value (gcc_fetch_sub c v)"
| "gcc_step (Fetch_and v) c = apfst Value (gcc_fetch_and c v)"

fun msvc_i32_step :: "u32 atomic_op \<Rightarrow> u32 \<Rightarrow> u32 atomic_result \<times> u32" where
  "msvc_i32_step (Init v) c = (Done, msvc_i32_init c v)"
| "msvc_i32_step Load c = apfst Value (msvc_i32_load c)"
| "msvc_i32_step (Store v) c = (Done, msvc_i32_store c v)"
| "msvc_i32_step (Exchange v) c = apfst Value (msvc_i32_exchange c v)"
| "msvc_i32_step (Compare_exchange e d) c =
     (case msvc_i32_compare_exchange c e d of (b, e', c') \<Rightarrow> (Compared b e', c'))"
| "msvc_i32_step (Fetch_add v) c = apfst Value (msvc_i32_fetch_add c v)"
| "msvc_i32_step (Fetch_sub v) c = apfst Value (msvc_i32_fetch_sub c v)"
| "msvc_i32_step (Fetch_and v) c = apfst Value (msvc_i32_fetch_and c v)"

fun msvc_ulong_step :: "u32 atomic_op \<Rightarrow> u32 \<Rightarrow> u32 atomic_result \<times> u32" where
  "msvc_ulong_step (Init v) c = (Done, msvc_ulong_init c v)"
| "msvc_ulong_step Load c = apfst Value (msvc_ulong_load c)"
| "msvc_ulong_step (Store v) c = (Done, msvc_ulong_store c v)"
| "msvc_ulong_step (Exchange v) c = apfst Value (msvc_ulong_exchange c v)"
| "msvc_ulong_step (Compare_exchange e d) c =
     (case msvc_ulong_compare_exchange c e d of (b, e', c') \<Rightarrow> (Compared b e', c'))"
| "msvc_ulong_step (Fetch_add v) c = apfst Value (msvc_ulong_fetch_add c v)"
| "msvc_ulong_step (Fetch_sub v) c = apfst Value (msvc_ulong_fetch_sub c v)"
| "msvc_ulong_step (Fetch_and v) c = apfst Value (msvc_ulong_fetch_and c v)"

text \<open>For the pointer-sized cell, \<^verbatim>\<open>fetch_and\<close> without interference of other threads.\<close>

fun msvc_uintptr_step :: "u64 atomic_op \<Rightarrow> u64 \<Rightarrow> u64 atomic_result \<times> u64" where
  "msvc_uintptr_step (Init v) c = (Done, msvc_uintptr_init c v)"
| "msvc_uintptr_step Load c = apfst Value (msvc_uintptr_load c)"
| "msvc_uintptr_step (Store v) c = (Done, msvc_uintptr_store c v)"
| "msvc_uintptr_step (Exchange v) c = apfst Value (msvc_uintptr_exchange c v)"
| "msvc_uintptr_step (Compare_exchange e d) c =
     (case msvc_uintptr_compare_exchange c e d of (b, e', c') \<Rightarrow> (Compared b e', c'))"
| "msvc_uintptr_step (Fetch_add v) c = apfst Value (msvc_uintptr_fetch_add c v)"
| "msvc_uintptr_step (Fetch_sub v) c = apfst Value (msvc_uintptr_fetch_sub c v)"
| "msvc_uintptr_step (Fetch_and v) c =
     (case msvc_uintptr_fetch_and (\<lambda>_ x. x) c v of Some (r, c') \<Rightarrow> (Value r, c') | None \<Rightarrow> (Done, c))"

fun run_ops :: "('op \<Rightarrow> 'c \<Rightarrow> 'r \<times> 'c) \<Rightarrow> 'op list \<Rightarrow> 'c \<Rightarrow> 'r list \<times> 'c" where
  "run_ops step [] c = ([], c)"
| "run_ops step (x # xs) c =
     (case step x c of (r, c1) \<Rightarrow> case run_ops step xs c1 of (rs, c2) \<Rightarrow> (r # rs, c2))"

section \<open>Pointers and sizes\<close>

text \<open>
  The pointer and size cells are pointer-sized cells; their compare and exchange stores the
  value seen only when it fails. Skynet's macros return only whether it succeeded.
\<close>

definition skyuv_atomic_pointer_compare_exchange :: "u64 \<Rightarrow> u64 \<Rightarrow> u64 \<Rightarrow> bool \<times> u64 \<times> u64" where
  "skyuv_atomic_pointer_compare_exchange cell expected desired =
     (case gcc_compare_exchange cell expected desired of
        (result, integer_expected, cell') \<Rightarrow>
          (result, if \<not> result then integer_expected else expected, cell'))"

definition skyuv_atomic_size_compare_exchange :: "u64 \<Rightarrow> u64 \<Rightarrow> u64 \<Rightarrow> bool \<times> u64 \<times> u64" where
  "skyuv_atomic_size_compare_exchange cell expected desired =
     (case gcc_compare_exchange cell expected desired of
        (result, integer_expected, cell') \<Rightarrow>
          (result, if \<not> result then integer_expected else expected, cell'))"

definition skyuv_atomic_pointer_init :: "u64 \<Rightarrow> u64 \<Rightarrow> u64" where
  "skyuv_atomic_pointer_init cell v = gcc_init cell v"

definition skyuv_atomic_pointer_store :: "u64 \<Rightarrow> u64 \<Rightarrow> u64" where
  "skyuv_atomic_pointer_store cell v = gcc_store cell v"

definition skyuv_atomic_size_init :: "u64 \<Rightarrow> u64 \<Rightarrow> u64" where
  "skyuv_atomic_size_init cell v = gcc_init cell v"

definition skyuv_atomic_size_store :: "u64 \<Rightarrow> u64 \<Rightarrow> u64" where
  "skyuv_atomic_size_store cell v = gcc_store cell v"

definition skyuv_atomic_pointer_load :: "u64 \<Rightarrow> u64 \<times> u64" where
  "skyuv_atomic_pointer_load cell = gcc_load cell"

definition skyuv_atomic_size_load :: "u64 \<Rightarrow> u64 \<times> u64" where
  "skyuv_atomic_size_load cell = gcc_load cell"

definition skyuv_atomic_pointer_exchange :: "u64 \<Rightarrow> u64 \<Rightarrow> u64 \<times> u64" where
  "skyuv_atomic_pointer_exchange cell v = gcc_exchange cell v"

definition skyuv_atomic_size_exchange :: "u64 \<Rightarrow> u64 \<Rightarrow> u64 \<times> u64" where
  "skyuv_atomic_size_exchange cell v = gcc_exchange cell v"

definition skyuv_atomic_size_fetch_add :: "u64 \<Rightarrow> u64 \<Rightarrow> u64 \<times> u64" where
  "skyuv_atomic_size_fetch_add cell v = gcc_fetch_add cell v"

definition skyuv_atomic_size_fetch_sub :: "u64 \<Rightarrow> u64 \<Rightarrow> u64 \<times> u64" where
  "skyuv_atomic_size_fetch_sub cell v = gcc_fetch_sub cell v"

definition skyuv_atomic_size_fetch_and :: "u64 \<Rightarrow> u64 \<Rightarrow> u64 \<times> u64" where
  "skyuv_atomic_size_fetch_and cell v = gcc_fetch_and cell v"

definition skyuv_compat_atomic_cas_i32 :: "u32 \<Rightarrow> u32 \<Rightarrow> u32 \<Rightarrow> bool \<times> u32" where
  "skyuv_compat_atomic_cas_i32 cell expected desired =
     (case gcc_compare_exchange cell expected desired of (r, _, cell') \<Rightarrow> (r, cell'))"

definition skyuv_compat_atomic_cas_ulong :: "u64 \<Rightarrow> u64 \<Rightarrow> u64 \<Rightarrow> bool \<times> u64" where
  "skyuv_compat_atomic_cas_ulong cell expected desired =
     (case gcc_compare_exchange cell expected desired of (r, _, cell') \<Rightarrow> (r, cell'))"

definition skyuv_compat_atomic_cas_size :: "u64 \<Rightarrow> u64 \<Rightarrow> u64 \<Rightarrow> bool \<times> u64" where
  "skyuv_compat_atomic_cas_size cell expected desired =
     (case skyuv_atomic_size_compare_exchange cell expected desired of (r, _, cell') \<Rightarrow> (r, cell'))"

definition skyuv_compat_atomic_cas_uintptr :: "u64 \<Rightarrow> u64 \<Rightarrow> u64 \<Rightarrow> bool \<times> u64" where
  "skyuv_compat_atomic_cas_uintptr cell expected desired =
     (case gcc_compare_exchange cell expected desired of (r, _, cell') \<Rightarrow> (r, cell'))"

section \<open>The two implementations agree\<close>

lemmas intrinsic_defs = interlocked_compare_exchange_def interlocked_exchange_def
  interlocked_exchange_add_def interlocked_and_def

lemmas gcc_defs = gcc_init_def gcc_load_def gcc_store_def gcc_exchange_def gcc_compare_exchange_def
  gcc_fetch_add_def gcc_fetch_sub_def gcc_fetch_and_def

lemma msvc_i32_step_eq: "msvc_i32_step x c = gcc_step x c"
  by (cases x)
     (auto simp: intrinsic_defs gcc_defs msvc_i32_init_def msvc_i32_load_def msvc_i32_store_def
       msvc_i32_exchange_def msvc_i32_compare_exchange_def msvc_i32_fetch_add_def msvc_i32_fetch_sub_def
       msvc_i32_fetch_and_def)

lemma msvc_ulong_step_eq: "msvc_ulong_step x c = gcc_step x c"
proof (cases x)
  case (Fetch_sub v)
  have "c + (0xFFFFFFFF - v + 1) = c - v + 0x100000000" by (simp add: algebra_simps)
  also have "\<dots> = c - v" by simp
  finally show ?thesis
    using Fetch_sub by (simp add: intrinsic_defs gcc_defs msvc_ulong_fetch_sub_def msvc_ulong_fetch_add_def)
qed (auto simp: intrinsic_defs gcc_defs msvc_ulong_init_def msvc_ulong_load_def msvc_ulong_store_def
    msvc_ulong_exchange_def msvc_ulong_compare_exchange_def msvc_ulong_fetch_add_def
    msvc_ulong_fetch_and_def)

lemma fetch_and_loop_step:
  "msvc_uintptr_fetch_and_loop others n v expected cell =
     (if others n cell = expected then Some (expected, expected AND v)
      else msvc_uintptr_fetch_and_loop others (Suc n) v (others n cell) (others n cell))"
  by (subst msvc_uintptr_fetch_and_loop.simps)
     (simp add: msvc_uintptr_compare_exchange_def interlocked_compare_exchange_def)

lemma fetch_and_start:
  "msvc_uintptr_fetch_and others cell v = msvc_uintptr_fetch_and_loop others 0 v cell cell"
  by (simp add: msvc_uintptr_fetch_and_def msvc_uintptr_load_def interlocked_compare_exchange_def)

lemma msvc_uintptr_step_eq: "msvc_uintptr_step x c = gcc_step x c"
  by (cases x)
     (auto simp: intrinsic_defs gcc_defs msvc_uintptr_init_def msvc_uintptr_load_def msvc_uintptr_store_def
       msvc_uintptr_exchange_def msvc_uintptr_compare_exchange_def msvc_uintptr_fetch_add_def
       msvc_uintptr_fetch_sub_def fetch_and_start fetch_and_loop_step)

lemma run_ops_eq: "(\<And>x c. f x c = g x c) \<Longrightarrow> run_ops f xs c = run_ops g xs c"
  by (induction xs arbitrary: c) (simp_all split: prod.split)

section \<open>Properties\<close>


text \<open>
  The contents of the cell just before the \<open>n\<close>-th compare and exchange, as long as none has
  succeeded: a failed one leaves the cell as the other threads made it.
\<close>

fun contents_before :: "(nat \<Rightarrow> u64 \<Rightarrow> u64) \<Rightarrow> u64 \<Rightarrow> nat \<Rightarrow> u64" where
  "contents_before others cell 0 = others 0 cell"
| "contents_before others cell (Suc n) = others (Suc n) (contents_before others cell n)"

lemma fetch_and_loop_returns:
  assumes "\<And>k x. k \<ge> N \<Longrightarrow> others k x = x" and "contents_before others cell0 n = others n cell"
  shows "\<exists>k. msvc_uintptr_fetch_and_loop others n v expected cell
      = Some (contents_before others cell0 k, contents_before others cell0 k AND v)"
  using assms(2)
proof (induction "N + 1 - n" arbitrary: n expected cell)
  case 0
  then have c: "contents_before others cell0 n = cell" "contents_before others cell0 (Suc n) = cell"
    using assms(1) [of n cell] assms(1) [of "Suc n" cell] by auto
  have "msvc_uintptr_fetch_and_loop others n v expected cell = Some (cell, cell AND v)"
    using fetch_and_loop_step [of others n v expected cell]
      fetch_and_loop_step [of others "Suc n" v cell cell] assms(1) 0 by auto
  then show ?case using c(1) by auto
next
  case (Suc m)
  show ?case
  proof (cases "others n cell = expected")
    case True
    then show ?thesis
      using fetch_and_loop_step [of others n v expected cell] Suc.prems by (auto intro!: exI [of _ n])
  next
    case False
    have "m = N + 1 - Suc n" using Suc.hyps(2) by simp
    moreover have "contents_before others cell0 (Suc n) = others (Suc n) (others n cell)"
      using Suc.prems by simp
    ultimately have "\<exists>k. msvc_uintptr_fetch_and_loop others (Suc n) v (others n cell) (others n cell)
        = Some (contents_before others cell0 k, contents_before others cell0 k AND v)"
      by (rule Suc.hyps(1))
    then show ?thesis using False fetch_and_loop_step [of others n v expected cell] by simp
  qed
qed

text \<open>
  C35. \<^verbatim>\<open>fetch_and\<close> of a pointer-sized cell under interference: when the other threads leave
  the cell alone from some moment on, the loop returns, and for some of its compare and
  exchange operations it returns the contents of the cell just before that operation and
  leaves those contents combined with the mask, as one indivisible operation would.
\<close>

theorem fetch_and_under_interference:
  assumes "\<And>k x. k \<ge> N \<Longrightarrow> others k x = x"
  shows "\<exists>k. msvc_uintptr_fetch_and others cell v
    = Some (contents_before others cell k, contents_before others cell k AND v)"
  unfolding fetch_and_start by (rule fetch_and_loop_returns [OF assms]) simp_all

theorem fetch_and_under_interference_witness:
  "\<exists>k. msvc_uintptr_fetch_and (\<lambda>k x. if k < 2 then x + 16 else x) 0xff 0xf0
     = Some (contents_before (\<lambda>k x. if k < 2 then x + 16 else x) 0xff k,
             contents_before (\<lambda>k x. if k < 2 then x + 16 else x) 0xff k AND 0xf0)"
  by (rule fetch_and_under_interference [of 2]) simp

section \<open>The spin lock\<close>

text \<open>
  \<^verbatim>\<open>spinlock_lock\<close>, \<^verbatim>\<open>spinlock_trylock\<close> and \<^verbatim>\<open>spinlock_unlock\<close> as steps of any number of threads.
  A thread is outside, about to exchange, spinning on the load, about to exchange in
  \<^verbatim>\<open>trylock\<close>, or inside the critical section.
\<close>

datatype spin_pc = Outside | At_exchange | At_load | At_try_exchange | Critical

record spinlock =
  sl_lock :: u32
  sl_pc :: "nat \<Rightarrow> spin_pc"

definition spinlock_init :: "spinlock" where
  "spinlock_init = \<lparr>sl_lock = gcc_init 0 0, sl_pc = (\<lambda>_. Outside)\<rparr>"

definition move :: "nat \<Rightarrow> spin_pc \<Rightarrow> spinlock \<Rightarrow> spinlock" where
  "move t pc s = s\<lparr>sl_pc := (sl_pc s)(t := pc)\<rparr>"

definition spin_exchange :: "nat \<Rightarrow> spin_pc \<Rightarrow> spinlock \<Rightarrow> spinlock" where
  "spin_exchange t failed s =
     (case gcc_exchange (sl_lock s) 1 of
        (old, cell) \<Rightarrow> move t (if old = 0 then Critical else failed) (s\<lparr>sl_lock := cell\<rparr>))"

definition spinlock_unlock :: "nat \<Rightarrow> spinlock \<Rightarrow> spinlock" where
  "spinlock_unlock t s = move t Outside (s\<lparr>sl_lock := gcc_store (sl_lock s) 0\<rparr>)"

inductive spin_step :: "spinlock \<Rightarrow> spinlock \<Rightarrow> bool" where
  enter: "sl_pc s t = Outside \<Longrightarrow> spin_step s (move t At_exchange s)"
| exchange: "sl_pc s t = At_exchange \<Longrightarrow> spin_step s (spin_exchange t At_load s)"
| spin: "sl_pc s t = At_load \<Longrightarrow> fst (gcc_load (sl_lock s)) \<noteq> 0 \<Longrightarrow> spin_step s s"
| seen_free: "sl_pc s t = At_load \<Longrightarrow> fst (gcc_load (sl_lock s)) = 0 \<Longrightarrow>
    spin_step s (move t At_exchange s)"
| try_busy: "sl_pc s t = Outside \<Longrightarrow> fst (gcc_load (sl_lock s)) \<noteq> 0 \<Longrightarrow> spin_step s s"
| try_free: "sl_pc s t = Outside \<Longrightarrow> fst (gcc_load (sl_lock s)) = 0 \<Longrightarrow>
    spin_step s (move t At_try_exchange s)"
| try_exchange: "sl_pc s t = At_try_exchange \<Longrightarrow> spin_step s (spin_exchange t Outside s)"
| unlock: "sl_pc s t = Critical \<Longrightarrow> spin_step s (spinlock_unlock t s)"

definition lock_ok :: "spinlock \<Rightarrow> bool" where
  "lock_ok s \<longleftrightarrow> (if sl_lock s = 0 then (\<forall>t. sl_pc s t \<noteq> Critical)
     else (\<exists>t. sl_pc s t = Critical \<and> (\<forall>t'. sl_pc s t' = Critical \<longrightarrow> t' = t)))"

lemma lock_ok_move:
  assumes "lock_ok s" and "sl_pc s t \<noteq> Critical" and "pc \<noteq> Critical"
  shows "lock_ok (move t pc s)"
proof -
  have "sl_pc (move t pc s) t' = Critical \<longleftrightarrow> sl_pc s t' = Critical" for t'
    using assms(2,3) by (simp add: move_def)
  moreover have "sl_lock (move t pc s) = sl_lock s" by (simp add: move_def)
  ultimately show ?thesis using assms(1) by (simp only: lock_ok_def)
qed

lemma lock_ok_exchange:
  assumes "lock_ok s" and "sl_pc s t \<noteq> Critical" and "failed \<noteq> Critical"
  shows "lock_ok (spin_exchange t failed s)"
proof (cases "sl_lock s = 0")
  case True
  then have "\<forall>t. sl_pc s t \<noteq> Critical" using assms(1) by (simp add: lock_ok_def)
  with True show ?thesis by (simp add: lock_ok_def spin_exchange_def gcc_exchange_def move_def)
next
  case False
  then have "lock_ok (s\<lparr>sl_lock := 1\<rparr>)" using assms(1) by (simp add: lock_ok_def)
  from lock_ok_move [OF this, of t failed] False assms(2,3) show ?thesis
    by (simp add: spin_exchange_def gcc_exchange_def)
qed

lemma lock_ok_unlock:
  assumes "lock_ok s" and "sl_pc s t = Critical"
  shows "lock_ok (spinlock_unlock t s)"
proof -
  have "sl_pc s t' \<noteq> Critical" if "t' \<noteq> t" for t'
    using assms that by (auto simp: lock_ok_def split: if_splits)
  then show ?thesis by (simp add: lock_ok_def spinlock_unlock_def gcc_store_def move_def)
qed

lemma lock_ok_step: "spin_step s s' \<Longrightarrow> lock_ok s \<Longrightarrow> lock_ok s'"
  by (induction rule: spin_step.induct) (simp_all add: lock_ok_move lock_ok_exchange lock_ok_unlock)

lemma lock_ok_reachable: "spin_step\<^sup>*\<^sup>* spinlock_init s \<Longrightarrow> lock_ok s"
proof (induction rule: rtranclp_induct)
  case base
  show ?case by (simp add: lock_ok_def spinlock_init_def gcc_init_def)
next
  case (step s s')
  from lock_ok_step [OF step(2,3)] show ?case .
qed

text \<open>
  C33. Mutual exclusion: in every state that any number of threads reach by locking, trying to
  lock and unlocking, at most one thread is in the critical section; the lock word is
  zero exactly when none is; and then every thread that is about to exchange gets the lock
  with its next step.
\<close>

theorem spinlock_mutual_exclusion:
  assumes "spin_step\<^sup>*\<^sup>* spinlock_init s"
  shows "(sl_pc s t = Critical \<and> sl_pc s t' = Critical \<longrightarrow> t = t') \<and>
    (sl_lock s = 0 \<longleftrightarrow> (\<forall>t. sl_pc s t \<noteq> Critical)) \<and>
    (sl_lock s = 0 \<and> sl_pc s t = At_exchange \<longrightarrow> sl_pc (spin_exchange t At_load s) t = Critical)"
  using lock_ok_reachable [OF assms]
  by (auto simp: lock_ok_def spin_exchange_def gcc_exchange_def move_def split: if_splits)

theorem spinlock_mutual_exclusion_witness:
  "let s = spin_exchange 1 At_load (move 1 At_exchange spinlock_init)
   in spin_step\<^sup>*\<^sup>* spinlock_init s \<and> sl_pc s 1 = Critical \<and> (\<forall>t. sl_pc s t = Critical \<longrightarrow> t = 1)"
proof -
  let ?s1 = "move 1 At_exchange spinlock_init"
  let ?s = "spin_exchange 1 At_load ?s1"
  have "spin_step spinlock_init ?s1" by (rule spin_step.enter) (simp add: spinlock_init_def)
  moreover have "spin_step ?s1 ?s" by (rule spin_step.exchange) (simp add: move_def)
  ultimately have r: "spin_step\<^sup>*\<^sup>* spinlock_init ?s" by (meson converse_rtranclp_into_rtranclp rtranclp.rtrancl_refl)
  have c: "sl_pc ?s 1 = Critical"
    by (simp add: spin_exchange_def gcc_exchange_def move_def spinlock_init_def gcc_init_def)
  have "t = 1" if "sl_pc ?s t = Critical" for t
    using spinlock_mutual_exclusion [OF r, of t 1] that c by blast
  with r c show ?thesis unfolding Let_def by blast
qed

end
