(* ===== verification/Platform.thy ===== *)
theory Platform
  imports Skyuv_Prelude
begin

text \<open>
  Threads, locks, thread-local keys and dynamic libraries (\<^verbatim>\<open>src/src/platform/thread.c\<close> and
  \<^verbatim>\<open>dynamic.c\<close>) and the pthread and dlfcn replacements of \<^verbatim>\<open>compat/skynet\<close>. An object is a
  pointer to a block that holds the libuv structure, NULL while it is not initialised. The
  blocks that have been allocated and not freed are a multiset; the result of \<^verbatim>\<open>malloc\<close> and
  of the libuv function are parameters.
\<close>

type_synonym blocks = "ptr multiset"
type_synonym object = "ptr option"

definition malloc :: "ptr option \<Rightarrow> blocks \<Rightarrow> blocks" where
  "malloc p live = (case p of None \<Rightarrow> live | Some b \<Rightarrow> add_mset b live)"

definition free :: "ptr option \<Rightarrow> blocks \<Rightarrow> blocks" where
  "free p live = (case p of None \<Rightarrow> live | Some b \<Rightarrow> live - {#b#})"

section \<open>Mutexes, conditions, read-write locks\<close>

text \<open>
  The argument is \<open>None\<close> for NULL. The functions for conditions and read-write locks are
  made by the macros \<^verbatim>\<open>DEFINE_PLATFORM_INIT\<close> and \<^verbatim>\<open>DEFINE_PLATFORM_DESTROY\<close>.
\<close>

definition skyuv_mutex_init ::
    "ptr option \<Rightarrow> uv_code \<Rightarrow> object option \<Rightarrow> blocks \<Rightarrow> skyuv_error \<times> object option \<times> blocks" where
  "skyuv_mutex_init mem native mutex live =
     (case mutex of
        None \<Rightarrow> (SKYUV_ERROR_INVALID_ARGUMENT, None, live)
      | Some (Some impl) \<Rightarrow> (SKYUV_ERROR_INVALID_STATE, mutex, live)
      | Some None \<Rightarrow>
          (case mem of
             None \<Rightarrow> (SKYUV_ERROR_OUT_OF_MEMORY, mutex, live)
           | Some p \<Rightarrow>
               if native \<noteq> UV_OK
               then (SKYUV_ERROR_SYSTEM, mutex, free (Some p) (malloc (Some p) live))
               else (SKYUV_OK, Some (Some p), malloc (Some p) live)))"

definition skyuv_mutex_destroy :: "object option \<Rightarrow> blocks \<Rightarrow> object option \<times> blocks" where
  "skyuv_mutex_destroy mutex live =
     (case mutex of
        Some (Some impl) \<Rightarrow> (Some None, free (Some impl) live)
      | _ \<Rightarrow> (mutex, live))"

definition platform_init ::
    "ptr option \<Rightarrow> uv_code \<Rightarrow> object option \<Rightarrow> blocks \<Rightarrow> skyuv_error \<times> object option \<times> blocks" where
  "platform_init mem native obj live =
     (case obj of
        None \<Rightarrow> (SKYUV_ERROR_INVALID_ARGUMENT, None, live)
      | Some (Some impl) \<Rightarrow> (SKYUV_ERROR_INVALID_STATE, obj, live)
      | Some None \<Rightarrow>
          (case mem of
             None \<Rightarrow> (SKYUV_ERROR_OUT_OF_MEMORY, obj, live)
           | Some p \<Rightarrow>
               if native \<noteq> UV_OK
               then (SKYUV_ERROR_SYSTEM, obj, free (Some p) (malloc (Some p) live))
               else (SKYUV_OK, Some (Some p), malloc (Some p) live)))"

definition platform_destroy :: "object option \<Rightarrow> blocks \<Rightarrow> object option \<times> blocks" where
  "platform_destroy obj live =
     (case obj of
        Some (Some impl) \<Rightarrow> (Some None, free (Some impl) live)
      | _ \<Rightarrow> (obj, live))"

definition skyuv_cond_init where "skyuv_cond_init = platform_init"
definition skyuv_cond_destroy where "skyuv_cond_destroy = platform_destroy"
definition skyuv_rwlock_init where "skyuv_rwlock_init = platform_init"
definition skyuv_rwlock_destroy where "skyuv_rwlock_destroy = platform_destroy"

definition skyuv_cond_timedwait :: "uv_code \<Rightarrow> skyuv_error" where
  "skyuv_cond_timedwait result =
     (if result = UV_OK then SKYUV_OK
      else if result = UV_ETIMEDOUT then SKYUV_ERROR_TIMEOUT
      else SKYUV_ERROR_SYSTEM)"

definition skyuv_mutex_trylock :: "uv_code \<Rightarrow> bool" where
  "skyuv_mutex_trylock result \<longleftrightarrow> result = UV_OK"

definition skyuv_rwlock_tryrdlock :: "uv_code \<Rightarrow> bool" where
  "skyuv_rwlock_tryrdlock result \<longleftrightarrow> result = UV_OK"

definition skyuv_rwlock_trywrlock :: "uv_code \<Rightarrow> bool" where
  "skyuv_rwlock_trywrlock result \<longleftrightarrow> result = UV_OK"

section \<open>Threads\<close>

text \<open>The block a new thread starts from: the entry function and its argument.\<close>

record thread_start =
  st_entry :: nat
  st_argument :: "ptr option"

text \<open>
  \<open>impl\<close> and \<open>start\<close> are the results of the two allocations. The last component is the
  thread that has been started, with the address of its start block.
\<close>

definition skyuv_thread_create ::
    "ptr option \<Rightarrow> ptr option \<Rightarrow> uv_code \<Rightarrow> object option \<Rightarrow> nat option \<Rightarrow> ptr option \<Rightarrow> blocks
      \<Rightarrow> skyuv_error \<times> object option \<times> blocks \<times> (ptr \<times> thread_start) option" where
  "skyuv_thread_create impl start native thread entry argument live =
     (case (thread, entry) of
        (Some th, Some f) \<Rightarrow>
          if th \<noteq> None then (SKYUV_ERROR_INVALID_STATE, thread, live, None)
          else
            let live1 = malloc start (malloc impl live)
            in (case (impl, start) of
                  (Some i, Some s) \<Rightarrow>
                    if native \<noteq> UV_OK
                    then (SKYUV_ERROR_SYSTEM, thread, free impl (free start live1), None)
                    else (SKYUV_OK, Some impl, live1,
                          Some (s, \<lparr>st_entry = f, st_argument = argument\<rparr>))
                | _ \<Rightarrow> (SKYUV_ERROR_OUT_OF_MEMORY, thread, free start (free impl live1), None))
      | _ \<Rightarrow> (SKYUV_ERROR_INVALID_ARGUMENT, thread, live, None))"

text \<open>The first thing a thread does: it frees its start block, then calls the function.\<close>

definition thread_start_routine :: "ptr \<times> thread_start \<Rightarrow> blocks \<Rightarrow> (nat \<times> ptr option) \<times> blocks" where
  "thread_start_routine s live = ((st_entry (snd s), st_argument (snd s)), free (Some (fst s)) live)"

definition skyuv_thread_join ::
    "uv_code \<Rightarrow> object option \<Rightarrow> blocks \<Rightarrow> skyuv_error \<times> object option \<times> blocks" where
  "skyuv_thread_join native thread live =
     (case thread of
        None \<Rightarrow> (SKYUV_ERROR_INVALID_ARGUMENT, None, live)
      | Some None \<Rightarrow> (SKYUV_ERROR_INVALID_STATE, thread, live)
      | Some (Some impl) \<Rightarrow>
          if native \<noteq> UV_OK then (SKYUV_ERROR_SYSTEM, thread, live)
          else (SKYUV_OK, Some None, free (Some impl) live))"

text \<open>
  \<^verbatim>\<open>pthread_create\<close> for Skynet: a further start block, which the thread frees; \<open>wrap\<close> is the
  result of that allocation. The entry function 0 stands for \<^verbatim>\<open>skyuv_compat_thread_entry\<close>.
\<close>

definition skyuv_compat_pthread_create ::
    "ptr option \<Rightarrow> ptr option \<Rightarrow> ptr option \<Rightarrow> uv_code \<Rightarrow> nat \<Rightarrow> ptr option \<Rightarrow> blocks
      \<Rightarrow> skyuv_error \<times> object \<times> blocks \<times> ((ptr \<times> thread_start) \<times> thread_start) option" where
  "skyuv_compat_pthread_create wrap impl start native routine argument live =
     (case wrap of
        None \<Rightarrow> (SKYUV_ERROR_OUT_OF_MEMORY, None, live, None)
      | Some w \<Rightarrow>
          case skyuv_thread_create impl start native (Some None) (Some 0) (Some w) (malloc wrap live) of
            (result, th, live1, run) \<Rightarrow>
              (result, the th, if result \<noteq> SKYUV_OK then free wrap live1 else live1,
               map_option (\<lambda>r. (r, \<lparr>st_entry = routine, st_argument = argument\<rparr>)) run))"

section \<open>Thread-local keys\<close>

definition skyuv_tls_init :: "uv_code \<Rightarrow> bool option \<Rightarrow> skyuv_error \<times> bool option" where
  "skyuv_tls_init native tls =
     (case tls of
        None \<Rightarrow> (SKYUV_ERROR_INVALID_ARGUMENT, None)
      | Some True \<Rightarrow> (SKYUV_ERROR_INVALID_STATE, tls)
      | Some False \<Rightarrow> if native \<noteq> UV_OK then (SKYUV_ERROR_SYSTEM, tls) else (SKYUV_OK, Some True))"

text \<open>The second component: \<^verbatim>\<open>uv_key_delete\<close> was called.\<close>

definition skyuv_tls_destroy :: "bool option \<Rightarrow> bool option \<times> bool" where
  "skyuv_tls_destroy tls = (if tls = Some True then (Some False, True) else (tls, False))"

definition skyuv_compat_pthread_key_create :: "uv_code \<Rightarrow> bool \<Rightarrow> bool \<Rightarrow> skyuv_error \<times> bool" where
  "skyuv_compat_pthread_key_create native destructor key =
     (if destructor then (SKYUV_ERROR_INVALID_ARGUMENT, key)
      else case skyuv_tls_init native (Some False) of (r, k) \<Rightarrow> (r, the k))"

section \<open>Dynamic libraries\<close>

text \<open>
  \<^verbatim>\<open>skyuv_dlopen\<close> keeps the block when opening fails, because libuv stores the error
  message in it. A library is its block and what libuv's last call on it returned.
\<close>

definition skyuv_dlopen ::
    "ptr option \<Rightarrow> uv_code \<Rightarrow> object option \<Rightarrow> string option \<Rightarrow> blocks
      \<Rightarrow> skyuv_error \<times> object option \<times> blocks" where
  "skyuv_dlopen mem native library path live =
     (case (library, path) of
        (Some lib, Some _) \<Rightarrow>
          if lib \<noteq> None then (SKYUV_ERROR_INVALID_STATE, library, live)
          else (case mem of
                  None \<Rightarrow> (SKYUV_ERROR_OUT_OF_MEMORY, library, live)
                | Some p \<Rightarrow> (if native = UV_OK then SKYUV_OK else SKYUV_ERROR_SYSTEM,
                             Some (Some p), malloc mem live))
      | _ \<Rightarrow> (SKYUV_ERROR_INVALID_ARGUMENT, library, live))"

text \<open>\<open>native\<close>: the result of \<^verbatim>\<open>uv_dlsym\<close> and the symbol it stores. \<open>Some\<close>: what \<^verbatim>\<open>*symbol\<close> is set to.\<close>

definition skyuv_dlsym ::
    "uv_code \<times> ptr option \<Rightarrow> object option \<Rightarrow> string option \<Rightarrow> bool \<Rightarrow> skyuv_error \<times> ptr option option" where
  "skyuv_dlsym native library name symbol =
     (case (library, name) of
        (Some lib, Some _) \<Rightarrow>
          if \<not> symbol then (SKYUV_ERROR_INVALID_ARGUMENT, None)
          else if lib = None then (SKYUV_ERROR_INVALID_STATE, None)
          else (if fst native = UV_OK then SKYUV_OK else SKYUV_ERROR_SYSTEM, Some (snd native))
      | _ \<Rightarrow> (SKYUV_ERROR_INVALID_ARGUMENT, None))"

definition skyuv_dlclose :: "object option \<Rightarrow> blocks \<Rightarrow> object option \<times> blocks" where
  "skyuv_dlclose library live =
     (case library of
        Some (Some impl) \<Rightarrow> (Some None, free (Some impl) live)
      | _ \<Rightarrow> (library, live))"

definition skyuv_dlerror :: "(ptr \<Rightarrow> string option) \<Rightarrow> object option \<Rightarrow> string option" where
  "skyuv_dlerror message library =
     (case library of Some (Some impl) \<Rightarrow> message impl | _ \<Rightarrow> None)"

text \<open>
  \<^verbatim>\<open>dlopen\<close> for Skynet. \<open>lib\<close> is the allocation of the library structure; the error text is
  cut to 511 characters. The result is the structure's block and the block in it.
\<close>

definition skyuv_compat_save_dlerror :: "string option \<Rightarrow> string" where
  "skyuv_compat_save_dlerror error = (case error of None \<Rightarrow> '''' | Some e \<Rightarrow> take 511 e)"

definition skyuv_compat_dlopen ::
    "ptr option \<Rightarrow> ptr option \<Rightarrow> uv_code \<Rightarrow> (ptr \<Rightarrow> string option) \<Rightarrow> string option \<Rightarrow> blocks
      \<Rightarrow> (ptr \<times> object) option \<times> string \<times> blocks" where
  "skyuv_compat_dlopen lib mem native message path live =
     (case lib of
        None \<Rightarrow> (None, ''out of memory'', live)
      | Some l \<Rightarrow>
          (case skyuv_dlopen mem native (Some None) path (malloc lib live) of
             (result, library, live1) \<Rightarrow>
               if result \<noteq> SKYUV_OK
               then (None, skyuv_compat_save_dlerror (skyuv_dlerror message library),
                     free lib (snd (skyuv_dlclose library live1)))
               else (Some (l, the library), '''', live1)))"

section \<open>The contract of an object\<close>

text \<open>
  Objects that are initialised and destroyed share a contract: an initialisation that
  succeeds makes the object own one new block and changes nothing else when it fails; a
  destruction gives the block back. Whatever a client calls in whatever order, the blocks
  that are live because of the object are the one it owns, if it owns one.
\<close>

datatype object_op = Op_init "ptr option" uv_code | Op_destroy

definition owned :: "object \<Rightarrow> blocks" where
  "owned obj = (case obj of None \<Rightarrow> {#} | Some p \<Rightarrow> {#p#})"

fun run_object ::
    "(ptr option \<Rightarrow> uv_code \<Rightarrow> object option \<Rightarrow> blocks \<Rightarrow> skyuv_error \<times> object option \<times> blocks)
      \<Rightarrow> (object option \<Rightarrow> blocks \<Rightarrow> object option \<times> blocks)
      \<Rightarrow> object_op list \<Rightarrow> object option \<times> blocks \<Rightarrow> object option \<times> blocks" where
  "run_object init destroy [] s = s"
| "run_object init destroy (Op_init mem native # xs) s =
     run_object init destroy xs (snd (init mem native (fst s) (snd s)))"
| "run_object init destroy (Op_destroy # xs) s = run_object init destroy xs (destroy (fst s) (snd s))"

locale platform_object =
  fixes init :: "ptr option \<Rightarrow> uv_code \<Rightarrow> object option \<Rightarrow> blocks \<Rightarrow> skyuv_error \<times> object option \<times> blocks"
    and destroy :: "object option \<Rightarrow> blocks \<Rightarrow> object option \<times> blocks"
  assumes init_law: "owned obj \<subseteq># live \<Longrightarrow> \<exists>r obj'. init mem native (Some obj) live = (r, Some obj', live - owned obj + owned obj') \<and>
      (r = SKYUV_OK \<longleftrightarrow> obj = None \<and> obj' \<noteq> None) \<and> (r \<noteq> SKYUV_OK \<longrightarrow> obj' = obj)"
    and destroy_law: "owned obj \<subseteq># live \<Longrightarrow> destroy (Some obj) live = (Some None, live - owned obj)"
begin

lemma object_no_leak:
  assumes "run_object init destroy xs (Some obj, rest + owned obj) = (o', live')"
  shows "\<exists>obj'. o' = Some obj' \<and> live' = rest + owned obj'"
  using assms
proof (induction xs arbitrary: obj)
  case Nil
  then show ?case by auto
next
  case (Cons x xs)
  have sub: "owned obj \<subseteq># rest + owned obj" by simp
  show ?case
  proof (cases x)
    case (Op_init mem native)
    obtain r obj1 where "init mem native (Some obj) (rest + owned obj) = (r, Some obj1, rest + owned obj1)"
      using init_law [OF sub, of mem native] by auto
    with Cons Op_init show ?thesis by auto
  next
    case Op_destroy
    have "destroy (Some obj) (rest + owned obj) = (Some None, rest + owned None)"
      using destroy_law [OF sub] by (simp add: owned_def)
    with Cons Op_destroy show ?thesis by auto
  qed
qed

end

interpretation mutexes: platform_object skyuv_mutex_init skyuv_mutex_destroy
  by unfold_locales
     (auto simp: skyuv_mutex_init_def skyuv_mutex_destroy_def owned_def malloc_def free_def
       split: option.splits)

interpretation conditions: platform_object skyuv_cond_init skyuv_cond_destroy
  by unfold_locales
     (auto simp: skyuv_cond_init_def skyuv_cond_destroy_def platform_init_def platform_destroy_def
       owned_def malloc_def free_def split: option.splits)

interpretation rwlocks: platform_object skyuv_rwlock_init skyuv_rwlock_destroy
  by unfold_locales
     (auto simp: skyuv_rwlock_init_def skyuv_rwlock_destroy_def platform_init_def platform_destroy_def
       owned_def malloc_def free_def split: option.splits)

section \<open>Properties\<close>

text \<open>
  C38. No leak and no double free of locks: after every sequence of initialisations (each
  allocation and each libuv call may fail) and destructions of a mutex, a condition or a
  read-write lock that starts uninitialised, the live blocks are those from before plus the
  one block the object holds if it is initialised.
\<close>

theorem locks_never_leak:
  assumes "(init, destroy) \<in> {(skyuv_mutex_init, skyuv_mutex_destroy),
      (skyuv_cond_init, skyuv_cond_destroy), (skyuv_rwlock_init, skyuv_rwlock_destroy)}"
    and "run_object init destroy xs (Some None, live) = (obj, live')"
  shows "\<exists>impl. obj = Some impl \<and> live' = live + owned impl"
  using assms mutexes.object_no_leak [of xs None live obj live']
    conditions.object_no_leak [of xs None live obj live'] rwlocks.object_no_leak [of xs None live obj live']
  by (auto simp: owned_def)

theorem locks_never_leak_witness:
  "\<exists>impl. run_object skyuv_mutex_init skyuv_mutex_destroy
       [Op_init (Some 1) UV_ENOMEM, Op_init (Some 2) UV_OK, Op_init (Some 3) UV_OK, Op_destroy, Op_destroy]
       (Some None, {#9#}) = (Some impl, {#9#} + owned impl)"
proof -
  let ?xs = "[Op_init (Some 1) UV_ENOMEM, Op_init (Some 2) UV_OK, Op_init (Some 3) UV_OK, Op_destroy, Op_destroy]"
  obtain obj live' where r: "run_object skyuv_mutex_init skyuv_mutex_destroy ?xs (Some None, {#9#}) = (obj, live')"
    by fastforce
  from locks_never_leak [OF _ r] r show ?thesis by auto
qed

text \<open>
  A thread's memory: a creation that fails leaves the live blocks as they were and the
  thread object uninitialised; after a creation that succeeds, the new thread runs the
  function with its argument and frees the start block, and joining it gives back the rest,
  so that the live blocks are again those from before.
\<close>

theorem thread_memory:
  assumes "skyuv_thread_create impl start native (Some None) (Some f) arg live = (r, th, live', run)"
  shows "(r \<noteq> SKYUV_OK \<longrightarrow> live' = live \<and> th = Some None \<and> run = None) \<and>
    (r = SKYUV_OK \<longrightarrow> (\<exists>s. run = Some s \<and> fst (thread_start_routine s live') = (f, arg) \<and>
       skyuv_thread_join UV_OK th (snd (thread_start_routine s live')) = (SKYUV_OK, Some None, live)))"
  using assms
  by (auto simp: skyuv_thread_create_def skyuv_thread_join_def thread_start_routine_def malloc_def free_def
      Let_def split: option.splits if_splits)

theorem thread_memory_witness:
  "case skyuv_thread_create (Some 1) (Some 2) UV_OK (Some None) (Some 7) (Some 5) {#} of (r, th, live', run) \<Rightarrow>
     \<exists>s. run = Some s \<and> skyuv_thread_join UV_OK th (snd (thread_start_routine s live')) = (SKYUV_OK, Some None, {#})"
proof -
  obtain r th live' run where c: "skyuv_thread_create (Some 1) (Some 2) UV_OK (Some None) (Some 7) (Some 5) {#}
      = (r, th, live', run)" by (metis prod_cases4)
  have "r = SKYUV_OK" using c by (simp add: skyuv_thread_create_def Let_def)
  with thread_memory [OF c] c show ?thesis by auto
qed

text \<open>
  Opening a library for Skynet: when it fails, both blocks it allocated are freed again
  and the text of the error has been copied, at most 511 characters of it, before the
  library that holds it is closed; when it succeeds, exactly these two blocks are live in
  addition and closing the library and freeing the structure gives them back.
\<close>

theorem dlopen_memory:
  "case skyuv_compat_dlopen lib mem native message path live of
     (None, error, live') \<Rightarrow> live' = live \<and> length error \<le> 511 \<and>
       (\<forall>l p. lib = Some l \<and> mem = Some p \<and> path \<noteq> None \<longrightarrow> error = (case message p of None \<Rightarrow> [] | Some e \<Rightarrow> take 511 e))
   | (Some (l, impl), error, live') \<Rightarrow> error = [] \<and> native = UV_OK \<and> lib = Some l \<and> impl = mem \<and>
       free (Some l) (snd (skyuv_dlclose (Some impl) live')) = live"
  by (auto simp: skyuv_compat_dlopen_def skyuv_dlopen_def skyuv_dlclose_def skyuv_dlerror_def
      skyuv_compat_save_dlerror_def malloc_def free_def split: option.splits)

theorem dlopen_memory_witness:
  "skyuv_compat_dlopen (Some 1) (Some 2) UV_ENOENT (\<lambda>_. Some ''no such file'') (Some ''x.so'') {#5#}
     = (None, ''no such file'', {#5#})"
  using dlopen_memory [where lib = "Some 1" and mem = "Some 2" and native = UV_ENOENT and path = "Some ''x.so''"
      and message = "\<lambda>_. Some ''no such file''" and live = "{#5#}"]
  by (simp add: skyuv_compat_dlopen_def skyuv_dlopen_def skyuv_dlclose_def skyuv_dlerror_def
      skyuv_compat_save_dlerror_def malloc_def free_def)

end
