(* ===== verification/Client_Stdin.thy ===== *)
theory Client_Stdin
  imports Skyuv_Prelude
begin

text \<open>
  The standard input of the test client (\<^verbatim>\<open>src/src/client/client_stdin.c\<close>): a thread reads
  bytes, cuts them into lines and puts them into a ring of 1024 slots; the Lua function
  \<^verbatim>\<open>readstdin\<close> takes them out. All fields of the ring are protected by one mutex, so each
  access is one step.
\<close>

section \<open>The ring\<close>

definition LINES :: nat where
  "LINES = 1024"

record input =
  in_lines :: "nat \<Rightarrow> bytes option"
  in_head :: nat
  in_tail :: nat
  in_started :: bool
  in_joined :: bool
  in_eof :: bool
  in_failed :: bool
  in_overflow :: bool
  in_init_error :: uv_code
  in_finished :: bool

definition input0 :: input where
  "input0 = \<lparr>in_lines = (\<lambda>_. None), in_head = 0, in_tail = 0, in_started = False, in_joined = False,
     in_eof = False, in_failed = False, in_overflow = False, in_init_error = UV_OK, in_finished = False\<rparr>"

text \<open>\<open>retain\<close> and \<open>mutex\<close>: the results of retaining the module and of \<^verbatim>\<open>uv_mutex_init\<close>.\<close>

definition initialize :: "uv_code \<Rightarrow> uv_code \<Rightarrow> input \<Rightarrow> input" where
  "initialize retain mutex q = q\<lparr>in_init_error := if retain = UV_OK then mutex else retain\<rparr>"

definition newline :: u8 where "newline = 10"
definition carriage_return :: u8 where "carriage_return = 13"

text \<open>The loop that drops newlines and carriage returns at the end of the buffer.\<close>

definition strip :: "bytes \<Rightarrow> bytes" where
  "strip buffer = rev (dropWhile (\<lambda>b. b = newline \<or> b = carriage_return) (rev buffer))"

text \<open>\<open>alloc\<close>: the result of \<^verbatim>\<open>malloc\<close>.\<close>

definition queue_line :: "bool \<Rightarrow> bytes \<Rightarrow> input \<Rightarrow> input" where
  "queue_line alloc buffer q =
     (let line = strip buffer; next_tail = (in_tail q + 1) mod LINES
      in if \<not> alloc then q\<lparr>in_failed := True\<rparr>
         else if next_tail = in_head q then q\<lparr>in_overflow := True\<rparr>
         else q\<lparr>in_lines := (in_lines q)(in_tail q := Some line), in_tail := next_tail\<rparr>)"

section \<open>The reading thread\<close>

text \<open>
  One byte: it is appended to the line, and a line that is complete or 1023 bytes long is
  handed to \<^verbatim>\<open>queue_line\<close>. The state is the unfinished line and the buffers handed over.
\<close>

definition read_byte :: "u8 \<Rightarrow> bytes \<times> bytes list \<Rightarrow> bytes \<times> bytes list" where
  "read_byte b s =
     (let line = fst s @ [b]
      in if b = newline \<or> length line = 1023 then ([], snd s @ [line]) else (line, snd s))"

definition read_chunk :: "bytes \<Rightarrow> bytes \<times> bytes list \<Rightarrow> bytes \<times> bytes list" where
  "read_chunk bs s = fold read_byte bs s"

text \<open>
  The whole thread: \<open>chunks\<close> is what the successful reads return, \<open>last\<close> the result of the
  read that ends the loop (\<open>UV_OK\<close> is end of file). The buffers handed over, in order.
\<close>

definition read_lines :: "bytes list \<Rightarrow> bytes list" where
  "read_lines chunks =
     (case fold read_chunk chunks ([], []) of
        (line, out) \<Rightarrow> if line \<noteq> [] then out @ [line] else out)"

definition finish_input :: "uv_code \<Rightarrow> input \<Rightarrow> input" where
  "finish_input result q =
     q\<lparr>in_eof := (result = UV_OK), in_failed := in_failed q \<or> result \<noteq> UV_OK, in_finished := True\<rparr>"

definition read_input :: "(bytes \<Rightarrow> bool) \<Rightarrow> bytes list \<Rightarrow> uv_code \<Rightarrow> input \<Rightarrow> input" where
  "read_input alloc chunks result q =
     finish_input result (fold (\<lambda>b. queue_line (alloc b) b) (read_lines chunks) q)"

section \<open>Reading from Lua\<close>

text \<open>
  What \<^verbatim>\<open>readstdin\<close> returns: an error, a line (up to its first zero byte, because Lua gets it
  as a C string), nil and a reason, or nothing. \<open>create\<close> is the result of
  \<^verbatim>\<open>uv_thread_create\<close>; the last component tells that the thread is joined.
\<close>

datatype stdin_result = Stdin_error uv_code | Stdin_line bytes | Stdin_end string | Stdin_nothing

definition start_reader :: "uv_code \<Rightarrow> input \<Rightarrow> input" where
  "start_reader create q =
     (if in_started q then q
      else if create \<noteq> UV_OK
      then q\<lparr>in_started := True, in_failed := True, in_joined := True\<rparr>
      else q\<lparr>in_started := True\<rparr>)"

definition take_line :: "input \<Rightarrow> bytes option \<times> input" where
  "take_line q =
     (if in_head q \<noteq> in_tail q
      then (in_lines q (in_head q),
            q\<lparr>in_lines := (in_lines q)(in_head q := None), in_head := (in_head q + 1) mod LINES\<rparr>)
      else (None, q))"

definition skyuv_client_readstdin :: "uv_code \<Rightarrow> input \<Rightarrow> stdin_result \<times> input \<times> bool" where
  "skyuv_client_readstdin create q =
     (if in_init_error q \<noteq> UV_OK then (Stdin_error (in_init_error q), q, False)
      else
        case take_line (start_reader create q) of
          (line, q1) \<Rightarrow>
            let join = (\<not> in_joined q1 \<and> in_finished q1);
                q2 = (if join then q1\<lparr>in_joined := True\<rparr> else q1)
            in (case line of
                  Some l \<Rightarrow> Stdin_line (takeWhile (\<lambda>b. b \<noteq> 0) l)
                | None \<Rightarrow>
                    if in_overflow q1 \<or> in_failed q1 \<or> in_eof q1
                    then Stdin_end (if in_overflow q1 then ''overflow''
                                    else if in_failed q1 then ''error'' else ''eof'')
                    else Stdin_nothing,
                q2, join))"

section \<open>The ring as a queue\<close>

text \<open>
  The lines in the ring, oldest first, and the invariant: exactly the slots from head to
  tail hold a line.
\<close>

definition used :: "input \<Rightarrow> nat" where
  "used q = (in_tail q + LINES - in_head q) mod LINES"

definition slot :: "input \<Rightarrow> nat \<Rightarrow> nat" where
  "slot q i = (in_head q + i) mod LINES"

definition queued :: "input \<Rightarrow> bytes list" where
  "queued q = map (\<lambda>i. the (in_lines q (slot q i))) [0..<used q]"

definition ring_ok :: "input \<Rightarrow> bool" where
  "ring_ok q \<longleftrightarrow> in_head q < LINES \<and> in_tail q < LINES \<and>
     (\<forall>i < used q. in_lines q (slot q i) \<noteq> None)"

definition ring_full :: "input \<Rightarrow> bool" where
  "ring_full q \<longleftrightarrow> (in_tail q + 1) mod LINES = in_head q"

lemma used_bound: "used q < LINES"
  by (simp add: used_def LINES_def)

lemma used_eq:
  assumes "in_head q < LINES" and "in_tail q < LINES"
  shows "used q = (if in_head q \<le> in_tail q then in_tail q - in_head q else in_tail q + LINES - in_head q)"
  using assms by (simp add: used_def mod_wrap)

lemma slot_eq:
  assumes "in_head q < LINES" and "i < LINES"
  shows "slot q i = (if in_head q + i < LINES then in_head q + i else in_head q + i - LINES)"
  using assms by (simp add: slot_def mod_wrap)

lemma next_eq: "t < LINES \<Longrightarrow> Suc t mod LINES = (if Suc t = LINES then 0 else Suc t)"
  by (simp add: mod_wrap)

lemma slot_used: "in_head q < LINES \<Longrightarrow> in_tail q < LINES \<Longrightarrow> slot q (used q) = in_tail q"
  by (subst slot_eq) (auto simp: used_bound used_eq)

lemma slot_inj: "in_head q < LINES \<Longrightarrow> i < LINES \<Longrightarrow> j < LINES \<Longrightarrow> slot q i = slot q j \<Longrightarrow> i = j"
  by (auto simp: slot_eq split: if_splits)

lemma full_iff: "in_head q < LINES \<Longrightarrow> in_tail q < LINES \<Longrightarrow> ring_full q \<longleftrightarrow> used q = LINES - 1"
  by (auto simp: ring_full_def used_eq next_eq split: if_splits)

text \<open>Appending at the tail and removing at the head.\<close>

lemma push_ring:
  fixes l :: bytes
  assumes "ring_ok q" and "\<not> ring_full q"
  defines "q' \<equiv> q\<lparr>in_lines := (in_lines q)(in_tail q := Some l), in_tail := (in_tail q + 1) mod LINES\<rparr>"
  shows "ring_ok q' \<and> queued q' = queued q @ [l]"
proof -
  have h: "in_head q < LINES" and t: "in_tail q < LINES" using assms(1) by (simp_all add: ring_ok_def)
  have "in_tail q' < LINES" using t by (simp add: q'_def next_eq)
  then have u: "used q' = used q + 1"
    using h t assms(2) by (auto simp: q'_def used_eq next_eq ring_full_def split: if_splits)
  have s: "slot q' i = slot q i" for i by (simp add: slot_def q'_def)
  have last: "slot q (used q) = in_tail q" by (rule slot_used [OF h t])
  have other: "slot q i \<noteq> in_tail q" if "i < used q" for i
    using slot_inj [OF h, of i "used q"] that used_bound [of q] last by force
  have lines: "in_lines q' = (in_lines q)(in_tail q := Some l)" and head: "in_head q' = in_head q"
    by (simp_all add: q'_def)
  have "queued q' = queued q @ [l]"
    using other last by (auto simp: queued_def u s lines)
  moreover have "ring_ok q'"
    using assms(1) h \<open>in_tail q' < LINES\<close> last by (auto simp: ring_ok_def u s less_Suc_eq lines head)
  ultimately show ?thesis by simp
qed

lemma pop_ring:
  assumes ok: "ring_ok q" and "queued q = l # ls"
  defines "q' \<equiv> q\<lparr>in_lines := (in_lines q)(in_head q := None), in_head := (in_head q + 1) mod LINES\<rparr>"
  shows "take_line q = (Some l, q') \<and> ring_ok q' \<and> queued q' = ls"
proof -
  have h: "in_head q < LINES" and t: "in_tail q < LINES" using ok by (simp_all add: ring_ok_def)
  have pos: "0 < used q" using assms(2) by (cases "used q") (auto simp: queued_def)
  then have ne: "in_head q \<noteq> in_tail q" using h t by (auto simp: used_eq)
  have h': "in_head q' < LINES" using h by (simp add: q'_def next_eq)
  have u: "used q' = used q - 1"
    using h t h' ne by (auto simp: q'_def used_eq next_eq split: if_splits)
  have s: "slot q' i = slot q (Suc i)" if "Suc i < LINES" for i
    using that h h' by (auto simp: slot_eq) (auto simp: q'_def next_eq split: if_splits)
  have first: "slot q 0 = in_head q" using h by (simp add: slot_eq)
  have other: "slot q (Suc i) \<noteq> in_head q" if "Suc i < LINES" for i
    using slot_inj [OF h, of "Suc i" 0] that first by auto
  have upt: "[0..<used q] = 0 # map Suc [0..<used q - 1]"
    using pos by (metis Suc_pred' map_Suc_upt upt_conv_Cons)
  have lines: "in_lines q (in_head q) = Some l"
    using assms(2) ok pos first by (auto simp: queued_def upt ring_ok_def)
  have rest: "in_lines q' (slot q' i) = in_lines q (slot q (Suc i))" if "i < used q - 1" for i
  proof -
    have "Suc i < LINES" using that used_bound [of q] by simp
    with s other have "slot q' i = slot q (Suc i)" "slot q (Suc i) \<noteq> in_head q" by auto
    then show ?thesis by (simp add: q'_def)
  qed
  have tail: "in_tail q' = in_tail q" by (simp add: q'_def)
  have "queued q' = ls" using assms(2) rest by (auto simp: queued_def upt u)
  moreover have "ring_ok q'" using ok rest h' t by (auto simp: ring_ok_def u tail)
  ultimately show ?thesis using ne lines by (simp add: take_line_def q'_def)
qed

lemma take_empty: "ring_ok q \<Longrightarrow> queued q = [] \<Longrightarrow> take_line q = (None, q)"
  by (auto simp: take_line_def queued_def ring_ok_def used_eq split: if_splits)

text \<open>The ring as an instance of the contract of a queue; the lines are stripped already.\<close>

definition ring_takes :: "bytes \<Rightarrow> input \<Rightarrow> bool" where
  "ring_takes l q \<longleftrightarrow> strip l = l \<and> \<not> ring_full q"

interpretation ring: fifo_queue ring_ok queued ring_takes "queue_line True" take_line
proof (unfold_locales, goal_cases)
  case (1 q l)
  with push_ring [of q l] show ?case
    by (simp add: queue_line_def Let_def ring_takes_def ring_full_def)
next
  case (2 q)
  then show ?case by (rule take_empty)
next
  case (3 q l ls)
  with pop_ring [OF 3] show ?case by blast
qed

section \<open>Cutting the input into lines\<close>

definition piece_ok :: "bytes \<Rightarrow> bool" where
  "piece_ok p \<longleftrightarrow> p \<noteq> [] \<and> length p \<le> 1023 \<and> newline \<notin> set (butlast p) \<and>
     (last p = newline \<or> length p = 1023)"

lemma fold_read_byte:
  assumes "fold read_byte bs (line, out) = (line', out')" and "newline \<notin> set line" and "length line < 1023"
    and "\<forall>p \<in> set out. piece_ok p"
  shows "concat out' @ line' = concat out @ line @ bs \<and> newline \<notin> set line' \<and> length line' < 1023 \<and>
    (\<forall>p \<in> set out'. piece_ok p)"
  using assms
proof (induction bs arbitrary: line out)
  case (Cons b bs)
  show ?case
  proof (cases "b = newline \<or> length (line @ [b]) = 1023")
    case True
    then have "piece_ok (line @ [b])" using Cons.prems(2,3) by (auto simp: piece_ok_def)
    then show ?thesis
      using Cons.IH [of "[]" "out @ [line @ [b]]"] Cons.prems True by (auto simp: read_byte_def Let_def)
  next
    case False
    then show ?thesis
      using Cons.IH [of "line @ [b]" out] Cons.prems by (auto simp: read_byte_def Let_def)
  qed
qed simp

lemma fold_read_chunk: "fold read_chunk chunks s = fold read_byte (concat chunks) s"
  by (induction chunks arbitrary: s) (simp_all add: read_chunk_def)

section \<open>Properties\<close>

text \<open>
  Lines come out of the ring in the order in which they went in, for every interleaving
  of the reading thread and the Lua function; a line is refused only when 1023 lines are
  waiting, and then the overflow flag is set and the waiting lines stay.
\<close>

theorem stdin_ring_order:
  assumes "ring_ok q" and "fifo_run ring_takes (queue_line True) take_line ops q = (accepted, taken, q')"
  shows "taken @ queued q' = queued q @ accepted \<and> ring_ok q' \<and>
    (length (queued q') = 1023 \<longrightarrow>
       in_overflow (queue_line True l q') \<and> queued (queue_line True l q') = queued q') \<and>
    (length (queued q') \<noteq> 1023 \<longrightarrow> queued (queue_line True l q') = queued q' @ [strip l])"
proof -
  note fifo = ring.fifo_order [OF assms]
  then have ok: "ring_ok q'" by simp
  have full: "ring_full q' \<longleftrightarrow> length (queued q') = 1023"
    using full_iff [of q'] ok by (simp add: ring_ok_def queued_def LINES_def)
  have "in_overflow (queue_line True l q') \<and> queued (queue_line True l q') = queued q'" if "ring_full q'"
    using that by (simp add: queue_line_def Let_def ring_full_def queued_def used_def slot_def)
  moreover have "queued (queue_line True l q') = queued q' @ [strip l]" if "\<not> ring_full q'"
    using that push_ring [OF ok that, of "strip l"] by (simp add: queue_line_def Let_def ring_full_def)
  ultimately show ?thesis using fifo full by blast
qed

theorem stdin_ring_order_witness:
  "ring_ok input0 \<and>
   (case fifo_run ring_takes (queue_line True) take_line [Enq [97], Enq [98, 99], Deq] input0 of
      (accepted, taken, q') \<Rightarrow> accepted = [[97], [98, 99]] \<and> taken = [[97]] \<and> taken @ queued q' = accepted)"
proof -
  have ok: "ring_ok input0" by (simp add: ring_ok_def input0_def used_def LINES_def)
  let ?r = "fifo_run ring_takes (queue_line True) take_line [Enq [97], Enq [98, 99], Deq] input0"
  obtain accepted taken q' where r: "?r = (accepted, taken, q')" by (metis prod_cases3)
  have "fst ?r = [[97], [98, 99]] \<and> fst (snd ?r) = [[97]]" by code_simp
  then have "accepted = [[97], [98, 99]]" "taken = [[97]]" using r by simp_all
  moreover have "queued input0 = []" by (simp add: queued_def used_def input0_def LINES_def)
  ultimately show ?thesis using stdin_ring_order [OF ok r] ok r by simp
qed

text \<open>
  C39. No byte of the input is lost or moved when it is cut into lines: the buffers handed to
  the ring, concatenated, are the bytes read, in order, for any division of the input into
  reads. Every buffer has 1 to 1023 bytes and a newline at most at its end, and only the last one
  can end without a newline before it has 1023 bytes.
\<close>

theorem stdin_lines_complete:
  "concat (read_lines chunks) = concat chunks \<and>
   (\<forall>p \<in> set (read_lines chunks). 0 < length p \<and> length p \<le> 1023 \<and> newline \<notin> set (butlast p)) \<and>
   (\<forall>p \<in> set (butlast (read_lines chunks)). last p = newline \<or> length p = 1023)"
proof -
  obtain line out where f: "fold read_byte (concat chunks) ([], []) = (line, out)" by fastforce
  from fold_read_byte [OF this] have A: "concat out @ line = concat chunks" "newline \<notin> set line"
    "length line < 1023" "\<forall>p \<in> set out. piece_ok p" by simp_all
  have r: "read_lines chunks = (if line \<noteq> [] then out @ [line] else out)"
    by (simp add: read_lines_def fold_read_chunk f)
  show ?thesis
    using A by (auto simp: r piece_ok_def dest: in_set_butlastD)
qed

theorem stdin_lines_complete_witness:
  "read_lines [[97, 10, 98], [99, 13, 10, 100]] = [[97, 10], [98, 99, 13, 10], [100]] \<and>
   concat (read_lines [[97, 10, 98], [99, 13, 10, 100]]) = [97, 10, 98, 99, 13, 10, 100]"
  using stdin_lines_complete [of "[[97, 10, 98], [99, 13, 10, 100]]"]
  by (simp add: read_lines_def read_chunk_def read_byte_def Let_def newline_def)

end
