(* ===== verification/Client_Runtime.thy ===== *)
theory Client_Runtime
  imports Skyuv_Prelude
begin

text \<open>
  The network runtime of the test client (\<^verbatim>\<open>src/src/client/client_runtime.c\<close>). One thread owns
  the libuv loop; a caller submits one command at a time, and, for most commands, waits until
  a callback completes its request, which lives on the caller's stack. The state keeps the
  connections in the order of the list, the current request, and what libuv still has to call
  back; a connection is named by its id. Calls are serial, as the header file demands.
\<close>

section \<open>State\<close>

definition CLIENT_RECEIVE_LIMIT :: nat where
  "CLIENT_RECEIVE_LIMIT = 65536"

definition INT64_MAX :: int where
  "INT64_MAX = 9223372036854775807"

datatype handle_state = Handle_open | Handle_closing | Handle_closed

text \<open>
  \<open>cn_request\<close>: the \<^verbatim>\<open>request\<close> pointer is not NULL. The next four fields after the flags are
  libuv's: the state of the two handles, an outstanding connect request, and whether reading
  is started. \<open>cn_in\<close> and \<open>cn_out\<close> record the bytes that came in and that callers received.
\<close>

record connection =
  cn_id :: int
  cn_request :: bool
  cn_received :: bytes
  cn_read_status :: uv_code
  cn_paused :: bool
  cn_handles :: nat
  cn_timer_initialized :: bool
  cn_timed_out :: bool
  cn_write_closed :: bool
  cn_read_closed :: bool
  cn_tcp :: handle_state
  cn_timer :: handle_state
  cn_connecting :: bool
  cn_reading :: bool
  cn_in :: bytes
  cn_out :: bytes

record client_request =
  rq_id :: int
  rq_done :: bool
  rq_result :: uv_code
  rq_source :: bytes
  rq_data :: bytes
  rq_size :: nat
  rq_timeout_ms :: int
  rq_read :: bool
  rq_write :: bool

definition request0 :: client_request where
  "request0 = \<lparr>rq_id = 0, rq_done = False, rq_result = UV_OK, rq_source = [], rq_data = [], rq_size = 0,
     rq_timeout_ms = 0, rq_read = False, rq_write = False\<rparr>"

text \<open>
  \<open>cl_waiting\<close>: a caller has submitted \<open>cl_request\<close> and has not returned. \<open>cl_write\<close> and
  \<open>cl_shutdown\<close>: the connection on which \<^verbatim>\<open>uv_write\<close> or \<^verbatim>\<open>uv_shutdown\<close> is outstanding for it.
  \<open>cl_sent\<close>: the data given to libuv. \<open>cl_bad\<close> records an access to a request that is NULL,
  whose caller had returned, or that was complete already.
\<close>

record client =
  cl_connections :: "connection list"
  cl_next_id :: int
  cl_revision :: u64
  cl_stopping :: bool
  cl_request :: client_request
  cl_waiting :: bool
  cl_write :: "int option"
  cl_shutdown :: "int option"
  cl_sent :: "(int \<times> bytes) list"
  cl_bad :: bool

definition client0 :: client where
  "client0 = \<lparr>cl_connections = [], cl_next_id = 0, cl_revision = 0, cl_stopping = False,
     cl_request = request0, cl_waiting = False, cl_write = None, cl_shutdown = None, cl_sent = [],
     cl_bad = False\<rparr>"

text \<open>The results of the libuv calls and of the allocation in one command or callback.\<close>

record client_env =
  ce_mutex_init :: uv_code
  ce_cond_init :: uv_code
  ce_async_send :: uv_code
  ce_alloc :: bool
  ce_tcp_init :: uv_code
  ce_timer_init :: uv_code
  ce_timer_start :: uv_code
  ce_tcp_connect :: uv_code
  ce_read_start :: uv_code
  ce_write :: uv_code
  ce_shutdown :: uv_code
  ce_shutdown_read :: uv_code

section \<open>Helpers\<close>

definition upd_connection :: "int \<Rightarrow> (connection \<Rightarrow> connection) \<Rightarrow> client \<Rightarrow> client" where
  "upd_connection i f c =
     c\<lparr>cl_connections := map (\<lambda>cn. if cn_id cn = i then f cn else cn) (cl_connections c)\<rparr>"

definition find_connection :: "int \<Rightarrow> client \<Rightarrow> connection option" where
  "find_connection i c = List.find (\<lambda>cn. cn_id cn = i) (cl_connections c)"

definition upd_request :: "(client_request \<Rightarrow> client_request) \<Rightarrow> client \<Rightarrow> client" where
  "upd_request f c = c\<lparr>cl_request := f (cl_request c)\<rparr>"

definition notify :: "client \<Rightarrow> client" where
  "notify c = c\<lparr>cl_revision := cl_revision c + 1\<rparr>"

definition complete :: "uv_code \<Rightarrow> client \<Rightarrow> client" where
  "complete result c =
     (upd_request (\<lambda>r. r\<lparr>rq_result := result, rq_done := True\<rparr>) c)
       \<lparr>cl_bad := cl_bad c \<or> \<not> cl_waiting c \<or> rq_done (cl_request c)\<rparr>"

text \<open>The assignment \<^verbatim>\<open>connection->request->result = result\<close>.\<close>

definition set_result :: "int \<Rightarrow> uv_code \<Rightarrow> client \<Rightarrow> client" where
  "set_result i result c =
     (upd_request (\<lambda>r. r\<lparr>rq_result := result\<rparr>) c)
       \<lparr>cl_bad := cl_bad c \<or> \<not> cl_waiting c
          \<or> \<not> list_all (\<lambda>cn. cn_id cn = i \<longrightarrow> cn_request cn) (cl_connections c)\<rparr>"

definition close_connection :: "connection \<Rightarrow> connection" where
  "close_connection cn =
     cn\<lparr>cn_tcp := (if cn_tcp cn = Handle_open then Handle_closing else cn_tcp cn),
        cn_timer := (if cn_timer_initialized cn \<and> cn_timer cn = Handle_open then Handle_closing
                     else cn_timer cn)\<rparr>"

section \<open>Callbacks\<close>

text \<open>\<^verbatim>\<open>connection_closed\<close>; libuv has marked the handle as closed before.\<close>

definition connection_closed :: "int \<Rightarrow> client \<Rightarrow> client" where
  "connection_closed i c =
     (case find_connection i c of
        None \<Rightarrow> c
      | Some cn \<Rightarrow>
          if cn_handles cn - 1 \<noteq> 0
          then upd_connection i (\<lambda>cn. cn\<lparr>cn_handles := cn_handles cn - 1\<rparr>) c
          else
            let c1 = c\<lparr>cl_connections := filter (\<lambda>cn. cn_id cn \<noteq> i) (cl_connections c)\<rparr>
            in if cn_request cn then complete (rq_result (cl_request c1)) c1 else c1)"

definition connection_timeout :: "int \<Rightarrow> client \<Rightarrow> client" where
  "connection_timeout i c =
     upd_connection i close_connection
       (set_result i UV_ETIMEDOUT (upd_connection i (\<lambda>cn. cn\<lparr>cn_timed_out := True\<rparr>) c))"

text \<open>The length of the buffer \<^verbatim>\<open>allocate_read\<close> offers.\<close>

definition allocate_read :: "connection \<Rightarrow> nat" where
  "allocate_read cn = CLIENT_RECEIVE_LIMIT - length (cn_received cn)"

definition store_received :: "bytes \<Rightarrow> connection \<Rightarrow> connection" where
  "store_received bs cn =
     (let cn1 = cn\<lparr>cn_received := cn_received cn @ bs, cn_in := cn_in cn @ bs\<rparr>
      in if length (cn_received cn1) = CLIENT_RECEIVE_LIMIT
         then cn1\<lparr>cn_reading := False, cn_paused := True\<rparr> else cn1)"

text \<open>\<open>Inr bs\<close>: bytes have been stored in the buffer; \<open>Inl\<close>: an error or the end of the stream.\<close>

definition received :: "int \<Rightarrow> uv_code + bytes \<Rightarrow> client \<Rightarrow> client" where
  "received i r c =
     (case r of
        Inr bs \<Rightarrow>
          if bs = [] then c
          else notify (upd_connection i (store_received bs) c)
      | Inl status \<Rightarrow>
          notify (upd_connection i (\<lambda>cn. cn\<lparr>cn_read_status := status, cn_reading := False\<rparr>) c))"

definition connected :: "client_env \<Rightarrow> int \<Rightarrow> uv_code \<Rightarrow> client \<Rightarrow> client" where
  "connected env i status c =
     (case find_connection i c of
        None \<Rightarrow> c
      | Some cn \<Rightarrow>
          if cn_timed_out cn then c
          else
            let c1 = upd_connection i (\<lambda>cn. cn\<lparr>cn_timer :=
                       if cn_timer_initialized cn \<and> cn_timer cn = Handle_open then Handle_closing
                       else cn_timer cn\<rparr>) c;
                result = (if status = UV_OK then ce_read_start env else status)
            in if result \<noteq> UV_OK
               then upd_connection i close_connection (set_result i result c1)
               else complete UV_OK
                      (upd_connection i (\<lambda>cn. cn\<lparr>cn_request := False, cn_reading := True\<rparr>)
                        ((upd_request (\<lambda>r. r\<lparr>rq_id := i\<rparr>) c1)
                           \<lparr>cl_next_id := i, cl_bad := cl_bad c1 \<or> \<not> cn_request cn\<rparr>)))"

definition written :: "uv_code \<Rightarrow> client \<Rightarrow> client" where
  "written status c = complete status c"

definition shutdown_done :: "uv_code \<Rightarrow> client \<Rightarrow> client" where
  "shutdown_done status c = complete status c"

section \<open>Commands\<close>

text \<open>A command returns its result; the caller waits for the completion when it is 0.\<close>

definition new_connection :: "int \<Rightarrow> connection" where
  "new_connection i = \<lparr>cn_id = i, cn_request = True, cn_received = [], cn_read_status = UV_OK,
     cn_paused = False, cn_handles = 1, cn_timer_initialized = False, cn_timed_out = False,
     cn_write_closed = False, cn_read_closed = False, cn_tcp = Handle_open, cn_timer = Handle_closed,
     cn_connecting = False, cn_reading = False, cn_in = [], cn_out = []\<rparr>"

definition fail_connect :: "int \<Rightarrow> uv_code \<Rightarrow> client \<Rightarrow> client" where
  "fail_connect i result c =
     upd_connection i close_connection (set_result i result c)"

definition start_connect :: "client_env \<Rightarrow> client \<Rightarrow> uv_code \<times> client" where
  "start_connect env c =
     (if cl_next_id c = INT64_MAX then (UV_ENOSPC, c)
      else if \<not> ce_alloc env then (UV_ENOMEM, c)
      else if ce_tcp_init env \<noteq> UV_OK then (ce_tcp_init env, c)
      else
        let i = cl_next_id c + 1;
            c1 = c\<lparr>cl_connections := new_connection i # cl_connections c\<rparr>;
            timeout = rq_timeout_ms (cl_request c)
        in if timeout = 0 then (UV_OK, fail_connect i UV_ETIMEDOUT c1)
           else
             let timed = (timeout \<ge> 0);
                 c2 = (if timed \<and> ce_timer_init env = UV_OK
                       then upd_connection i (\<lambda>cn. cn\<lparr>cn_timer_initialized := True,
                              cn_handles := cn_handles cn + 1, cn_timer := Handle_open\<rparr>) c1
                       else c1);
                 result = (if \<not> timed then UV_OK
                           else if ce_timer_init env \<noteq> UV_OK then ce_timer_init env
                           else ce_timer_start env)
             in if result \<noteq> UV_OK then (UV_OK, fail_connect i result c2)
                else if ce_tcp_connect env \<noteq> UV_OK
                then (UV_OK, fail_connect i (ce_tcp_connect env) c2)
                else (UV_OK, upd_connection i (\<lambda>cn. cn\<lparr>cn_connecting := True\<rparr>) c2))"

definition start_close :: "client \<Rightarrow> uv_code \<times> client" where
  "start_close c =
     (let i = rq_id (cl_request c)
      in case find_connection i c of
           None \<Rightarrow>
             if i > 0 \<and> i \<le> cl_next_id c then (UV_OK, complete UV_OK c) else (UV_EBADF, c)
         | Some cn \<Rightarrow>
             (UV_OK, upd_connection i (\<lambda>cn. close_connection (cn\<lparr>cn_request := True\<rparr>)) c))"

text \<open>The buffer of \<^verbatim>\<open>uv_buf_init\<close>, whose length is an \<^verbatim>\<open>unsigned int\<close>.\<close>

definition send_buf :: "bytes \<Rightarrow> nat \<Rightarrow> bytes" where
  "send_buf source n = take (n mod 2 ^ 32) source"

definition start_send :: "client_env \<Rightarrow> client \<Rightarrow> uv_code \<times> client" where
  "start_send env c =
     (let i = rq_id (cl_request c)
      in case find_connection i c of
           None \<Rightarrow> (UV_EBADF, c)
         | Some cn \<Rightarrow>
             if cn_write_closed cn then (UV_EPIPE, c)
             else if rq_size (cl_request c) = 0 then (UV_OK, complete UV_OK c)
             else if ce_write env \<noteq> UV_OK then (ce_write env, c)
             else (UV_OK, c\<lparr>cl_write := Some i,
                     cl_sent := cl_sent c @ [(i, send_buf (rq_source (cl_request c)) (rq_size (cl_request c)))]\<rparr>))"

definition take_received :: "client_env \<Rightarrow> nat \<Rightarrow> connection \<Rightarrow> connection" where
  "take_received env n cn =
     (let cn1 = cn\<lparr>cn_received := drop n (cn_received cn),
                   cn_out := cn_out cn @ take n (cn_received cn)\<rparr>
      in if cn_paused cn1 \<and> cn_read_status cn1 = UV_OK
         then (if ce_read_start env \<noteq> UV_OK
               then cn1\<lparr>cn_read_status := ce_read_start env, cn_paused := False\<rparr>
               else cn1\<lparr>cn_reading := True, cn_paused := False\<rparr>)
         else cn1)"

definition receive_data :: "client_env \<Rightarrow> client \<Rightarrow> uv_code \<times> client" where
  "receive_data env c =
     (let i = rq_id (cl_request c)
      in case find_connection i c of
           None \<Rightarrow> (UV_EBADF, c)
         | Some cn \<Rightarrow>
             if cn_received cn = []
             then (if cn_read_status cn \<noteq> UV_OK then cn_read_status cn else UV_EAGAIN,
                   upd_request (\<lambda>r. r\<lparr>rq_size := 0\<rparr>) c)
             else
               let n = min (rq_size (cl_request c)) (length (cn_received cn));
                   c1 = upd_request (\<lambda>r. r\<lparr>rq_size := n, rq_data := take n (cn_received cn)\<rparr>) c
               in (UV_OK, upd_connection i (take_received env n) c1))"

definition start_shutdown :: "client_env \<Rightarrow> client \<Rightarrow> uv_code \<times> client" where
  "start_shutdown env c =
     (let i = rq_id (cl_request c); r = cl_request c
      in case find_connection i c of
           None \<Rightarrow> (UV_EBADF, c)
         | Some cn \<Rightarrow>
             if rq_read r \<and> \<not> cn_read_closed cn \<and> ce_shutdown_read env \<noteq> UV_OK
             then (ce_shutdown_read env, c)
             else
               let c1 = (if rq_read r \<and> \<not> cn_read_closed cn
                         then upd_connection i (\<lambda>cn. cn\<lparr>cn_reading := False,
                                cn_read_status := UV_EOF, cn_read_closed := True\<rparr>) c
                         else c)
               in if rq_write r \<and> \<not> cn_write_closed cn
                  then let c2 = upd_connection i (\<lambda>cn. cn\<lparr>cn_write_closed := True\<rparr>) c1
                       in if ce_shutdown env \<noteq> UV_OK then (ce_shutdown env, c2)
                          else (UV_OK, c2\<lparr>cl_shutdown := Some i\<rparr>)
                  else (UV_OK, complete UV_OK c1))"

definition check_ready :: "client \<Rightarrow> uv_code \<times> client" where
  "check_ready c =
     (case find_connection (rq_id (cl_request c)) c of
        None \<Rightarrow> (UV_EBADF, c)
      | Some cn \<Rightarrow>
          (UV_OK, upd_request (\<lambda>r. r\<lparr>rq_read := (cn_received cn \<noteq> [] \<or> cn_read_status cn \<noteq> UV_OK),
             rq_write := \<not> cn_write_closed cn\<rparr>) c))"

datatype client_command = Cmd_connect | Cmd_close | Cmd_send | Cmd_receive | Cmd_shutdown | Cmd_ready

fun run_command :: "client_env \<Rightarrow> client_command \<Rightarrow> client \<Rightarrow> uv_code \<times> client" where
  "run_command env Cmd_connect c = start_connect env c"
| "run_command env Cmd_close c = start_close c"
| "run_command env Cmd_send c = start_send env c"
| "run_command env Cmd_receive c = receive_data env c"
| "run_command env Cmd_shutdown c = start_shutdown env c"
| "run_command env Cmd_ready c = check_ready c"

text \<open>
  \<^verbatim>\<open>execute\<close>: the wake-up callback, for a stopping runtime and for a command. \<open>waits\<close>: the
  commands submitted through \<^verbatim>\<open>submit_request\<close>, whose caller waits for the completion.
\<close>

definition waits :: "client_command \<Rightarrow> bool" where
  "waits cmd \<longleftrightarrow> cmd \<noteq> Cmd_receive \<and> cmd \<noteq> Cmd_ready"

definition execute_stop :: "client \<Rightarrow> client" where
  "execute_stop c = c\<lparr>cl_stopping := True, cl_connections := map close_connection (cl_connections c)\<rparr>"

text \<open>
  \<^verbatim>\<open>skyuv_client_runtime_call\<close>: the request becomes the current one and the command runs on the
  loop's thread. \<^verbatim>\<open>submit_request\<close>: the caller then waits, unless the command failed.
\<close>

definition skyuv_client_runtime_call ::
    "client_env \<Rightarrow> client_command \<Rightarrow> client_request \<Rightarrow> client \<Rightarrow> uv_code \<times> client" where
  "skyuv_client_runtime_call env cmd req c =
     (if ce_async_send env \<noteq> UV_OK then (ce_async_send env, c)
      else run_command env cmd (c\<lparr>cl_request := req, cl_waiting := True\<rparr>))"

definition submit_request ::
    "client_env \<Rightarrow> client_command \<Rightarrow> client_request \<Rightarrow> client \<Rightarrow> uv_code \<times> client" where
  "submit_request env cmd req c =
     (if ce_mutex_init env \<noteq> UV_OK then (ce_mutex_init env, c)
      else if ce_cond_init env \<noteq> UV_OK then (ce_cond_init env, c)
      else case skyuv_client_runtime_call env cmd req c of
             (result, c1) \<Rightarrow> (result, c1\<lparr>cl_waiting := (result = UV_OK)\<rparr>))"

text \<open>A call with its wait, or without for the commands that answer at once.\<close>

definition client_call ::
    "client_env \<Rightarrow> client_command \<Rightarrow> client_request \<Rightarrow> client \<Rightarrow> uv_code \<times> client" where
  "client_call env cmd req c =
     (if waits cmd then submit_request env cmd req c
      else case skyuv_client_runtime_call env cmd req c of
             (result, c1) \<Rightarrow> (result, c1\<lparr>cl_waiting := False\<rparr>))"

section \<open>Interface functions\<close>

text \<open>
  What the interface functions check and the request they submit: \<open>Inl\<close> is an error returned
  at once. \<open>runtime\<close>, \<open>buffer\<close>, \<open>address\<close>: the pointer is not NULL; \<open>parsed\<close>: the result of
  \<^verbatim>\<open>uv_ip4_addr\<close>.
\<close>

definition skyuv_client_runtime_recv ::
    "bool \<Rightarrow> int \<Rightarrow> bool \<Rightarrow> nat \<Rightarrow> bool \<Rightarrow> uv_code + client_request" where
  "skyuv_client_runtime_recv runtime i buffer capacity out =
     (if \<not> out \<or> \<not> runtime \<or> \<not> buffer \<or> capacity = 0 then Inl UV_EINVAL
      else Inr (request0\<lparr>rq_id := i, rq_size := capacity\<rparr>))"

definition skyuv_client_runtime_connect_timeout ::
    "bool \<Rightarrow> bool \<Rightarrow> int \<Rightarrow> int \<Rightarrow> bool \<Rightarrow> uv_code \<Rightarrow> uv_code + client_request" where
  "skyuv_client_runtime_connect_timeout runtime address port timeout_ms ident parsed =
     (if \<not> ident \<or> \<not> runtime \<or> \<not> address \<or> port < 0 \<or> port > 65535 then Inl UV_EINVAL
      else if parsed \<noteq> UV_OK then Inl parsed
      else Inr (request0\<lparr>rq_timeout_ms := timeout_ms\<rparr>))"

definition skyuv_client_runtime_connect ::
    "bool \<Rightarrow> bool \<Rightarrow> int \<Rightarrow> bool \<Rightarrow> uv_code \<Rightarrow> uv_code + client_request" where
  "skyuv_client_runtime_connect runtime address port ident parsed =
     skyuv_client_runtime_connect_timeout runtime address port (-1) ident parsed"

definition skyuv_client_runtime_shutdown ::
    "bool \<Rightarrow> int \<Rightarrow> bool \<Rightarrow> bool \<Rightarrow> uv_code + client_request" where
  "skyuv_client_runtime_shutdown runtime i rd wr =
     (if \<not> runtime \<or> (\<not> rd \<and> \<not> wr) then Inl UV_EINVAL
      else Inr (request0\<lparr>rq_id := i, rq_read := rd, rq_write := wr\<rparr>))"

definition skyuv_client_runtime_ready ::
    "bool \<Rightarrow> int \<Rightarrow> bool \<Rightarrow> bool \<Rightarrow> uv_code + client_request" where
  "skyuv_client_runtime_ready runtime i rd wr =
     (if \<not> runtime \<or> \<not> rd \<or> \<not> wr then Inl UV_EINVAL else Inr (request0\<lparr>rq_id := i\<rparr>))"

definition skyuv_client_runtime_close :: "bool \<Rightarrow> int \<Rightarrow> uv_code + client_request" where
  "skyuv_client_runtime_close runtime i =
     (if \<not> runtime \<or> i \<le> 0 then Inl UV_EBADF else Inr (request0\<lparr>rq_id := i\<rparr>))"

text \<open>
  The loop of \<^verbatim>\<open>skyuv_client_runtime_send\<close>. \<open>submit\<close> gives the result of the request for \<open>part\<close>
  bytes at an offset; the requests made are returned with the result.
\<close>

definition send_part :: "nat \<Rightarrow> nat" where
  "send_part sz = (if sz > unat UINT_MAX then unat UINT_MAX else sz)"

lemma send_part_pos: "0 < send_part sz \<longleftrightarrow> 0 < sz"
  by (auto simp: send_part_def UINT_MAX_def)

lemma send_part_le: "send_part sz \<le> sz" "send_part sz < 2 ^ 32"
  by (auto simp: send_part_def UINT_MAX_def)

function send_loop :: "(nat \<times> nat \<Rightarrow> uv_code) \<Rightarrow> nat \<Rightarrow> nat \<Rightarrow> uv_code \<times> (nat \<times> nat) list" where
  "send_loop submit offset sz =
     (let part = send_part sz; result = submit (offset, part)
      in if result \<noteq> UV_OK then (result, [(offset, part)])
         else if sz = 0 \<or> sz - part = 0 then (UV_OK, [(offset, part)])
         else case send_loop submit (offset + part) (sz - part) of
                (r, ps) \<Rightarrow> (r, (offset, part) # ps))"
  by pat_completeness auto

termination send_loop
proof (relation "measure (\<lambda>(_, _, sz). sz)")
  fix submit :: "nat \<times> nat \<Rightarrow> uv_code" and offset sz part result
  assume "part = send_part sz" "\<not> (sz = 0 \<or> sz - part = 0)"
  then have "0 < part" using send_part_pos by simp
  then show "((submit, offset + part, sz - part), (submit, offset, sz)) \<in> measure (\<lambda>(_, _, sz). sz)"
    using \<open>\<not> (sz = 0 \<or> sz - part = 0)\<close> by simp
qed simp

definition skyuv_client_runtime_send ::
    "(nat \<times> nat \<Rightarrow> uv_code) \<Rightarrow> bool \<Rightarrow> bool \<Rightarrow> nat \<Rightarrow> uv_code \<times> (nat \<times> nat) list" where
  "skyuv_client_runtime_send submit runtime buffer sz =
     (if \<not> runtime \<or> (\<not> buffer \<and> sz \<noteq> 0) then (UV_EINVAL, []) else send_loop submit 0 sz)"

text \<open>
  Revision and wait. \<open>None\<close>: the runtime is NULL.
\<close>

datatype wait_action =
    Wait_not
  | Wait_sleep u32
  | Wait_condition
  | Wait_timed u64

definition skyuv_client_runtime_revision :: "client option \<Rightarrow> u64" where
  "skyuv_client_runtime_revision c = (case c of None \<Rightarrow> 0 | Some c \<Rightarrow> cl_revision c)"

definition skyuv_client_runtime_wait :: "client option \<Rightarrow> u64 \<Rightarrow> 64 word \<Rightarrow> wait_action" where
  "skyuv_client_runtime_wait c revision timeout_ns =
     (case c of
        None \<Rightarrow>
          if 0 <s timeout_ns then Wait_sleep (ucast ((timeout_ns + 999999) div 1000000)) else Wait_not
      | Some c \<Rightarrow>
          if cl_revision c = revision
          then (if timeout_ns <s 0 then Wait_condition else Wait_timed timeout_ns)
          else Wait_not)"

section \<open>Creation and destruction\<close>

text \<open>
  What creation acquires. The thread's function \<^verbatim>\<open>run\<close> initialises the loop and reports the
  result before it serves; with an error it ends at once. \<open>None\<close> in place of \<open>output\<close> is NULL.
\<close>

datatype client_resource = Res_block | Res_mutex | Res_condition | Res_thread | Res_loop

record client_create_env =
  cv_alloc :: bool
  cv_mutex :: uv_code
  cv_cond :: uv_code
  cv_thread :: uv_code
  cv_loop :: uv_code
  cv_async :: uv_code

definition client_run :: "client_create_env \<Rightarrow> client_resource list \<Rightarrow> uv_code \<times> client_resource list" where
  "client_run env held =
     (if cv_loop env \<noteq> UV_OK then (cv_loop env, held)
      else let held1 = Res_loop # held
           in if cv_async env \<noteq> UV_OK then (cv_async env, remove1 Res_loop held1)
              else (UV_OK, held1))"

definition skyuv_client_runtime_create ::
    "client_create_env \<Rightarrow> client option option \<Rightarrow> client_resource list
      \<Rightarrow> uv_code \<times> client option option \<times> client_resource list" where
  "skyuv_client_runtime_create env output held =
     (case output of
        None \<Rightarrow> (UV_EINVAL, None, held)
      | Some _ \<Rightarrow>
          if \<not> cv_alloc env then (UV_ENOMEM, Some None, held)
          else
            let held1 = Res_block # held
            in if cv_mutex env \<noteq> UV_OK then (cv_mutex env, Some None, remove1 Res_block held1)
               else
                 let held2 = Res_mutex # held1
                 in if cv_cond env \<noteq> UV_OK
                    then (cv_cond env, Some None, remove1 Res_block (remove1 Res_mutex held2))
                    else
                      let held3 = Res_condition # held2;
                          (result, held4) =
                            (if cv_thread env \<noteq> UV_OK then (cv_thread env, held3)
                             else case client_run env (Res_thread # held3) of
                                    (r, h) \<Rightarrow> (r, if r \<noteq> UV_OK then remove1 Res_thread h else h))
                      in if result \<noteq> UV_OK
                         then (result, Some None,
                               remove1 Res_block (remove1 Res_mutex (remove1 Res_condition held4)))
                         else (UV_OK, Some (Some client0), held4))"

text \<open>
  \<^verbatim>\<open>skyuv_client_runtime_destroy\<close>: joining waits until the loop has no handle left and is
  closed, which \<open>execute_stop\<close> and the callbacks bring about.
\<close>

definition skyuv_client_runtime_destroy ::
    "client option option \<Rightarrow> client_resource list \<Rightarrow> client option option \<times> client_resource list" where
  "skyuv_client_runtime_destroy output held =
     (case output of
        Some (Some c) \<Rightarrow>
          (Some None, remove1 Res_block (remove1 Res_mutex (remove1 Res_condition
             (remove1 Res_thread (remove1 Res_loop held)))))
      | _ \<Rightarrow> (output, held))"

section \<open>The loop\<close>

text \<open>
  Everything that can happen, one event at a time. A caller may submit a command when no call is
  running; libuv calls back what is outstanding: an open timer, a started read (with at most
  the bytes that fit the buffer offered), the connect request (with an error when its handle is
  being closed), the write and the shutdown request, and the close callbacks, which follow the
  other callbacks of their handle. \<open>None\<close>: the event cannot happen.
\<close>

datatype client_event =
    Ev_call client_command client_request
  | Ev_return
  | Ev_stop
  | Ev_connected int uv_code
  | Ev_received int "uv_code + bytes"
  | Ev_timeout int
  | Ev_tcp_closed int
  | Ev_timer_closed int
  | Ev_written uv_code
  | Ev_shutdown uv_code

text \<open>The requests the interface functions submit.\<close>

definition request_valid :: "client_command \<Rightarrow> client_request \<Rightarrow> bool" where
  "request_valid cmd req \<longleftrightarrow> \<not> rq_done req
     \<and> (cmd = Cmd_receive \<longrightarrow> rq_size req > 0) \<and> (cmd = Cmd_close \<longrightarrow> rq_id req > 0)"

definition when_connection ::
    "int \<Rightarrow> client \<Rightarrow> (connection \<Rightarrow> bool) \<Rightarrow> client \<Rightarrow> client option" where
  "when_connection i c P c' =
     (case find_connection i c of Some cn \<Rightarrow> if P cn then Some c' else None | None \<Rightarrow> None)"

fun received_ok :: "uv_code + bytes \<Rightarrow> connection \<Rightarrow> bool" where
  "received_ok (Inr bs) cn \<longleftrightarrow> length bs \<le> allocate_read cn"
| "received_ok (Inl status) cn \<longleftrightarrow> status \<noteq> UV_OK"

fun client_do :: "client_env \<Rightarrow> client_event \<Rightarrow> client \<Rightarrow> client option" where
  "client_do env (Ev_call cmd req) c =
     (if \<not> cl_waiting c \<and> \<not> cl_stopping c \<and> request_valid cmd req
      then Some (snd (client_call env cmd req c)) else None)"
| "client_do env Ev_return c =
     (if cl_waiting c \<and> rq_done (cl_request c) then Some (c\<lparr>cl_waiting := False\<rparr>) else None)"
| "client_do env Ev_stop c =
     (if \<not> cl_waiting c \<and> \<not> cl_stopping c then Some (execute_stop c) else None)"
| "client_do env (Ev_connected i status) c =
     when_connection i c (\<lambda>cn. cn_connecting cn \<and> (cn_tcp cn = Handle_open \<or> status \<noteq> UV_OK))
       (connected env i status (upd_connection i (\<lambda>cn. cn\<lparr>cn_connecting := False\<rparr>) c))"
| "client_do env (Ev_received i r) c =
     when_connection i c (\<lambda>cn. cn_reading cn \<and> cn_tcp cn = Handle_open \<and> received_ok r cn)
       (received i r c)"
| "client_do env (Ev_timeout i) c =
     when_connection i c (\<lambda>cn. cn_timer cn = Handle_open) (connection_timeout i c)"
| "client_do env (Ev_tcp_closed i) c =
     when_connection i c (\<lambda>cn. cn_tcp cn = Handle_closing \<and> \<not> cn_connecting cn
         \<and> cl_write c \<noteq> Some i \<and> cl_shutdown c \<noteq> Some i)
       (connection_closed i (upd_connection i (\<lambda>cn. cn\<lparr>cn_tcp := Handle_closed\<rparr>) c))"
| "client_do env (Ev_timer_closed i) c =
     when_connection i c (\<lambda>cn. cn_timer cn = Handle_closing)
       (connection_closed i (upd_connection i (\<lambda>cn. cn\<lparr>cn_timer := Handle_closed\<rparr>) c))"
| "client_do env (Ev_written status) c =
     (if cl_write c \<noteq> None then Some (written status (c\<lparr>cl_write := None\<rparr>)) else None)"
| "client_do env (Ev_shutdown status) c =
     (if cl_shutdown c \<noteq> None then Some (shutdown_done status (c\<lparr>cl_shutdown := None\<rparr>)) else None)"

inductive client_reachable :: "client \<Rightarrow> bool" where
  client_start: "client_reachable client0"
| client_event: "client_reachable c \<Longrightarrow> client_do env ev c = Some c' \<Longrightarrow> client_reachable c'"

end
