(* ===== verification/Client_Safety.thy ===== *)
theory Client_Safety
  imports Client_Runtime
begin

text \<open>
  The invariant of the client's network runtime and what follows from it in every reachable
  state: nobody touches a request whose caller has returned, a waiting caller is always
  released by an event that can happen, the receive buffers keep the stream, and stopping
  empties the loop.
\<close>

section \<open>The invariant\<close>

definition conn_ok :: "int \<Rightarrow> connection \<Rightarrow> bool" where
  "conn_ok lid cn \<longleftrightarrow>
     0 < cn_id cn \<and> cn_id cn \<le> lid + 1 \<and> cn_id cn \<le> INT64_MAX \<and> (\<not> cn_request cn \<longrightarrow> cn_id cn \<le> lid)
   \<and> cn_handles cn = of_bool (cn_tcp cn \<noteq> Handle_closed) + of_bool (cn_timer cn \<noteq> Handle_closed)
   \<and> (cn_tcp cn = Handle_closed \<longrightarrow> cn_timer cn \<noteq> Handle_closed)
   \<and> (cn_timer cn \<noteq> Handle_closed \<longrightarrow> cn_timer_initialized cn)
   \<and> (cn_timer cn = Handle_open \<longrightarrow> cn_connecting cn \<and> cn_tcp cn = Handle_open)
   \<and> (cn_connecting cn \<longrightarrow> cn_request cn \<and> cn_id cn = lid + 1 \<and> cn_tcp cn \<noteq> Handle_closed
        \<and> (cn_timed_out cn \<longleftrightarrow> cn_tcp cn \<noteq> Handle_open) \<and> \<not> cn_reading cn
        \<and> cn_read_status cn = UV_OK \<and> cn_received cn = [])
   \<and> (cn_timed_out cn \<longrightarrow> cn_tcp cn \<noteq> Handle_open)
   \<and> (cn_tcp cn = Handle_open \<and> cn_request cn \<longrightarrow> cn_connecting cn)"

definition buffer_ok :: "connection \<Rightarrow> bool" where
  "buffer_ok cn \<longleftrightarrow>
     length (cn_received cn) \<le> CLIENT_RECEIVE_LIMIT
   \<and> (cn_connecting cn \<longrightarrow> \<not> cn_paused cn)
   \<and> (cn_reading cn \<longrightarrow> length (cn_received cn) < CLIENT_RECEIVE_LIMIT \<and> \<not> cn_paused cn
        \<and> cn_read_status cn = UV_OK)
   \<and> (cn_tcp cn = Handle_open \<and> \<not> cn_connecting cn \<and> cn_read_status cn = UV_OK \<and> \<not> cn_reading cn \<longrightarrow>
        cn_paused cn \<and> length (cn_received cn) = CLIENT_RECEIVE_LIMIT)
   \<and> cn_in cn = cn_out cn @ cn_received cn"

text \<open>What will complete the current request, or has completed it.\<close>

definition completers :: "client \<Rightarrow> nat" where
  "completers c = length (filter cn_request (cl_connections c)) + of_bool (cl_write c \<noteq> None)
     + of_bool (cl_shutdown c \<noteq> None)"

definition client_ok :: "client \<Rightarrow> bool" where
  "client_ok c \<longleftrightarrow>
     list_all (conn_ok (cl_next_id c)) (cl_connections c)
   \<and> list_all buffer_ok (cl_connections c)
   \<and> distinct (map cn_id (cl_connections c))
   \<and> 0 \<le> cl_next_id c \<and> cl_next_id c \<le> INT64_MAX
   \<and> \<not> cl_bad c
   \<and> completers c + of_bool (cl_waiting c \<and> rq_done (cl_request c)) = of_bool (cl_waiting c)
   \<and> (cl_stopping c \<longrightarrow> \<not> cl_waiting c \<and> list_all (\<lambda>cn. cn_tcp cn \<noteq> Handle_open) (cl_connections c))"

lemma client_ok_start: "client_ok client0"
  by (simp add: client_ok_def client0_def completers_def INT64_MAX_def)

section \<open>One connection of the list\<close>

lemma find_split:
  assumes "distinct (map f xs)" "List.find (\<lambda>x. f x = i) xs = Some x"
  obtains ys zs where "xs = ys @ x # zs" "f x = i" "\<forall>y\<in>set ys. f y \<noteq> i" "\<forall>z\<in>set zs. f z \<noteq> i"
  using assms
proof (induction xs arbitrary: thesis)
  case Nil
  then show ?case by simp
next
  case (Cons a xs)
  show ?case
  proof (cases "f a = i")
    case True
    then have "a = x" using Cons.prems(3) by simp
    moreover have "\<forall>z\<in>set xs. f z \<noteq> i" using Cons.prems(2) True by (auto simp: image_iff)
    ultimately show ?thesis using Cons.prems(1) [of "[]" xs] True by simp
  next
    case False
    obtain ys zs where "xs = ys @ x # zs" "f x = i" "\<forall>y\<in>set ys. f y \<noteq> i" "\<forall>z\<in>set zs. f z \<noteq> i"
      using Cons.IH Cons.prems(2,3) False by auto
    then show ?thesis using Cons.prems(1) [of "a # ys" zs] False by simp
  qed
qed

lemma map_other: "\<forall>y\<in>set ys. g y \<noteq> i \<Longrightarrow> map (\<lambda>y. if g y = i then f y else y) ys = ys"
  by (induction ys) auto

lemma filter_other: "\<forall>y\<in>set ys. g y \<noteq> i \<Longrightarrow> filter (\<lambda>y. g y \<noteq> i) ys = ys"
  by (induction ys) auto

lemma find_mid:
  "\<forall>y\<in>set ys. g y \<noteq> i \<Longrightarrow> g x = i \<Longrightarrow> List.find (\<lambda>y. g y = i) (ys @ x # zs) = Some x"
  by (induction ys) auto

text \<open>The list around the connection \<open>i\<close>.\<close>

definition around :: "int \<Rightarrow> connection list \<Rightarrow> connection list \<Rightarrow> bool" where
  "around i ys zs \<longleftrightarrow> (\<forall>y\<in>set ys. cn_id y \<noteq> i) \<and> (\<forall>z\<in>set zs. cn_id z \<noteq> i)"

lemma find_connection_split:
  assumes "client_ok c" "find_connection i c = Some cn"
  obtains ys zs where "cl_connections c = ys @ cn # zs" "cn_id cn = i" "around i ys zs"
  using assms find_split [of cn_id "cl_connections c" i cn thesis]
  by (auto simp: client_ok_def find_connection_def around_def)

lemma upd_connections:
  "around i ys zs \<Longrightarrow> cn_id cn = i \<Longrightarrow> cl_connections c = ys @ cn # zs
    \<Longrightarrow> upd_connection i f c = c\<lparr>cl_connections := ys @ f cn # zs\<rparr>"
  by (simp add: upd_connection_def around_def map_other)

lemma upd_connection_at:
  "around i ys zs \<Longrightarrow> cn_id cn = i
    \<Longrightarrow> upd_connection i f (c\<lparr>cl_connections := ys @ cn # zs\<rparr>) = c\<lparr>cl_connections := ys @ f cn # zs\<rparr>"
  by (simp add: upd_connections)

lemma upd_connection_swap:
  "upd_connection i f (c\<lparr>cl_request := r\<rparr>) = (upd_connection i f c)\<lparr>cl_request := r\<rparr>"
  "upd_connection i f (c\<lparr>cl_next_id := n\<rparr>) = (upd_connection i f c)\<lparr>cl_next_id := n\<rparr>"
  "upd_connection i f (c\<lparr>cl_bad := b\<rparr>) = (upd_connection i f c)\<lparr>cl_bad := b\<rparr>"
  by (simp_all add: upd_connection_def)

lemma find_around:
  "around i ys zs \<Longrightarrow> cn_id cn = i \<Longrightarrow> cl_connections c = ys @ cn # zs \<Longrightarrow> find_connection i c = Some cn"
  by (simp add: find_connection_def around_def find_mid)

lemma remove_around:
  "around i ys zs \<Longrightarrow> cn_id cn = i \<Longrightarrow> filter (\<lambda>cn. cn_id cn \<noteq> i) (ys @ cn # zs) = ys @ zs"
  by (simp add: around_def filter_other)

lemma others_idle:
  assumes "client_ok c" "cl_connections c = ys @ cn # zs" "cn_request cn"
  shows "filter cn_request ys = []" "filter cn_request zs = []" "cl_write c = None"
    "cl_shutdown c = None" "cl_waiting c" "\<not> rq_done (cl_request c)"
proof -
  have "completers c + of_bool (cl_waiting c \<and> rq_done (cl_request c)) = of_bool (cl_waiting c)"
    using assms(1) by (simp add: client_ok_def)
  moreover have "completers c = Suc (length (filter cn_request ys) + length (filter cn_request zs)
      + of_bool (cl_write c \<noteq> None) + of_bool (cl_shutdown c \<noteq> None))"
    using assms(2,3) by (simp add: completers_def)
  ultimately have w: "cl_waiting c"
    and z: "length (filter cn_request ys) + length (filter cn_request zs)
      + of_bool (cl_write c \<noteq> None) + of_bool (cl_shutdown c \<noteq> None)
      + of_bool (rq_done (cl_request c)) = (0 :: nat)"
    by (cases "cl_waiting c"; simp)+
  then show "filter cn_request ys = []" "filter cn_request zs = []" "cl_write c = None"
    "cl_shutdown c = None" "cl_waiting c" "\<not> rq_done (cl_request c)"
    by simp_all
qed

lemma set_result_at:
  assumes "around i ys zs" "cn_request cn" "\<not> cl_bad c" "cl_waiting c"
  shows "set_result i result (c\<lparr>cl_connections := ys @ cn # zs\<rparr>)
    = c\<lparr>cl_connections := ys @ cn # zs, cl_request := (cl_request c)\<lparr>rq_result := result\<rparr>\<rparr>"
proof -
  have "list_all (\<lambda>cn. cn_id cn = i \<longrightarrow> cn_request cn) (ys @ cn # zs)"
    using assms(1,2) by (auto simp: around_def list_all_iff)
  then show ?thesis using assms(3,4) by (simp add: set_result_def upd_request_def)
qed

lemma when_connectionE:
  assumes "when_connection i c P c' = Some c''" "client_ok c"
  obtains cn ys zs where "c'' = c'" "P cn" "cl_connections c = ys @ cn # zs" "cn_id cn = i" "around i ys zs"
proof -
  from assms(1) obtain cn where "find_connection i c = Some cn" "P cn" "c'' = c'"
    by (auto simp: when_connection_def split: option.splits if_splits)
  moreover from this(1) obtain ys zs
    where "cl_connections c = ys @ cn # zs" "cn_id cn = i" "around i ys zs"
    by (rule find_connection_split [OF assms(2)])
  ultimately show thesis by (intro that) simp_all
qed

text \<open>
  Replacing one connection: the new one must fit, the rest of the invariant carries over when
  the counting of completers does.
\<close>

lemma client_ok_replace:
  assumes "client_ok c" "cl_connections c = ys @ cn # zs"
    and "conn_ok (cl_next_id c) cn'" "buffer_ok cn'" "cn_id cn' = cn_id cn"
    and "cn_request cn' = cn_request cn"
    and "cn_tcp cn' = Handle_open \<Longrightarrow> cn_tcp cn = Handle_open"
    and "cl_connections d = ys @ cn' # zs" "cl_next_id d = cl_next_id c" "\<not> cl_bad d"
    and "cl_write d = cl_write c" "cl_shutdown d = cl_shutdown c" "cl_waiting d = cl_waiting c"
    and "rq_done (cl_request d) = rq_done (cl_request c)" "cl_stopping d = cl_stopping c"
  shows "client_ok d"
proof -
  have "completers d = completers c" using assms(2,6,8,11,12) by (simp add: completers_def)
  then show ?thesis using assms(1-5,7-10,13-15) unfolding client_ok_def
    by (simp add: assms(13-15)) blast
qed

text \<open>Removing one connection, with the completion of its request.\<close>

lemma client_ok_remove:
  assumes "client_ok c" "cl_connections c = ys @ cn # zs" "around i ys zs" "cn_id cn = i"
    and "cl_connections d = ys @ zs" "cl_next_id d = cl_next_id c" "\<not> cl_bad d"
    and "cl_write d = cl_write c" "cl_shutdown d = cl_shutdown c" "cl_waiting d = cl_waiting c"
    and "rq_done (cl_request d) = (rq_done (cl_request c) \<or> cn_request cn)"
    and "cl_stopping d = cl_stopping c"
  shows "client_ok d"
  using assms others_idle [OF assms(1,2)]
  by (cases "cn_request cn") (auto simp: client_ok_def completers_def)

text \<open>The same connections, with another request or another completer.\<close>

lemma client_ok_frame:
  assumes "client_ok c" "cl_connections d = cl_connections c" "cl_next_id d = cl_next_id c"
    and "\<not> cl_bad d" "cl_stopping d = cl_stopping c" "cl_stopping c \<Longrightarrow> \<not> cl_waiting d"
    and "completers d + of_bool (cl_waiting d \<and> rq_done (cl_request d)) = of_bool (cl_waiting d)"
  shows "client_ok d"
  using assms unfolding client_ok_def by simp

lemma idle_completers:
  assumes "client_ok c" "\<not> cl_waiting c"
  shows "filter cn_request (cl_connections c) = []" "cl_write c = None" "cl_shutdown c = None"
  using assms by (auto simp: client_ok_def completers_def)

lemma idle_conn:
  assumes "client_ok c" "\<not> cl_waiting c" "cn \<in> set (cl_connections c)"
  shows "\<not> cn_request cn" "\<not> cn_connecting cn" "cn_id cn \<le> cl_next_id c" "0 < cn_id cn"
proof -
  have ok: "conn_ok (cl_next_id c) cn" using assms(1,3) by (auto simp: client_ok_def list_all_iff)
  show r: "\<not> cn_request cn" using idle_completers(1) [OF assms(1,2)] assms(3)
    by (auto simp: filter_empty_conv)
  show "\<not> cn_connecting cn" "cn_id cn \<le> cl_next_id c" "0 < cn_id cn"
    using ok r by (auto simp: conn_ok_def)
qed

lemma idle_around: "client_ok c \<Longrightarrow> \<not> cl_waiting c \<Longrightarrow> around (cl_next_id c + 1) [] (cl_connections c)"
  using idle_conn(3) by (fastforce simp: around_def)

lemma client_ok_add:
  assumes "client_ok c" "\<not> cl_waiting c" "\<not> cl_stopping c"
    and "conn_ok (cl_next_id c) cn" "buffer_ok cn" "cn_id cn = cl_next_id c + 1" "cn_request cn"
    and "cl_connections d = cn # cl_connections c" "cl_next_id d = cl_next_id c" "\<not> cl_bad d"
    and "cl_write d = cl_write c" "cl_shutdown d = cl_shutdown c" "cl_waiting d"
    and "\<not> rq_done (cl_request d)" "\<not> cl_stopping d"
  shows "client_ok d"
proof -
  have "cn_id cn \<notin> cn_id ` set (cl_connections c)"
    using idle_around [OF assms(1,2)] assms(6) by (auto simp: around_def)
  then show ?thesis using assms idle_completers [OF assms(1,2)]
    unfolding client_ok_def by (simp add: completers_def)
qed

section \<open>Commands keep the invariant\<close>

lemma close_connection_sel:
  "cn_id (close_connection cn) = cn_id cn" "cn_request (close_connection cn) = cn_request cn"
  "cn_connecting (close_connection cn) = cn_connecting cn"
  "cn_tcp (close_connection cn) \<noteq> Handle_open"
  "cn_tcp (close_connection cn) = Handle_open \<longleftrightarrow> False"
  by (auto simp: close_connection_def)

lemma buffer_ok_close: "buffer_ok cn \<Longrightarrow> buffer_ok (close_connection cn)"
  by (auto simp: buffer_ok_def close_connection_def)

lemma conn_ok_close:
  "conn_ok lid cn \<Longrightarrow> \<not> cn_connecting cn \<or> cn_timed_out cn \<Longrightarrow> conn_ok lid (close_connection cn)"
  by (cases "cn_tcp cn"; cases "cn_timer cn"; clarsimp simp: conn_ok_def close_connection_def)

lemma conn_ok_request:
  "conn_ok lid cn \<Longrightarrow> \<not> cn_connecting cn \<Longrightarrow> cn_tcp cn \<noteq> Handle_open \<Longrightarrow> conn_ok lid (cn\<lparr>cn_request := True\<rparr>)"
  by (auto simp: conn_ok_def)

lemma new_connection_sel [simp]:
  "cn_id (new_connection i) = i" "cn_request (new_connection i)" "cn_handles (new_connection i) = 1"
  by (simp_all add: new_connection_def)

definition timed_connection :: "int \<Rightarrow> connection" where
  "timed_connection i =
     (new_connection i)\<lparr>cn_timer_initialized := True, cn_handles := 2, cn_timer := Handle_open\<rparr>"

lemma start_conn_ok:
  assumes "0 < lid + 1" "lid + 1 \<le> INT64_MAX" "cn = new_connection (lid + 1) \<or> cn = timed_connection (lid + 1)"
  shows "conn_ok lid (close_connection cn)" "conn_ok lid (cn\<lparr>cn_connecting := True\<rparr>)"
    "buffer_ok (close_connection cn)" "buffer_ok (cn\<lparr>cn_connecting := True\<rparr>)"
  using assms
  by (auto simp: conn_ok_def buffer_ok_def close_connection_def timed_connection_def new_connection_def
      CLIENT_RECEIVE_LIMIT_def)

text \<open>
  What \<open>start_connect\<close> can do: it adds a connection that is connecting, or one that is being
  closed, after which the request carries the error.
\<close>

inductive connect_outcome :: "client \<Rightarrow> client \<Rightarrow> bool" for c0 where
  outcome_go: "cn = new_connection (cl_next_id c0 + 1) \<or> cn = timed_connection (cl_next_id c0 + 1)
    \<Longrightarrow> connect_outcome c0 (c0\<lparr>cl_connections := cn\<lparr>cn_connecting := True\<rparr> # cl_connections c0\<rparr>)"
| outcome_fail: "cn = new_connection (cl_next_id c0 + 1) \<or> cn = timed_connection (cl_next_id c0 + 1)
    \<Longrightarrow> connect_outcome c0 (c0\<lparr>cl_connections := close_connection cn # cl_connections c0,
          cl_request := (cl_request c0)\<lparr>rq_result := res\<rparr>\<rparr>)"

lemma start_connect_outcome:
  assumes a: "around (cl_next_id c + 1) [] (cl_connections c)"
    and bad: "\<not> cl_bad c" and w: "cl_waiting c" and run: "start_connect env c = (r, d)"
  shows "(r \<noteq> UV_OK \<and> d = c) \<or> (r = UV_OK \<and> cl_next_id c \<noteq> INT64_MAX \<and> connect_outcome c d)"
proof -
  let ?i = "cl_next_id c + 1"
  have upd: "upd_connection ?i f (c\<lparr>cl_connections := cn # cl_connections c\<rparr>)
      = c\<lparr>cl_connections := f cn # cl_connections c\<rparr>" if "cn_id cn = ?i" for f cn
    using upd_connections [OF a that] by simp
  have fail: "fail_connect ?i res (c\<lparr>cl_connections := cn # cl_connections c\<rparr>)
      = c\<lparr>cl_connections := close_connection cn # cl_connections c,
          cl_request := (cl_request c)\<lparr>rq_result := res\<rparr>\<rparr>"
    if "cn_id cn = ?i" "cn_request cn" for res cn
    using a that bad w
    by (auto simp: fail_connect_def set_result_def upd_request_def upd_connection_def around_def
        list_all_iff map_other)
  have timed: "(new_connection ?i)\<lparr>cn_timer_initialized := True, cn_handles := Suc (Suc 0),
      cn_timer := Handle_open\<rparr> = timed_connection ?i" by (simp add: timed_connection_def)
  have ts: "cn_id (timed_connection ?i) = ?i" "cn_request (timed_connection ?i)"
    by (simp_all add: timed_connection_def)
  show ?thesis
    using run unfolding start_connect_def Let_def
    by (auto simp: upd fail timed ts connect_outcome.intros split: if_splits)
qed

lemma connect_keeps:
  assumes ok: "client_ok c" and idle: "\<not> cl_waiting c" "\<not> cl_stopping c" and req: "\<not> rq_done req"
    and run: "start_connect env (c\<lparr>cl_request := req, cl_waiting := True\<rparr>) = (r, d)"
  shows "client_ok (d\<lparr>cl_waiting := (r = UV_OK)\<rparr>)"
proof -
  let ?c = "c\<lparr>cl_request := req, cl_waiting := True\<rparr>"
  have bad: "\<not> cl_bad c" and nid: "0 \<le> cl_next_id c" "cl_next_id c \<le> INT64_MAX"
    using ok by (auto simp: client_ok_def)
  have "(r \<noteq> UV_OK \<and> d = ?c) \<or> (r = UV_OK \<and> cl_next_id c \<noteq> INT64_MAX \<and> connect_outcome ?c d)"
    using start_connect_outcome [OF _ _ _ run] idle_around [OF ok idle(1)] bad by simp
  then show ?thesis
  proof
    assume "r \<noteq> UV_OK \<and> d = ?c"
    then show ?thesis
      by (intro client_ok_frame [OF ok]) (simp_all add: bad completers_def idle_completers [OF ok idle(1)])
  next
    assume g: "r = UV_OK \<and> cl_next_id c \<noteq> INT64_MAX \<and> connect_outcome ?c d"
    then have le: "0 < cl_next_id c + 1" "cl_next_id c + 1 \<le> INT64_MAX" using nid by auto
    from g have "connect_outcome ?c d" by simp
    then show ?thesis
    proof cases
      case (outcome_go cn)
      then have cn: "cn = new_connection (cl_next_id c + 1) \<or> cn = timed_connection (cl_next_id c + 1)" by simp
      show ?thesis
        by (rule client_ok_add [OF ok idle start_conn_ok(2) [OF le cn] start_conn_ok(4) [OF le cn]])
          (use g bad cn req idle outcome_go in \<open>auto simp: timed_connection_def\<close>)
    next
      case (outcome_fail cn res)
      then have cn: "cn = new_connection (cl_next_id c + 1) \<or> cn = timed_connection (cl_next_id c + 1)" by simp
      show ?thesis
        by (rule client_ok_add [OF ok idle start_conn_ok(1) [OF le cn] start_conn_ok(3) [OF le cn]])
          (use g bad cn req idle outcome_fail in \<open>auto simp: timed_connection_def close_connection_sel\<close>)
    qed
  qed
qed

lemma conn_in_ok:
  assumes "client_ok c" "cl_connections c = ys @ cn # zs"
  shows "conn_ok (cl_next_id c) cn" "buffer_ok cn"
  using assms by (auto simp: client_ok_def)

lemma find_calling [simp]:
  "find_connection i (c\<lparr>cl_request := req, cl_waiting := w\<rparr>) = find_connection i c"
  by (simp add: find_connection_def)

text \<open>A command on an idle client that touches no connection.\<close>

lemma calling_keeps:
  assumes "client_ok c" "\<not> cl_waiting c" "\<not> cl_stopping c"
    and "cl_connections d = cl_connections c" "cl_next_id d = cl_next_id c" "\<not> cl_bad d" "\<not> cl_stopping d"
    and "of_bool (cl_write d \<noteq> None) + of_bool (cl_shutdown d \<noteq> None)
      + of_bool (cl_waiting d \<and> rq_done (cl_request d)) = (of_bool (cl_waiting d) :: nat)"
  shows "client_ok d"
  by (rule client_ok_frame [OF assms(1)])
    (use assms idle_completers [OF assms(1,2)] in \<open>simp_all add: completers_def\<close>)

lemma close_keeps:
  assumes ok: "client_ok c" and idle: "\<not> cl_waiting c" "\<not> cl_stopping c" and req: "\<not> rq_done req"
    and run: "start_close (c\<lparr>cl_request := req, cl_waiting := True\<rparr>) = (r, d)"
  shows "client_ok (d\<lparr>cl_waiting := (r = UV_OK)\<rparr>)"
proof (cases "find_connection (rq_id req) c")
  case None
  then show ?thesis
    using run ok req idle_completers [OF ok idle(1)]
    by (intro calling_keeps [OF ok idle])
      (auto simp: start_close_def Let_def complete_def upd_request_def idle client_ok_def split: if_splits)
next
  case (Some cn)
  then obtain ys zs where sp: "cl_connections c = ys @ cn # zs" "cn_id cn = rq_id req" "around (rq_id req) ys zs"
    using find_connection_split [OF ok] by blast
  have cn: "\<not> cn_request cn" "\<not> cn_connecting cn" using idle_conn [OF ok idle(1), of cn] sp(1) by auto
  let ?cn = "close_connection (cn\<lparr>cn_request := True\<rparr>)"
  have d: "d = c\<lparr>cl_request := req, cl_waiting := True, cl_connections := ys @ ?cn # zs\<rparr>" "r = UV_OK"
    using run Some sp(3) by (auto simp: start_close_def Let_def upd_connections [OF sp(3,2)] sp(1))
  have e: "?cn = (close_connection cn)\<lparr>cn_request := True\<rparr>" by (simp add: close_connection_def)
  have "conn_ok (cl_next_id c) ?cn" unfolding e
    by (rule conn_ok_request)
      (use conn_ok_close conn_in_ok(1) [OF ok sp(1)] cn(2) in \<open>simp_all add: close_connection_sel\<close>)
  moreover have "buffer_ok ?cn"
    using buffer_ok_close conn_in_ok(2) [OF ok sp(1)] by (simp add: buffer_ok_def close_connection_def)
  ultimately show ?thesis
    using ok idle_completers [OF ok idle(1)] idle req sp(1) cn(1)
    by (simp add: d client_ok_def completers_def close_connection_sel)
qed

lemma send_keeps:
  assumes ok: "client_ok c" and idle: "\<not> cl_waiting c" "\<not> cl_stopping c" and req: "\<not> rq_done req"
    and run: "start_send env (c\<lparr>cl_request := req, cl_waiting := True\<rparr>) = (r, d)"
  shows "client_ok (d\<lparr>cl_waiting := (r = UV_OK)\<rparr>)"
  using run ok req idle_completers [OF ok idle(1)]
  by (intro calling_keeps [OF ok idle])
    (auto simp: start_send_def Let_def complete_def upd_request_def idle client_ok_def
      split: if_splits option.splits)

lemma ready_keeps:
  assumes ok: "client_ok c" and idle: "\<not> cl_waiting c" "\<not> cl_stopping c"
    and run: "check_ready (c\<lparr>cl_request := req, cl_waiting := True\<rparr>) = (r, d)"
  shows "client_ok (d\<lparr>cl_waiting := False\<rparr>)"
  using run ok idle_completers [OF ok idle(1)]
  by (intro calling_keeps [OF ok idle])
    (auto simp: check_ready_def upd_request_def idle client_ok_def split: option.splits)

lemma take_received_sel:
  "cn_id (take_received env n cn) = cn_id cn" "cn_request (take_received env n cn) = cn_request cn"
  "cn_tcp (take_received env n cn) = cn_tcp cn"
  by (auto simp: take_received_def Let_def)

lemma take_received_ok:
  assumes "conn_ok lid cn" "buffer_ok cn" "0 < n" "cn_received cn \<noteq> []"
  shows "conn_ok lid (take_received env n cn)" "buffer_ok (take_received env n cn)"
proof -
  have "\<not> cn_connecting cn" using assms(1,4) by (auto simp: conn_ok_def)
  then show "conn_ok lid (take_received env n cn)"
    using assms(1) by (simp add: conn_ok_def take_received_def Let_def)
  have "length (drop n (cn_received cn)) < length (cn_received cn)"
    using assms(3,4) by (cases "cn_received cn") auto
  then show "buffer_ok (take_received env n cn)"
    using assms(2) by (auto simp: buffer_ok_def take_received_def Let_def)
qed

text \<open>Replacing one connection of an idle client, then a frame.\<close>

lemma calling_replace:
  assumes ok: "client_ok c" and idle: "\<not> cl_waiting c" "\<not> cl_stopping c"
    and sp: "cl_connections c = ys @ cn # zs"
    and new: "conn_ok (cl_next_id c) cn'" "buffer_ok cn'" "cn_id cn' = cn_id cn"
    "cn_request cn' = cn_request cn" "cn_tcp cn' = cn_tcp cn"
    and d: "cl_connections d = ys @ cn' # zs" "cl_next_id d = cl_next_id c" "\<not> cl_bad d" "\<not> cl_stopping d"
    and w: "of_bool (cl_write d \<noteq> None) + of_bool (cl_shutdown d \<noteq> None)
      + of_bool (cl_waiting d \<and> rq_done (cl_request d)) = (of_bool (cl_waiting d) :: nat)"
  shows "client_ok d"
proof -
  let ?c = "c\<lparr>cl_connections := ys @ cn' # zs\<rparr>"
  have "\<not> cl_bad c" using ok by (simp add: client_ok_def)
  then have "client_ok ?c" using client_ok_replace [OF ok sp new(1-4), of ?c] new(5) by simp
  then show ?thesis
    by (rule calling_keeps) (use idle d w in simp_all)
qed

lemma receive_keeps:
  assumes ok: "client_ok c" and idle: "\<not> cl_waiting c" "\<not> cl_stopping c" and req: "0 < rq_size req"
    and run: "receive_data env (c\<lparr>cl_request := req, cl_waiting := True\<rparr>) = (r, d)"
  shows "client_ok (d\<lparr>cl_waiting := False\<rparr>)"
proof -
  let ?c = "c\<lparr>cl_request := req, cl_waiting := True\<rparr>"
  have bad: "\<not> cl_bad c" using ok by (simp add: client_ok_def)
  show ?thesis
  proof (cases "\<exists>cn. find_connection (rq_id req) c = Some cn \<and> cn_received cn \<noteq> []")
    case False
    then show ?thesis
      using run idle_completers [OF ok idle(1)] bad
      by (intro calling_keeps [OF ok idle])
        (auto simp: receive_data_def Let_def upd_request_def idle split: option.splits)
  next
    case True
    then obtain cn where f: "find_connection (rq_id req) c = Some cn" and ne: "cn_received cn \<noteq> []" by blast
    from f obtain ys zs where sp: "cl_connections c = ys @ cn # zs" "cn_id cn = rq_id req"
      "around (rq_id req) ys zs" by (rule find_connection_split [OF ok])
    let ?n = "min (rq_size req) (length (cn_received cn))"
    have n: "0 < ?n" using req ne by simp
    have d: "d = (upd_request (\<lambda>r. r\<lparr>rq_size := ?n, rq_data := take ?n (cn_received cn)\<rparr>) ?c)
        \<lparr>cl_connections := ys @ take_received env ?n cn # zs\<rparr>"
      using run f ne
      by (simp add: receive_data_def Let_def upd_connections [OF sp(3,2)] sp(1) upd_request_def)
    show ?thesis
      by (rule calling_replace [OF ok idle sp(1) take_received_ok [OF conn_in_ok [OF ok sp(1)] n ne, of env]])
        (use idle_completers [OF ok idle(1)] bad idle in \<open>simp_all add: d take_received_sel upd_request_def\<close>)
  qed
qed

text \<open>The connection after a shutdown of the given directions.\<close>

definition shut_connection :: "bool \<Rightarrow> bool \<Rightarrow> connection \<Rightarrow> connection" where
  "shut_connection rd wr cn =
     (let cn1 = (if rd then cn\<lparr>cn_reading := False, cn_read_status := UV_EOF, cn_read_closed := True\<rparr> else cn)
      in if wr then cn1\<lparr>cn_write_closed := True\<rparr> else cn1)"

lemma shut_connection_sel:
  "cn_id (shut_connection rd wr cn) = cn_id cn" "cn_request (shut_connection rd wr cn) = cn_request cn"
  "cn_tcp (shut_connection rd wr cn) = cn_tcp cn"
  by (simp_all add: shut_connection_def Let_def)

lemma shut_connection_ok:
  "conn_ok lid cn \<Longrightarrow> buffer_ok cn \<Longrightarrow> \<not> cn_connecting cn \<Longrightarrow> conn_ok lid (shut_connection rd wr cn)"
  "conn_ok lid cn \<Longrightarrow> buffer_ok cn \<Longrightarrow> \<not> cn_connecting cn \<Longrightarrow> buffer_ok (shut_connection rd wr cn)"
  by (simp_all add: shut_connection_def Let_def conn_ok_def buffer_ok_def)

lemma start_shutdown_result:
  assumes f: "find_connection (rq_id (cl_request c)) c = Some cn" and bad: "\<not> cl_bad c" "cl_waiting c"
    "\<not> rq_done (cl_request c)" and idle: "cl_write c = None" "cl_shutdown c = None"
    and sp: "around (rq_id (cl_request c)) ys zs" "cn_id cn = rq_id (cl_request c)" "cl_connections c = ys @ cn # zs"
    and run: "start_shutdown env c = (r, d)"
  shows "\<exists>rd wr. cl_connections d = ys @ shut_connection rd wr cn # zs"
    "cl_next_id d = cl_next_id c" "\<not> cl_bad d" "cl_stopping d = cl_stopping c"
    "of_bool (cl_write d \<noteq> None) + of_bool (cl_shutdown d \<noteq> None) + of_bool (r = UV_OK \<and> rq_done (cl_request d))
      = (of_bool (r = UV_OK) :: nat)"
proof -
  have n: "cn = shut_connection False False cn" by (simp add: shut_connection_def)
  show "\<exists>rd wr. cl_connections d = ys @ shut_connection rd wr cn # zs"
  proof (cases "rq_read (cl_request c) \<and> \<not> cn_read_closed cn \<and> ce_shutdown_read env \<noteq> UV_OK")
    case True
    then have "d = c" using run f by (simp add: start_shutdown_def Let_def)
    then show ?thesis using sp(3) n by metis
  next
    case False
    then have "cl_connections d = ys @ shut_connection (rq_read (cl_request c) \<and> \<not> cn_read_closed cn)
        (rq_write (cl_request c) \<and> \<not> cn_write_closed cn) cn # zs"
      using run f sp
      by (auto simp: start_shutdown_def Let_def upd_connections [OF sp(1,2)] shut_connection_def
          complete_def upd_request_def upd_connection_at
          split: if_splits)
    then show ?thesis by blast
  qed
  show "cl_next_id d = cl_next_id c" "\<not> cl_bad d" "cl_stopping d = cl_stopping c"
    "of_bool (cl_write d \<noteq> None) + of_bool (cl_shutdown d \<noteq> None) + of_bool (r = UV_OK \<and> rq_done (cl_request d))
      = (of_bool (r = UV_OK) :: nat)"
    using run f bad idle
    by (auto simp: start_shutdown_def Let_def complete_def upd_request_def upd_connection_def split: if_splits)
qed

lemma shutdown_keeps:
  assumes ok: "client_ok c" and idle: "\<not> cl_waiting c" "\<not> cl_stopping c" and req: "\<not> rq_done req"
    and run: "start_shutdown env (c\<lparr>cl_request := req, cl_waiting := True\<rparr>) = (r, d)"
  shows "client_ok (d\<lparr>cl_waiting := (r = UV_OK)\<rparr>)"
proof (cases "find_connection (rq_id req) c")
  case None
  then show ?thesis
    using run ok idle_completers [OF ok idle(1)]
    by (intro calling_keeps [OF ok idle]) (auto simp: start_shutdown_def Let_def idle client_ok_def)
next
  case (Some cn)
  let ?c = "c\<lparr>cl_request := req, cl_waiting := True\<rparr>"
  from Some obtain ys zs where sp: "cl_connections c = ys @ cn # zs" "cn_id cn = rq_id req"
    "around (rq_id req) ys zs" by (rule find_connection_split [OF ok])
  have bad: "\<not> cl_bad c" using ok by (simp add: client_ok_def)
  have cn: "\<not> cn_connecting cn" using idle_conn(2) [OF ok idle(1), of cn] sp(1) by simp
  note res = start_shutdown_result [of ?c cn ys zs env r d, simplified, OF Some bad req
      idle_completers(2,3) [OF ok idle(1)] sp(3,2,1) run]
  from res(1) obtain rd wr where "cl_connections d = ys @ shut_connection rd wr cn # zs" by blast
  then show ?thesis
    using res(2-) idle
    by (intro calling_replace [OF ok idle sp(1) shut_connection_ok [OF conn_in_ok [OF ok sp(1)] cn, of rd wr]])
      (simp_all add: shut_connection_sel)
qed

lemma call_keeps:
  assumes ok: "client_ok c" and idle: "\<not> cl_waiting c" "\<not> cl_stopping c" and req: "request_valid cmd req"
  shows "client_ok (snd (client_call env cmd req c))"
proof -
  have w: "c\<lparr>cl_waiting := False\<rparr> = c" using idle(1) by simp
  have d: "\<not> rq_done req" "cmd = Cmd_receive \<Longrightarrow> 0 < rq_size req" using req by (auto simp: request_valid_def)
  obtain r d where run: "run_command env cmd (c\<lparr>cl_request := req, cl_waiting := True\<rparr>) = (r, d)"
    by fastforce
  have "client_ok (d\<lparr>cl_waiting := (r = UV_OK \<and> waits cmd)\<rparr>)"
    using run connect_keeps [OF ok idle d(1)] close_keeps [OF ok idle d(1)] send_keeps [OF ok idle d(1)]
      shutdown_keeps [OF ok idle d(1)] ready_keeps [OF ok idle] receive_keeps [OF ok idle d(2)]
    by (cases cmd) (simp_all add: waits_def)
  then show ?thesis
    using run ok w
    by (auto simp: client_call_def submit_request_def skyuv_client_runtime_call_def)
qed

section \<open>Callbacks keep the invariant\<close>

lemma store_received_sel:
  "cn_id (store_received bs cn) = cn_id cn" "cn_request (store_received bs cn) = cn_request cn"
  "cn_tcp (store_received bs cn) = cn_tcp cn"
  by (simp_all add: store_received_def Let_def)

lemma store_received_ok:
  assumes "conn_ok lid cn" "buffer_ok cn" "cn_reading cn" "length bs \<le> allocate_read cn"
  shows "conn_ok lid (store_received bs cn)" "buffer_ok (store_received bs cn)"
proof -
  have nc: "\<not> cn_connecting cn" using assms(1,3) by (auto simp: conn_ok_def)
  then show "conn_ok lid (store_received bs cn)"
    using assms(1) by (simp add: conn_ok_def store_received_def Let_def)
  have "length (cn_received cn) + length bs \<le> CLIENT_RECEIVE_LIMIT"
    using assms(2-4) by (auto simp: buffer_ok_def allocate_read_def)
  then show "buffer_ok (store_received bs cn)"
    using assms(2,3) nc by (auto simp: buffer_ok_def store_received_def Let_def)
qed

lemma received_keeps:
  assumes ok: "client_ok c" and sp: "cl_connections c = ys @ cn # zs" "cn_id cn = i" "around i ys zs"
    and rd: "cn_reading cn" "received_ok r cn"
  shows "client_ok (received i r c)"
proof (cases r)
  case (Inl status)
  let ?cn = "cn\<lparr>cn_read_status := status, cn_reading := False\<rparr>"
  have "\<not> cn_connecting cn" using conn_in_ok(1) [OF ok sp(1)] rd(1) by (auto simp: conn_ok_def)
  then have "conn_ok (cl_next_id c) ?cn" "buffer_ok ?cn"
    using conn_in_ok [OF ok sp(1)] rd(2) Inl by (simp_all add: conn_ok_def buffer_ok_def)
  then show ?thesis
    using ok by (intro client_ok_replace [OF ok sp(1), of ?cn])
      (simp_all add: Inl received_def notify_def upd_connections [OF sp(3,2,1)] client_ok_def)
next
  case (Inr bs)
  show ?thesis
  proof (cases "bs = []")
    case True
    then show ?thesis using Inr ok by (simp add: received_def)
  next
    case False
    then show ?thesis
      using ok rd(2) Inr store_received_ok [OF conn_in_ok [OF ok sp(1)] rd(1), of bs]
      by (intro client_ok_replace [OF ok sp(1), of "store_received bs cn"])
        (simp_all add: received_def notify_def upd_connections [OF sp(3,2,1)] store_received_sel client_ok_def)
  qed
qed

lemma timeout_keeps:
  assumes ok: "client_ok c" and sp: "cl_connections c = ys @ cn # zs" "cn_id cn = i" "around i ys zs"
    and t: "cn_timer cn = Handle_open"
  shows "client_ok (connection_timeout i c)"
proof -
  let ?cn = "close_connection (cn\<lparr>cn_timed_out := True\<rparr>)"
  have bad: "\<not> cl_bad c" using ok by (simp add: client_ok_def)
  have cn: "conn_ok (cl_next_id c) cn" "buffer_ok cn" using conn_in_ok [OF ok sp(1)] by auto
  then have q: "cn_request cn" "cn_connecting cn" "cn_tcp cn = Handle_open" using t by (auto simp: conn_ok_def)
  note idle = others_idle [OF ok sp(1) q(1)]
  have "conn_ok (cl_next_id c) ?cn" "buffer_ok ?cn"
    using cn t q by (simp_all add: conn_ok_def buffer_ok_def close_connection_def)
  moreover have "connection_timeout i c
      = c\<lparr>cl_connections := ys @ ?cn # zs, cl_request := (cl_request c)\<lparr>rq_result := UV_ETIMEDOUT\<rparr>\<rparr>"
    using q(1) idle(5) sp(2) bad
    by (simp add: connection_timeout_def upd_connections [OF sp(3,2,1)] set_result_at [OF sp(3)]
        upd_connection_swap upd_connection_at [OF sp(3)])
  ultimately show ?thesis
    using ok by (intro client_ok_replace [OF ok sp(1), of ?cn]) (simp_all add: close_connection_sel client_ok_def)
qed

lemma conn_ok_next: "conn_ok lid cn \<Longrightarrow> \<not> cn_request cn \<Longrightarrow> conn_ok (lid + 1) cn"
  by (auto simp: conn_ok_def)

text \<open>What a callback of the connect request does to the list.\<close>

definition stop_timer :: "connection \<Rightarrow> connection" where
  "stop_timer cn = cn\<lparr>cn_timer := if cn_timer_initialized cn \<and> cn_timer cn = Handle_open then Handle_closing
                       else cn_timer cn\<rparr>"

lemma connected_result:
  assumes ok: "client_ok c" and sp: "cl_connections c = ys @ cn # zs" "cn_id cn = i" "around i ys zs"
    and q: "cn_request cn" and st: "result = (if status = UV_OK then ce_read_start env else status)"
  shows "connected env i status (upd_connection i (\<lambda>cn. cn\<lparr>cn_connecting := False\<rparr>) c) =
    (let cn1 = cn\<lparr>cn_connecting := False\<rparr>
     in if cn_timed_out cn then c\<lparr>cl_connections := ys @ cn1 # zs\<rparr>
        else if result \<noteq> UV_OK
        then c\<lparr>cl_connections := ys @ close_connection (stop_timer cn1) # zs,
               cl_request := (cl_request c)\<lparr>rq_result := result\<rparr>\<rparr>
        else c\<lparr>cl_connections := ys @ (stop_timer cn1)\<lparr>cn_request := False, cn_reading := True\<rparr> # zs,
               cl_request := (cl_request c)\<lparr>rq_id := i, rq_result := UV_OK, rq_done := True\<rparr>,
               cl_next_id := i\<rparr>)"
proof -
  note idle = others_idle [OF ok sp(1) q]
  have bad: "\<not> cl_bad c" using ok by (simp add: client_ok_def)
  have f: "find_connection i (c\<lparr>cl_connections := ys @ x # zs\<rparr>) = Some x" if "cn_id x = i" for x
    using find_around [OF sp(3) that] by simp
  show ?thesis
    using bad idle(5,6) q sp(2)
    by (simp add: connected_def Let_def upd_connections [OF sp(3,2,1)] f upd_connection_at [OF sp(3)] st
        set_result_at [OF sp(3)] upd_connection_swap complete_def upd_request_def stop_timer_def)
qed

lemma connected_conn_ok:
  assumes cn: "conn_ok lid cn" "buffer_ok cn" and cc: "cn_connecting cn"
  defines "x \<equiv> cn\<lparr>cn_connecting := False\<rparr>"
  shows "cn_timed_out cn \<Longrightarrow> conn_ok lid x" "cn_timed_out cn \<Longrightarrow> buffer_ok x"
    and "\<not> cn_timed_out cn \<Longrightarrow> conn_ok lid (close_connection (stop_timer x))"
    and "\<not> cn_timed_out cn \<Longrightarrow> buffer_ok (close_connection (stop_timer x))"
    and "\<not> cn_timed_out cn \<Longrightarrow> conn_ok (lid + 1) ((stop_timer x)\<lparr>cn_request := False, cn_reading := True\<rparr>)"
    and "\<not> cn_timed_out cn \<Longrightarrow> \<not> cn_paused cn
      \<Longrightarrow> buffer_ok ((stop_timer x)\<lparr>cn_request := False, cn_reading := True\<rparr>)"
proof -
  have q: "cn_request cn" "cn_timed_out cn \<longleftrightarrow> cn_tcp cn \<noteq> Handle_open" "cn_received cn = []"
    "cn_read_status cn = UV_OK" using cn cc by (auto simp: conn_ok_def)
  show "conn_ok lid x" "buffer_ok x" if "cn_timed_out cn"
    using that cn q by (cases "cn_timer cn"; simp add: x_def conn_ok_def buffer_ok_def)+
  show "conn_ok lid (close_connection (stop_timer x))" "buffer_ok (close_connection (stop_timer x))"
    if "\<not> cn_timed_out cn"
    using that cn q
    by (cases "cn_timer cn"; simp add: x_def conn_ok_def buffer_ok_def close_connection_def stop_timer_def)+
  show "conn_ok (lid + 1) ((stop_timer x)\<lparr>cn_request := False, cn_reading := True\<rparr>)"
    if "\<not> cn_timed_out cn"
    using that cn q cc by (cases "cn_timer cn"; simp add: x_def conn_ok_def stop_timer_def)
  show "buffer_ok ((stop_timer x)\<lparr>cn_request := False, cn_reading := True\<rparr>)"
    if "\<not> cn_timed_out cn" "\<not> cn_paused cn"
    using that cn q by (simp add: x_def buffer_ok_def stop_timer_def CLIENT_RECEIVE_LIMIT_def)
qed

lemma connected_keeps:
  assumes ok: "client_ok c" and sp: "cl_connections c = ys @ cn # zs" "cn_id cn = i" "around i ys zs"
    and cc: "cn_connecting cn" and st: "cn_tcp cn = Handle_open \<or> status \<noteq> UV_OK"
  shows "client_ok (connected env i status (upd_connection i (\<lambda>cn. cn\<lparr>cn_connecting := False\<rparr>) c))"
proof -
  let ?r = "if status = UV_OK then ce_read_start env else status"
  let ?cn = "cn\<lparr>cn_connecting := False\<rparr>"
  let ?on = "(stop_timer ?cn)\<lparr>cn_request := False, cn_reading := True\<rparr>"
  have cn: "conn_ok (cl_next_id c) cn" "buffer_ok cn" using conn_in_ok [OF ok sp(1)] by auto
  then have q: "cn_request cn" "cn_id cn = cl_next_id c + 1" "cn_timed_out cn \<longleftrightarrow> cn_tcp cn \<noteq> Handle_open"
    "cn_received cn = []" "cn_id cn \<le> INT64_MAX"
    using cc by (auto simp: conn_ok_def)
  have bad: "\<not> cl_bad c" using ok by (simp add: client_ok_def)
  note idle = others_idle [OF ok sp(1) q(1)]
  note res = connected_result [OF ok sp q(1), of ?r status env, OF refl, unfolded Let_def]
  consider "cn_timed_out cn" | "\<not> cn_timed_out cn" "?r \<noteq> UV_OK" | "\<not> cn_timed_out cn" "?r = UV_OK" by blast
  then show ?thesis
  proof cases
    case 1
    note k = connected_conn_ok(1,2) [OF cn cc 1]
    show ?thesis
      using 1 bad k unfolding res by (intro client_ok_replace [OF ok sp(1), of ?cn]) simp_all
  next
    case 2
    let ?x = "close_connection (stop_timer ?cn)"
    note k = connected_conn_ok(3,4) [OF cn cc 2(1)]
    show ?thesis
      using 2 bad k unfolding res
      by (intro client_ok_replace [OF ok sp(1), of ?x]) (simp_all add: close_connection_sel stop_timer_def)
  next
    case 3
    have "\<not> cn_paused cn" using cn(2) cc by (simp add: buffer_ok_def)
    then have "conn_ok (cl_next_id c + 1) ?on" "buffer_ok ?on" using connected_conn_ok(5,6) [OF cn cc 3(1)] by simp_all
    moreover have "list_all (conn_ok (cl_next_id c + 1)) ys" "list_all (conn_ok (cl_next_id c + 1)) zs"
      using ok sp(1) idle(1,2) conn_ok_next by (auto simp: client_ok_def list_all_iff filter_empty_conv)
    ultimately show ?thesis
      using 3 ok idle q sp(1,2) unfolding res
      by (simp add: client_ok_def completers_def stop_timer_def)
  qed
qed

text \<open>A close callback, for the handle that \<open>f\<close> marks as closed.\<close>

lemma closed_result:
  assumes ok: "client_ok c" and sp: "cl_connections c = ys @ cn # zs" "cn_id cn = i" "around i ys zs"
    and f: "cn_id (f cn) = i" "cn_request (f cn) = cn_request cn" "cn_handles (f cn) = cn_handles cn"
  shows "connection_closed i (upd_connection i f c) =
    (if cn_handles cn - 1 \<noteq> 0
     then c\<lparr>cl_connections := ys @ (f cn)\<lparr>cn_handles := cn_handles cn - 1\<rparr> # zs\<rparr>
     else if cn_request cn
     then c\<lparr>cl_connections := ys @ zs, cl_request := (cl_request c)\<lparr>rq_done := True\<rparr>\<rparr>
     else c\<lparr>cl_connections := ys @ zs\<rparr>)"
proof -
  have bad: "\<not> cl_bad c" using ok by (simp add: client_ok_def)
  have fd: "find_connection i (c\<lparr>cl_connections := ys @ f cn # zs\<rparr>) = Some (f cn)"
    using find_around [OF sp(3) f(1)] by simp
  have rm: "filter (\<lambda>cn. cn_id cn \<noteq> i) ys = ys" "filter (\<lambda>cn. cn_id cn \<noteq> i) zs = zs"
    using sp(3) by (simp_all add: around_def filter_other)
  show ?thesis
  proof (cases "cn_request cn")
    case True
    then show ?thesis
      using bad f others_idle(5,6) [OF ok sp(1) True]
      by (simp add: connection_closed_def Let_def upd_connections [OF sp(3,2,1)] fd upd_connection_at [OF sp(3)]
          rm complete_def upd_request_def)
  next
    case False
    then show ?thesis
      using f
      by (simp add: connection_closed_def Let_def upd_connections [OF sp(3,2,1)] fd upd_connection_at [OF sp(3)] rm)
  qed
qed

lemma closed_keeps:
  assumes ok: "client_ok c" and sp: "cl_connections c = ys @ cn # zs" "cn_id cn = i" "around i ys zs"
    and f: "cn_id (f cn) = i" "cn_request (f cn) = cn_request cn" "cn_handles (f cn) = cn_handles cn"
    and k: "1 < cn_handles cn \<Longrightarrow> conn_ok (cl_next_id c) ((f cn)\<lparr>cn_handles := cn_handles cn - 1\<rparr>)
      \<and> buffer_ok ((f cn)\<lparr>cn_handles := cn_handles cn - 1\<rparr>)"
    and t: "cn_tcp (f cn) = Handle_open \<Longrightarrow> cn_tcp cn = Handle_open"
  shows "client_ok (connection_closed i (upd_connection i f c))"
proof -
  have bad: "\<not> cl_bad c" using ok by (simp add: client_ok_def)
  note res = closed_result [where f = f, OF ok sp f]
  show ?thesis
  proof (cases "cn_handles cn - 1 \<noteq> 0")
    case True
    then have "1 < cn_handles cn" by simp
    then show ?thesis
      using True bad k t f sp(2) unfolding res
      by (intro client_ok_replace [OF ok sp(1), of "(f cn)\<lparr>cn_handles := cn_handles cn - 1\<rparr>"]) simp_all
  next
    case False
    then show ?thesis
      using bad unfolding res by (intro client_ok_remove [OF ok sp(1,3,2)]) simp_all
  qed
qed

lemma tcp_closed_keeps:
  assumes ok: "client_ok c" and sp: "cl_connections c = ys @ cn # zs" "cn_id cn = i" "around i ys zs"
    and h: "cn_tcp cn = Handle_closing" "\<not> cn_connecting cn"
  shows "client_ok (connection_closed i (upd_connection i (\<lambda>cn. cn\<lparr>cn_tcp := Handle_closed\<rparr>) c))"
  using conn_in_ok [OF ok sp(1)] h sp(2)
  by (intro closed_keeps [OF ok sp]) (simp_all add: conn_ok_def buffer_ok_def)

lemma conn_ok_timer_closed:
  assumes "conn_ok lid cn" "cn_timer cn = Handle_closing"
  shows "1 < cn_handles cn \<Longrightarrow> conn_ok lid (cn\<lparr>cn_timer := Handle_closed, cn_handles := cn_handles cn - 1\<rparr>)"
  using assms by (cases "cn_tcp cn"; cases "cn_connecting cn"; clarsimp simp: conn_ok_def)

lemma timer_closed_keeps:
  assumes ok: "client_ok c" and sp: "cl_connections c = ys @ cn # zs" "cn_id cn = i" "around i ys zs"
    and h: "cn_timer cn = Handle_closing"
  shows "client_ok (connection_closed i (upd_connection i (\<lambda>cn. cn\<lparr>cn_timer := Handle_closed\<rparr>) c))"
proof -
  have "buffer_ok (cn\<lparr>cn_timer := Handle_closed, cn_handles := cn_handles cn - 1\<rparr>)"
    using conn_in_ok(2) [OF ok sp(1)] by (simp add: buffer_ok_def)
  then show ?thesis
    using sp(2) conn_ok_timer_closed [OF conn_in_ok(1) [OF ok sp(1)] h] by (intro closed_keeps [OF ok sp]) simp_all
qed

lemma done_keeps:
  assumes ok: "client_ok c" and d: "d = complete status c'" "c' = c\<lparr>cl_write := w, cl_shutdown := h\<rparr>"
    and one: "of_bool (cl_write c \<noteq> None) + of_bool (cl_shutdown c \<noteq> None)
      = Suc (of_bool (w \<noteq> None) + of_bool (h \<noteq> None))"
  shows "client_ok d"
proof -
  have "completers c = Suc (completers c')" using one by (simp add: completers_def d)
  moreover have "completers c + of_bool (cl_waiting c \<and> rq_done (cl_request c)) = of_bool (cl_waiting c)"
    using ok by (simp add: client_ok_def)
  ultimately have w: "cl_waiting c" "\<not> rq_done (cl_request c)" "completers c' = 0"
    by (cases "cl_waiting c"; simp)+
  have "completers d = completers c'" by (simp add: d complete_def upd_request_def completers_def)
  moreover have "\<not> cl_bad c" "\<not> cl_stopping c" using ok w(1) by (auto simp: client_ok_def)
  then have "\<not> cl_bad d" "cl_stopping d = cl_stopping c" "\<not> cl_stopping c" "cl_waiting d" "rq_done (cl_request d)"
    "cl_connections d = cl_connections c" "cl_next_id d = cl_next_id c"
    using w by (simp_all add: d complete_def upd_request_def)
  ultimately show ?thesis using w(3) by (intro client_ok_frame [OF ok]) simp_all
qed

lemma stop_keeps:
  assumes ok: "client_ok c" and idle: "\<not> cl_waiting c"
  shows "client_ok (execute_stop c)"
proof -
  have "conn_ok (cl_next_id c) (close_connection cn)" "buffer_ok (close_connection cn)" "\<not> cn_request cn"
    if "cn \<in> set (cl_connections c)" for cn
    using that idle_conn(1,2) [OF ok idle that] conn_ok_close buffer_ok_close ok
    by (auto simp: client_ok_def list_all_iff)
  then show ?thesis
    using ok idle_completers [OF ok idle] idle
    by (auto simp: client_ok_def execute_stop_def list_all_iff completers_def comp_def close_connection_sel
        filter_empty_conv)
qed

lemma client_do_keeps:
  assumes ok: "client_ok c" and step: "client_do env ev c = Some c'"
  shows "client_ok c'"
proof (cases ev)
  case (Ev_call cmd req)
  then show ?thesis using step call_keeps [OF ok] by (auto split: if_splits)
next
  case Ev_return
  then show ?thesis using step ok
    by (auto intro!: client_ok_frame [OF ok] simp: client_ok_def completers_def split: if_splits)
next
  case Ev_stop
  then show ?thesis using step stop_keeps [OF ok] by (auto split: if_splits)
next
  case (Ev_connected i status)
  then show ?thesis using step connected_keeps [OF ok]
    by (auto elim!: when_connectionE [OF _ ok])
next
  case (Ev_received i r)
  then show ?thesis using step received_keeps [OF ok]
    by (auto elim!: when_connectionE [OF _ ok])
next
  case (Ev_timeout i)
  then show ?thesis using step timeout_keeps [OF ok]
    by (auto elim!: when_connectionE [OF _ ok])
next
  case (Ev_tcp_closed i)
  then show ?thesis using step tcp_closed_keeps [OF ok]
    by (auto elim!: when_connectionE [OF _ ok])
next
  case (Ev_timer_closed i)
  then show ?thesis using step timer_closed_keeps [OF ok]
    by (auto elim!: when_connectionE [OF _ ok])
next
  case (Ev_written status)
  then show ?thesis using step
    by (auto intro!: done_keeps [OF ok, where status = status and w = None and h = "cl_shutdown c"] simp: written_def split: if_splits)
next
  case (Ev_shutdown status)
  then show ?thesis using step
    by (auto intro!: done_keeps [OF ok, where status = status and w = "cl_write c" and h = None] simp: shutdown_done_def split: if_splits)
qed

lemma reachable_client_ok: "client_reachable c \<Longrightarrow> client_ok c"
  by (induction rule: client_reachable.induct) (auto simp: client_ok_start client_do_keeps)

lemma client_okD:
  assumes "client_ok c"
  shows "\<not> cl_bad c" "distinct (map cn_id (cl_connections c))" "0 \<le> cl_next_id c" "cl_next_id c \<le> INT64_MAX"
    "completers c + of_bool (cl_waiting c \<and> rq_done (cl_request c)) = of_bool (cl_waiting c)"
    "cn \<in> set (cl_connections c) \<Longrightarrow> conn_ok (cl_next_id c) cn"
    "cn \<in> set (cl_connections c) \<Longrightarrow> buffer_ok cn"
    "cl_stopping c \<Longrightarrow> \<not> cl_waiting c"
    "cl_stopping c \<Longrightarrow> cn \<in> set (cl_connections c) \<Longrightarrow> cn_tcp cn \<noteq> Handle_open"
  using assms unfolding client_ok_def list_all_iff by blast+

lemma conn_okD:
  assumes "conn_ok lid cn"
  shows "0 < cn_id cn" "cn_id cn \<le> INT64_MAX"
    "cn_handles cn = of_bool (cn_tcp cn \<noteq> Handle_closed) + of_bool (cn_timer cn \<noteq> Handle_closed)"
    "cn_tcp cn = Handle_closed \<Longrightarrow> cn_timer cn \<noteq> Handle_closed"
    "cn_timer cn = Handle_open \<Longrightarrow> cn_connecting cn"
    "cn_connecting cn \<Longrightarrow> cn_request cn" "cn_connecting cn \<Longrightarrow> cn_id cn = lid + 1"
    "cn_tcp cn = Handle_open \<Longrightarrow> cn_request cn \<Longrightarrow> cn_connecting cn"
  using assms unfolding conn_ok_def by blast+

end
