(* ===== verification/Client_Properties.thy ===== *)
theory Client_Properties
  imports Client_Safety "HOL-Library.Code_Target_Nat"
begin

text \<open>
  What the client's network runtime promises its callers, from the invariant of its reachable
  states and from the definitions of single operations.
\<close>

section \<open>Runs of concrete events\<close>

fun client_run_events :: "(client_env \<times> client_event) list \<Rightarrow> client \<Rightarrow> client option" where
  "client_run_events [] c = Some c"
| "client_run_events ((env, ev) # es) c =
     (case client_do env ev c of None \<Rightarrow> None | Some c' \<Rightarrow> client_run_events es c')"

lemma run_events_reachable:
  "client_reachable c \<Longrightarrow> client_run_events es c = Some c' \<Longrightarrow> client_reachable c'"
  by (induction es c rule: client_run_events.induct)
    (auto split: option.splits intro: client_reachable.client_event)

definition env_ok :: client_env where
  "env_ok = \<lparr>ce_mutex_init = UV_OK, ce_cond_init = UV_OK, ce_async_send = UV_OK, ce_alloc = True,
     ce_tcp_init = UV_OK, ce_timer_init = UV_OK, ce_timer_start = UV_OK, ce_tcp_connect = UV_OK,
     ce_read_start = UV_OK, ce_write = UV_OK, ce_shutdown = UV_OK, ce_shutdown_read = UV_OK\<rparr>"

definition ex_state :: "client_event list \<Rightarrow> client" where
  "ex_state evs = the (client_run_events (map (Pair env_ok) evs) client0)"

definition ex_possible :: "client_event list \<Rightarrow> bool" where
  "ex_possible evs \<longleftrightarrow> client_run_events (map (Pair env_ok) evs) client0 \<noteq> None"

lemma ex_state_reachable: "ex_possible evs \<Longrightarrow> client_reachable (ex_state evs)"
  using run_events_reachable [OF client_start] by (auto simp: ex_possible_def ex_state_def)

definition ex_connecting :: "client_event list" where
  "ex_connecting = [Ev_call Cmd_connect (request0\<lparr>rq_timeout_ms := 100\<rparr>)]"

definition ex_online :: "client_event list" where
  "ex_online = ex_connecting @ [Ev_connected 1 UV_OK, Ev_return, Ev_timer_closed 1]"

section \<open>Requests\<close>

text \<open>
  C13. Requests live on the caller's stack, and no callback touches one too late: in every
  reachable state no request was completed twice, completed after its caller had returned, or
  accessed through a NULL pointer. When no call is running, no connection points to a request
  and libuv holds no write or shutdown request; while one is running there is exactly one thing
  that completes it or it is complete. The ids of the connections are distinct and
  positive.
\<close>

theorem client_requests_safe:
  assumes "client_reachable c"
  shows "\<not> cl_bad c
    \<and> completers c + of_bool (cl_waiting c \<and> rq_done (cl_request c)) = of_bool (cl_waiting c)
    \<and> distinct (map cn_id (cl_connections c)) \<and> (\<forall>cn \<in> set (cl_connections c). 0 < cn_id cn)"
  using client_okD(1,2,5,6) [OF reachable_client_ok [OF assms]] conn_okD(1) by blast

theorem client_requests_safe_witness:
  "\<not> cl_bad (ex_state ex_online) \<and> map cn_id (cl_connections (ex_state ex_online)) = [1]
    \<and> cl_next_id (ex_state ex_online) = 1"
proof -
  have r: "client_reachable (ex_state ex_online)" by (rule ex_state_reachable) code_simp
  have "map cn_id (cl_connections (ex_state ex_online)) = [1] \<and> cl_next_id (ex_state ex_online) = 1" by code_simp
  then show ?thesis using client_requests_safe [OF r] by simp
qed

section \<open>A waiting caller\<close>

text \<open>
  What is outstanding for the request of a waiting caller determines the callback that comes next.
\<close>

definition awaited :: "client \<Rightarrow> client_event" where
  "awaited c =
     (case filter cn_request (cl_connections c) of
        cn # _ \<Rightarrow>
          if cn_connecting cn then Ev_connected (cn_id cn) UV_ECANCELED
          else if cn_tcp cn = Handle_closing then Ev_tcp_closed (cn_id cn)
          else Ev_timer_closed (cn_id cn)
      | [] \<Rightarrow> if cl_write c \<noteq> None then Ev_written UV_OK else Ev_shutdown UV_OK)"

text \<open>
  What remains until the request is complete: the connect request and the handles of its
  connection.
\<close>

definition remaining :: "client \<Rightarrow> nat" where
  "remaining c =
     sum_list (map (\<lambda>cn. of_bool (cn_connecting cn) + cn_handles cn) (filter cn_request (cl_connections c)))"

lemma find_in_set:
  assumes "client_ok c" "cn \<in> set (cl_connections c)"
  obtains ys zs where "cl_connections c = ys @ cn # zs" "around (cn_id cn) ys zs"
    "find_connection (cn_id cn) c = Some cn"
proof -
  obtain ys zs where sp: "cl_connections c = ys @ cn # zs" using split_list [OF assms(2)] by blast
  have "distinct (map cn_id (ys @ cn # zs))" using client_okD(2) [OF assms(1)] sp by simp
  then have "around (cn_id cn) ys zs" by (auto simp: around_def image_iff)
  then show thesis using that sp find_around [OF _ refl sp] by blast
qed

lemma filter_Cons_in: "filter P xs = x # r \<Longrightarrow> x \<in> set xs \<and> P x"
  by (induction xs) (auto split: if_splits)

lemma waiting_cases:
  assumes ok: "client_ok c" and w: "cl_waiting c" "\<not> rq_done (cl_request c)"
  obtains (conn) cn ys zs where "cl_connections c = ys @ cn # zs" "cn_request cn" "around (cn_id cn) ys zs"
      "filter cn_request (cl_connections c) = [cn]" "find_connection (cn_id cn) c = Some cn"
    | (writing) "filter cn_request (cl_connections c) = []" "cl_write c \<noteq> None"
    | (shutting) "filter cn_request (cl_connections c) = []" "cl_write c = None" "cl_shutdown c \<noteq> None"
proof (cases "filter cn_request (cl_connections c)")
  case Nil
  then have "cl_write c \<noteq> None \<or> cl_shutdown c \<noteq> None"
    using client_okD(5) [OF ok] w by (cases "cl_write c"; cases "cl_shutdown c") (simp_all add: completers_def)
  then show ?thesis using Nil that(2,3) by blast
next
  case (Cons cn rest)
  then have cn: "cn \<in> set (cl_connections c)" "cn_request cn" using filter_Cons_in by fast+
  obtain ys zs where sp: "cl_connections c = ys @ cn # zs" "around (cn_id cn) ys zs"
    "find_connection (cn_id cn) c = Some cn" by (rule find_in_set [OF ok cn(1)])
  have "filter cn_request (cl_connections c) = [cn]"
    using others_idle(1,2) [OF ok sp(1) cn(2)] cn(2) sp(1) by simp
  then show ?thesis using that(1) sp cn(2) by blast
qed

lemma awaited_possible:
  assumes ok: "client_ok c" and w: "cl_waiting c" "\<not> rq_done (cl_request c)"
  shows "\<exists>c'. client_do env (awaited c) c = Some c'"
  using ok w
proof (cases rule: waiting_cases)
  case (conn cn ys zs)
  have cn: "conn_ok (cl_next_id c) cn" using conn_in_ok(1) [OF ok conn(1)] .
  note idle = others_idle [OF ok conn(1,2)]
  have "cn_tcp cn = Handle_closing \<or> cn_timer cn = Handle_closing" if "\<not> cn_connecting cn"
    using conn_okD(4,5,8) [OF cn] conn(2) that by (cases "cn_tcp cn"; cases "cn_timer cn") auto
  then show ?thesis
    using conn(4,5) idle(3,4) by (auto simp: awaited_def when_connection_def)
next
  case writing
  then show ?thesis by (auto simp: awaited_def)
next
  case shutting
  then show ?thesis by (auto simp: awaited_def)
qed

lemma awaited_decreases:
  assumes ok: "client_ok c" and w: "cl_waiting c" "\<not> rq_done (cl_request c)"
    and step: "client_do env (awaited c) c = Some c'"
  shows "cl_waiting c' \<and> (rq_done (cl_request c') \<or> remaining c' < remaining c)"
  using ok w
proof (cases rule: waiting_cases)
  case (conn cn ys zs)
  have cn: "conn_ok (cl_next_id c) cn" using conn_in_ok(1) [OF ok conn(1)] .
  note idle = others_idle [OF ok conn(1,2)]
  have rem: "remaining c = of_bool (cn_connecting cn) + cn_handles cn" by (simp add: remaining_def conn(4))
  have pos: "0 < cn_handles cn" using conn_okD(3,4) [OF cn] by (cases "cn_tcp cn") auto
  show ?thesis
  proof (cases "cn_connecting cn")
    case True
    let ?cn = "cn\<lparr>cn_connecting := False\<rparr>"
    have "c' = connected env (cn_id cn) UV_ECANCELED (upd_connection (cn_id cn) (\<lambda>cn. cn\<lparr>cn_connecting := False\<rparr>) c)"
      using step conn(4,5) True by (simp add: awaited_def when_connection_def)
    then have c': "c' = (if cn_timed_out cn then c\<lparr>cl_connections := ys @ ?cn # zs\<rparr>
        else c\<lparr>cl_connections := ys @ close_connection (stop_timer ?cn) # zs,
               cl_request := (cl_request c)\<lparr>rq_result := UV_ECANCELED\<rparr>\<rparr>)"
      using connected_result [OF ok conn(1) refl conn(3,2), of UV_ECANCELED UV_ECANCELED env]
      by (simp add: Let_def)
    show ?thesis
      using True idle(1,2) conn(2) w(1) unfolding rem
      by (simp add: c' remaining_def close_connection_def stop_timer_def)
  next
    case False
    then obtain f where c': "c' = connection_closed (cn_id cn) (upd_connection (cn_id cn) f c)"
      and f: "f = (\<lambda>cn. cn\<lparr>cn_tcp := Handle_closed\<rparr>) \<or> f = (\<lambda>cn. cn\<lparr>cn_timer := Handle_closed\<rparr>)"
      using step conn(4,5) by (auto simp: awaited_def when_connection_def split: if_splits)
    have f': "cn_id (f cn) = cn_id cn" "cn_request (f cn) = cn_request cn" "cn_handles (f cn) = cn_handles cn"
      "cn_connecting (f cn) = cn_connecting cn" using f by auto
    show ?thesis
      using False conn(2) idle(1,2) w(1) pos f'
      unfolding rem c' closed_result [where f = f, OF ok conn(1) refl conn(3) f'(1-3)]
      by (simp add: remaining_def)
  qed
next
  case writing
  then show ?thesis using step w by (auto simp: awaited_def written_def complete_def upd_request_def)
next
  case shutting
  then show ?thesis using step w by (auto simp: awaited_def shutdown_done_def complete_def upd_request_def)
qed

text \<open>Only the awaited callbacks, until the request is complete.\<close>

fun answer :: "nat \<Rightarrow> client_env \<Rightarrow> client \<Rightarrow> client option" where
  "answer n env c =
     (if rq_done (cl_request c) then Some c
      else case n of
             0 \<Rightarrow> None
           | Suc n' \<Rightarrow> (case client_do env (awaited c) c of Some c' \<Rightarrow> answer n' env c' | None \<Rightarrow> None))"

declare answer.simps [simp del]

lemma answer_completes:
  assumes "client_reachable c" "cl_waiting c" "remaining c < n"
  shows "\<exists>c'. answer n env c = Some c' \<and> client_reachable c' \<and> cl_waiting c' \<and> rq_done (cl_request c')"
  using assms
proof (induction n arbitrary: c)
  case 0
  then show ?case by simp
next
  case (Suc n)
  show ?case
  proof (cases "rq_done (cl_request c)")
    case True
    then show ?thesis using Suc.prems by (simp add: answer.simps)
  next
    case False
    have ok: "client_ok c" by (rule reachable_client_ok) (rule Suc.prems)
    obtain c' where c': "client_do env (awaited c) c = Some c'"
      using awaited_possible [OF ok Suc.prems(2) False] by blast
    have r: "client_reachable c'" using Suc.prems(1) c' by (rule client_reachable.client_event)
    have d: "cl_waiting c'" "rq_done (cl_request c') \<or> remaining c' < n"
      using awaited_decreases [OF ok Suc.prems(2) False c'] Suc.prems(3) by auto
    have "answer (Suc n) env c = answer n env c'" using False c' by (simp add: answer.simps [of "Suc n"])
    moreover have "\<exists>c''. answer n env c' = Some c'' \<and> client_reachable c'' \<and> cl_waiting c'' \<and> rq_done (cl_request c'')"
    proof (cases "rq_done (cl_request c')")
      case True
      then show ?thesis using r d(1) by (simp add: answer.simps [of n env c'])
    next
      case False
      then show ?thesis using Suc.IH [OF r d(1)] d(2) by blast
    qed
    ultimately show ?thesis by simp
  qed
qed

lemma remaining_le:
  assumes ok: "client_ok c"
  shows "remaining c \<le> 3"
proof (cases "filter cn_request (cl_connections c)")
  case Nil
  then show ?thesis by (simp add: remaining_def)
next
  case (Cons cn rest)
  then have cn: "cn \<in> set (cl_connections c)" "cn_request cn" using filter_Cons_in by fast+
  obtain ys zs where sp: "cl_connections c = ys @ cn # zs" using split_list [OF cn(1)] by blast
  have "rest = []" using Cons others_idle(1,2) [OF ok sp cn(2)] cn(2) sp by simp
  moreover have "cn_handles cn \<le> 2" using conn_okD(3) [OF client_okD(6) [OF ok cn(1)]] by simp
  ultimately show ?thesis using Cons by (simp add: remaining_def)
qed

text \<open>
  C14. A waiting caller is always released: in every reachable state in which a caller waits, the
  callbacks libuv owes are possible one after the other and at most four of them complete its
  request. The connection may be connecting, timing out, half closed or closed on
  both handles, and a write or a shutdown may be outstanding.
\<close>

theorem client_call_returns:
  assumes "client_reachable c" "cl_waiting c"
  shows "\<exists>c'. answer 4 env c = Some c' \<and> client_reachable c' \<and> rq_done (cl_request c')
    \<and> client_do env Ev_return c' = Some (c'\<lparr>cl_waiting := False\<rparr>)"
proof -
  have "remaining c < 4" using remaining_le [OF reachable_client_ok [OF assms(1)]] by simp
  then obtain c' where "answer 4 env c = Some c'" "client_reachable c'" "cl_waiting c'" "rq_done (cl_request c')"
    using answer_completes [OF assms] by blast
  then show ?thesis by simp
qed

theorem client_call_returns_witness:
  "\<exists>c'. answer 4 env_ok (ex_state ex_connecting) = Some c' \<and> rq_done (cl_request c')
    \<and> cl_waiting (ex_state ex_connecting)"
proof -
  have r: "client_reachable (ex_state ex_connecting)" by (rule ex_state_reachable) code_simp
  have w: "cl_waiting (ex_state ex_connecting)" by code_simp
  show ?thesis using client_call_returns [OF r w, of env_ok] w by blast
qed

section \<open>Receiving\<close>

text \<open>
  C15. The receive buffer keeps the stream: in every reachable state the bytes that came in on a
  connection are those given to callers followed by those in the buffer, which never holds
  more than 65536. Reading is never started on a full buffer, and an open connection
  without error is read unless its buffer is full. A receive call gets the next bytes, at
  most as many as it asks for; the end of the stream or an error is reported only when the
  buffer is empty.
\<close>

theorem client_stream:
  assumes c: "client_reachable c" and idle: "\<not> cl_waiting c"
    and cn: "find_connection i c = Some cn" and n: "0 < n" and send: "ce_async_send env = UV_OK"
  shows "cn_in cn = cn_out cn @ cn_received cn \<and> length (cn_received cn) \<le> CLIENT_RECEIVE_LIMIT
    \<and> (cn_reading cn \<longrightarrow> 0 < allocate_read cn)
    \<and> (cn_tcp cn = Handle_open \<and> cn_read_status cn = UV_OK \<and> \<not> cn_reading cn
        \<longrightarrow> length (cn_received cn) = CLIENT_RECEIVE_LIMIT)
    \<and> (case client_call env Cmd_receive (request0\<lparr>rq_id := i, rq_size := n\<rparr>) c of
         (r, c') \<Rightarrow>
           if cn_received cn = []
           then r = (if cn_read_status cn = UV_OK then UV_EAGAIN else cn_read_status cn)
                \<and> cl_connections c' = cl_connections c
           else r = UV_OK \<and> rq_data (cl_request c') = take n (cn_received cn)
                \<and> map_option cn_received (find_connection i c') = Some (drop n (cn_received cn)))"
proof -
  have ok: "client_ok c" using c by (rule reachable_client_ok)
  obtain ys zs where sp: "cl_connections c = ys @ cn # zs" "cn_id cn = i" "around i ys zs"
    by (rule find_connection_split [OF ok cn])
  have b: "buffer_ok cn" using conn_in_ok(2) [OF ok sp(1)] .
  have nc: "\<not> cn_connecting cn" using idle_conn(2) [OF ok idle, of cn] sp(1) by simp
  let ?c = "c\<lparr>cl_request := request0\<lparr>rq_id := i, rq_size := n\<rparr>, cl_waiting := True\<rparr>"
  have f: "find_connection i (c'\<lparr>cl_connections := ys @ take_received env m cn # zs, cl_waiting := w\<rparr>)
      = Some (take_received env m cn)" for c' m w
    using find_around [OF sp(3), of "take_received env m cn"] sp(2) by (simp add: take_received_sel)
  have d: "cn_received (take_received env m cn) = drop m (cn_received cn)" for m
    by (simp add: take_received_def Let_def)
  have "case client_call env Cmd_receive (request0\<lparr>rq_id := i, rq_size := n\<rparr>) c of
         (r, c') \<Rightarrow>
           if cn_received cn = []
           then r = (if cn_read_status cn = UV_OK then UV_EAGAIN else cn_read_status cn)
                \<and> cl_connections c' = cl_connections c
           else r = UV_OK \<and> rq_data (cl_request c') = take n (cn_received cn)
                \<and> map_option cn_received (find_connection i c') = Some (drop n (cn_received cn))"
    using cn send
    by (simp add: client_call_def waits_def skyuv_client_runtime_call_def receive_data_def Let_def
        upd_request_def upd_connections [OF sp(3,2)] sp(1) f d min_def)
  then show ?thesis using b nc by (simp add: buffer_ok_def allocate_read_def)
qed

definition ex_data :: "client_event list" where
  "ex_data = ex_online @ [Ev_received 1 (Inr [10, 20, 30]), Ev_received 1 (Inl UV_EOF)]"

theorem client_stream_witness:
  "rq_data (cl_request (snd (client_call env_ok Cmd_receive (request0\<lparr>rq_id := 1, rq_size := 2\<rparr>) (ex_state ex_data))))
    = [10, 20]"
proof -
  have r: "client_reachable (ex_state ex_data)" by (rule ex_state_reachable) code_simp
  have w: "\<not> cl_waiting (ex_state ex_data)" by code_simp
  have f: "find_connection 1 (ex_state ex_data) = Some (the (find_connection 1 (ex_state ex_data)))" by code_simp
  have d: "cn_received (the (find_connection 1 (ex_state ex_data))) = [10, 20, 30]" by code_simp
  have e: "ce_async_send env_ok = UV_OK" by (simp add: env_ok_def)
  show ?thesis using client_stream [OF r w f, of 2 env_ok] d e by (simp split: prod.splits)
qed

section \<open>Identifiers\<close>

lemma next_id_simps [simp]:
  "cl_next_id (upd_connection i f c) = cl_next_id c" "cl_next_id (upd_request g c) = cl_next_id c"
  "cl_next_id (complete r c) = cl_next_id c" "cl_next_id (set_result i r c) = cl_next_id c"
  "cl_next_id (notify c) = cl_next_id c"
  by (simp_all add: upd_connection_def upd_request_def complete_def set_result_def notify_def)

lemma next_id_call: "cl_next_id (snd (client_call env cmd req c)) = cl_next_id c"
  by (cases cmd)
    (simp_all add: client_call_def submit_request_def skyuv_client_runtime_call_def waits_def
      start_connect_def start_close_def start_send_def receive_data_def start_shutdown_def check_ready_def
      fail_connect_def Let_def split: option.splits)

lemma next_id_closed: "cl_next_id (connection_closed i c) = cl_next_id c"
  by (simp add: connection_closed_def Let_def split: option.splits)

lemma next_id_other:
  assumes "client_do env ev c = Some c'" "\<And>i status. ev \<noteq> Ev_connected i status"
  shows "cl_next_id c' = cl_next_id c"
proof (cases ev)
  case (Ev_received i r)
  then show ?thesis using assms(1)
    by (cases r) (auto simp: when_connection_def received_def split: option.splits if_splits)
qed (use assms in \<open>auto simp: when_connection_def next_id_call next_id_closed connection_timeout_def
    written_def shutdown_done_def execute_stop_def split: option.splits if_splits\<close>)

text \<open>
  Identifiers are never reused: in every reachable state, an event either leaves the
  last identifier as it is, or it is the success of a connect, whose request completes with
  result 0 and the identifier one greater than the last, still at most the maximum of 64
  bits. No connection in the list has that identifier already but the one that connected.
\<close>

theorem client_ids_fresh:
  assumes c: "client_reachable c" and step: "client_do env ev c = Some c'"
  shows "cl_next_id c' = cl_next_id c
    \<or> (\<exists>status. ev = Ev_connected (cl_next_id c') status) \<and> cl_next_id c' = cl_next_id c + 1
       \<and> 0 < cl_next_id c' \<and> cl_next_id c' \<le> INT64_MAX
       \<and> rq_done (cl_request c') \<and> rq_result (cl_request c') = UV_OK \<and> rq_id (cl_request c') = cl_next_id c'
       \<and> length (filter (\<lambda>cn. cn_id cn = cl_next_id c') (cl_connections c')) = 1"
proof (cases ev)
  case (Ev_connected i status)
  have ok: "client_ok c" using c by (rule reachable_client_ok)
  from step Ev_connected obtain cn ys zs where
    c': "c' = connected env i status (upd_connection i (\<lambda>cn. cn\<lparr>cn_connecting := False\<rparr>) c)"
    and cc: "cn_connecting cn" and sp: "cl_connections c = ys @ cn # zs" "cn_id cn = i" "around i ys zs"
    by (auto elim!: when_connectionE [OF _ ok])
  have k: "conn_ok (cl_next_id c) cn" using conn_in_ok(1) [OF ok sp(1)] .
  have q: "cn_request cn" "i = cl_next_id c + 1" "0 < i" "i \<le> INT64_MAX"
    using conn_okD(1,2,6,7) [OF k] cc sp(2) by auto
  have "filter (\<lambda>cn. cn_id cn = i) ys = []" "filter (\<lambda>cn. cn_id cn = i) zs = []"
    using sp(3) by (auto simp: around_def filter_empty_conv)
  then show ?thesis
    using connected_result [OF ok sp q(1) refl, of env status] q(2-) sp(2) Ev_connected
    by (simp add: c' Let_def stop_timer_def)
qed (use next_id_other [OF step] in auto)

theorem client_ids_fresh_witness:
  "client_do env_ok (Ev_connected 1 UV_OK) (ex_state ex_connecting)
     = Some (the (client_do env_ok (Ev_connected 1 UV_OK) (ex_state ex_connecting)))
   \<and> rq_id (cl_request (the (client_do env_ok (Ev_connected 1 UV_OK) (ex_state ex_connecting)))) = 1"
proof -
  let ?d = "the (client_do env_ok (Ev_connected 1 UV_OK) (ex_state ex_connecting))"
  have r: "client_reachable (ex_state ex_connecting)" by (rule ex_state_reachable) code_simp
  have s: "client_do env_ok (Ev_connected 1 UV_OK) (ex_state ex_connecting) = Some ?d" by code_simp
  have n: "cl_next_id ?d = 1" "cl_next_id (ex_state ex_connecting) = 0" by code_simp+
  show ?thesis using client_ids_fresh [OF r s] s n by simp
qed

section \<open>Stopping\<close>

definition open_handles :: "client \<Rightarrow> nat" where
  "open_handles c = sum_list (map cn_handles (cl_connections c))"

lemma closed_event_handles:
  assumes ok: "client_ok c" and sp: "cl_connections c = ys @ cn # zs" "cn_id cn = i" "around i ys zs"
    and f: "cn_id (f cn) = i" "cn_request (f cn) = cn_request cn" "cn_handles (f cn) = cn_handles cn"
  shows "Suc (open_handles (connection_closed i (upd_connection i f c))) = open_handles c"
proof -
  have "0 < cn_handles cn"
    using conn_okD(3,4) [OF conn_in_ok(1) [OF ok sp(1)]] by (cases "cn_tcp cn") auto
  then show ?thesis
    unfolding closed_result [where f = f, OF ok sp f] by (simp add: open_handles_def sp(1))
qed

lemma stopping_conn:
  assumes "client_ok c" "cl_stopping c" "cn \<in> set (cl_connections c)"
  shows "\<not> cn_connecting cn" "cn_tcp cn \<noteq> Handle_open" "cn_timer cn \<noteq> Handle_open"
proof -
  show n: "\<not> cn_connecting cn" using idle_conn(2) [OF assms(1) client_okD(8) [OF assms(1,2)] assms(3)] .
  show "cn_tcp cn \<noteq> Handle_open" using client_okD(9) [OF assms] .
  show "cn_timer cn \<noteq> Handle_open" using conn_okD(5) [OF client_okD(6) [OF assms(1,3)]] n by blast
qed

lemma stopping_event:
  assumes ok: "client_ok c" and st: "cl_stopping c" and step: "client_do env ev c = Some c'"
  shows "Suc (open_handles c') = open_handles c"
proof (cases ev)
  case (Ev_tcp_closed i)
  with step obtain cn ys zs where
    c': "c' = connection_closed i (upd_connection i (\<lambda>cn. cn\<lparr>cn_tcp := Handle_closed\<rparr>) c)"
    and sp: "cl_connections c = ys @ cn # zs" "cn_id cn = i" "around i ys zs"
    by (auto elim!: when_connectionE [OF _ ok])
  show ?thesis unfolding c' by (rule closed_event_handles [OF ok sp]) (simp_all add: sp(2))
next
  case (Ev_timer_closed i)
  with step obtain cn ys zs where
    c': "c' = connection_closed i (upd_connection i (\<lambda>cn. cn\<lparr>cn_timer := Handle_closed\<rparr>) c)"
    and sp: "cl_connections c = ys @ cn # zs" "cn_id cn = i" "around i ys zs"
    by (auto elim!: when_connectionE [OF _ ok])
  show ?thesis unfolding c' by (rule closed_event_handles [OF ok sp]) (simp_all add: sp(2))
qed (use step st stopping_conn [OF ok st] client_okD(8) [OF ok st] idle_completers(2,3) [OF ok]
    in \<open>auto elim!: when_connectionE [OF _ ok] split: if_splits\<close>)

lemma stopping_possible:
  assumes ok: "client_ok c" and st: "cl_stopping c" and ne: "cl_connections c \<noteq> []"
  shows "\<exists>ev c'. client_do env ev c = Some c'"
proof -
  obtain cn where cn: "cn \<in> set (cl_connections c)" using ne by (cases "cl_connections c") auto
  obtain ys zs where f: "find_connection (cn_id cn) c = Some cn" by (rule find_in_set [OF ok cn])
  have "cn_tcp cn = Handle_closing \<or> cn_timer cn = Handle_closing"
    using stopping_conn [OF ok st cn] conn_okD(4) [OF client_okD(6) [OF ok cn]]
    by (cases "cn_tcp cn"; cases "cn_timer cn") auto
  then have "(\<exists>c'. client_do env (Ev_tcp_closed (cn_id cn)) c = Some c')
      \<or> (\<exists>c'. client_do env (Ev_timer_closed (cn_id cn)) c = Some c')"
    using f stopping_conn(1) [OF ok st cn] idle_completers(2,3) [OF ok client_okD(8) [OF ok st]]
    by (auto simp: when_connection_def)
  then show ?thesis by blast
qed

text \<open>
  C17. Destroying the runtime ends: after the stop, in every reachable state, each event
  that is possible closes one of the handles that are left, and as long as a
  connection is left some event is possible. So after as many events as there are open
  handles the list is empty, every connection is freed and the loop's thread can be joined.
\<close>

theorem client_stop_ends:
  assumes c: "client_reachable c" and st: "cl_stopping c"
  shows "(\<forall>env ev c'. client_do env ev c = Some c' \<longrightarrow> Suc (open_handles c') = open_handles c)
    \<and> (cl_connections c \<noteq> [] \<longrightarrow> (\<exists>ev c'. client_do env ev c = Some c'))
    \<and> (open_handles c = 0 \<longleftrightarrow> cl_connections c = [])"
proof -
  have ok: "client_ok c" using c by (rule reachable_client_ok)
  have "cl_connections c = []" if "open_handles c = 0"
  proof (rule ccontr)
    assume "cl_connections c \<noteq> []"
    then obtain ev c' where "client_do env ev c = Some c'" using stopping_possible [OF ok st] by blast
    then show False using stopping_event [OF ok st] that by fastforce
  qed
  then show ?thesis
    using stopping_event [OF ok st] stopping_possible [OF ok st, of env] by (auto simp: open_handles_def)
qed

theorem client_stop_ends_witness:
  "cl_connections (ex_state (ex_online @ [Ev_stop])) \<noteq> []
    \<and> (\<exists>ev c'. client_do env_ok ev (ex_state (ex_online @ [Ev_stop])) = Some c')"
proof -
  have r: "client_reachable (ex_state (ex_online @ [Ev_stop]))" by (rule ex_state_reachable) code_simp
  have s: "cl_stopping (ex_state (ex_online @ [Ev_stop]))" by code_simp
  have "cl_connections (ex_state (ex_online @ [Ev_stop])) \<noteq> []" by code_simp
  then show ?thesis using client_stop_ends [OF r s, of env_ok] by blast
qed

section \<open>Sending\<close>

declare send_loop.simps [simp del]

lemma send_loop_parts:
  assumes "send_loop submit offset sz = (r, ps)"
  shows "ps \<noteq> [] \<and> r = submit (last ps) \<and> (\<forall>p \<in> set (butlast ps). submit p = UV_OK)
    \<and> (\<forall>(off, n) \<in> set ps. n < 2 ^ 32)
    \<and> (offset + sz \<le> length data \<longrightarrow> r = UV_OK \<longrightarrow>
         concat (map (\<lambda>(off, n). send_buf (drop off data) n) ps) = take sz (drop offset data))"
  using assms
proof (induction submit offset sz arbitrary: r ps rule: send_loop.induct)
  case (1 submit offset sz)
  let ?n = "send_part sz"
  have buf: "send_buf (drop offset data) ?n = take ?n (drop offset data)"
    using send_part_le(2) [of sz] by (simp add: send_buf_def)
  show ?case
  proof (cases "submit (offset, ?n) = UV_OK \<and> sz \<noteq> 0 \<and> sz - ?n \<noteq> 0")
    case False
    then have p: "ps = [(offset, ?n)]" "r = submit (offset, ?n)"
      using "1.prems" by (auto simp: send_loop.simps [of submit offset sz] Let_def split: if_splits)
    have "?n = sz" if "r = UV_OK" using False that p(2) send_part_le(1) [of sz] by auto
    then show ?thesis using p buf send_part_le(2) [of sz] by auto
  next
    case True
    obtain r' ps' where rest: "send_loop submit (offset + ?n) (sz - ?n) = (r', ps')" by fastforce
    have p: "ps = (offset, ?n) # ps'" "r = r'"
      using "1.prems" True rest by (auto simp: send_loop.simps [of submit offset sz] Let_def)
    have IH: "ps' \<noteq> [] \<and> r' = submit (last ps') \<and> (\<forall>p \<in> set (butlast ps'). submit p = UV_OK)
      \<and> (\<forall>(off, n) \<in> set ps'. n < 2 ^ 32)
      \<and> (offset + ?n + (sz - ?n) \<le> length data \<longrightarrow> r' = UV_OK \<longrightarrow>
           concat (map (\<lambda>(off, n). send_buf (drop off data) n) ps') = take (sz - ?n) (drop (offset + ?n) data))"
      using "1.IH" [of ?n UV_OK r' ps'] True rest by simp
    have "take sz (drop offset data) = take ?n (drop offset data) @ take (sz - ?n) (drop (offset + ?n) data)"
      using take_add [of ?n "sz - ?n" "drop offset data"] send_part_le(1) [of sz] by (simp add: add.commute)
    then show ?thesis using IH p buf True send_part_le [of sz] by auto
  qed
qed

text \<open>
  Sending is complete and never truncated by the 32-bit length of libuv's buffers: the
  parts that are submitted are below 4 GiB each, they stop at the first one that fails,
  whose error is returned, and when the call returns 0 the bytes handed to libuv are the whole
  buffer in order, for buffers of any size.
\<close>

theorem client_send_complete:
  assumes "skyuv_client_runtime_send submit True True (length data) = (r, ps)"
  shows "ps \<noteq> [] \<and> r = submit (last ps) \<and> (\<forall>p \<in> set (butlast ps). submit p = UV_OK)
    \<and> (\<forall>(off, n) \<in> set ps. n < 2 ^ 32)
    \<and> (r = UV_OK \<longrightarrow> concat (map (\<lambda>(off, n). send_buf (drop off data) n) ps) = data)"
  using send_loop_parts [of submit 0 "length data" r ps data] assms
  by (simp add: skyuv_client_runtime_send_def)

theorem client_send_complete_witness:
  "skyuv_client_runtime_send (\<lambda>_. UV_OK) True True (length [1, 2, 3 :: u8]) = (UV_OK, [(0, 3)])
    \<and> concat (map (\<lambda>(off, n). send_buf (drop off [1, 2, 3]) n) [(0, 3)]) = ([1, 2, 3] :: u8 list)"
proof -
  have s: "skyuv_client_runtime_send (\<lambda>_. UV_OK) True True (length [1, 2, 3 :: u8]) = (UV_OK, [(0, 3)])"
    by code_simp
  show ?thesis using client_send_complete [OF s] s by simp
qed

section \<open>Closing\<close>

text \<open>The connection \<open>i\<close> is being closed for the waiting caller.\<close>

definition closing_for :: "int \<Rightarrow> client \<Rightarrow> bool" where
  "closing_for i c \<longleftrightarrow> cl_waiting c \<and> \<not> rq_done (cl_request c) \<and> rq_result (cl_request c) = UV_OK
     \<and> (\<exists>cn. find_connection i c = Some cn \<and> cn_request cn \<and> \<not> cn_connecting cn)"

lemma closing_awaited:
  assumes ok: "client_ok c" and cl: "closing_for i c" and step: "client_do env (awaited c) c = Some c'"
  shows "closing_for i c' \<or> (find_connection i c' = None \<and> rq_done (cl_request c') \<and> rq_result (cl_request c') = UV_OK)"
proof -
  from cl obtain cn where cn: "find_connection i c = Some cn" "cn_request cn" "\<not> cn_connecting cn"
    and w: "cl_waiting c" "\<not> rq_done (cl_request c)" "rq_result (cl_request c) = UV_OK"
    by (auto simp: closing_for_def)
  obtain ys zs where sp: "cl_connections c = ys @ cn # zs" "cn_id cn = i" "around i ys zs"
    by (rule find_connection_split [OF ok cn(1)])
  have "filter cn_request (cl_connections c) = [cn]" using others_idle(1,2) [OF ok sp(1) cn(2)] cn(2) sp(1) by simp
  then obtain f where c': "c' = connection_closed i (upd_connection i f c)"
    and f: "f = (\<lambda>cn. cn\<lparr>cn_tcp := Handle_closed\<rparr>) \<or> f = (\<lambda>cn. cn\<lparr>cn_timer := Handle_closed\<rparr>)"
    using step cn sp(2) by (auto simp: awaited_def when_connection_def split: if_splits)
  have f': "cn_id (f cn) = i" "cn_request (f cn) = cn_request cn" "cn_handles (f cn) = cn_handles cn"
    "cn_connecting (f cn) = cn_connecting cn" using f sp(2) by auto
  let ?x = "(f cn)\<lparr>cn_handles := cn_handles cn - 1\<rparr>"
  have "find_connection i (c\<lparr>cl_connections := ys @ ?x # zs\<rparr>) = Some ?x"
    using f'(1) by (intro find_around [OF sp(3)]) simp_all
  moreover have "find_connection i (c\<lparr>cl_connections := ys @ zs, cl_request := r\<rparr>) = None" for r
    using sp(3) by (auto simp: find_connection_def find_None_iff around_def)
  ultimately show ?thesis
    using w cn f' unfolding c' closed_result [where f = f, OF ok sp f'(1-3)] by (auto simp: closing_for_def)
qed

lemma closing_answer:
  "client_ok c \<Longrightarrow> closing_for i c \<Longrightarrow> answer n env c = Some c'
    \<Longrightarrow> find_connection i c' = None \<and> rq_done (cl_request c') \<and> rq_result (cl_request c') = UV_OK"
proof (induction n arbitrary: c)
  case 0
  then show ?case by (simp add: answer.simps closing_for_def)
next
  case (Suc n)
  have nd: "\<not> rq_done (cl_request c)" using Suc.prems(2) by (simp add: closing_for_def)
  with Suc.prems(3) obtain d where d: "client_do env (awaited c) c = Some d" "answer n env d = Some c'"
    by (auto simp: answer.simps [of "Suc n"] split: option.splits)
  have ok: "client_ok d" using client_do_keeps [OF Suc.prems(1) d(1)] .
  consider "closing_for i d"
    | "find_connection i d = None" "rq_done (cl_request d)" "rq_result (cl_request d) = UV_OK"
    using closing_awaited [OF Suc.prems(1,2) d(1)] by auto
  then show ?case
  proof cases
    case 1
    then show ?thesis using Suc.IH [OF ok] d(2) by blast
  next
    case 2
    then show ?thesis using d(2) by (simp add: answer.simps [of n])
  qed
qed

lemma close_call_known:
  assumes ok: "client_ok c" and idle: "\<not> cl_waiting c" and cn: "find_connection i c = Some cn"
    and env: "ce_mutex_init env = UV_OK" "ce_cond_init env = UV_OK" "ce_async_send env = UV_OK"
  shows "fst (client_call env Cmd_close (request0\<lparr>rq_id := i\<rparr>) c) = UV_OK
    \<and> closing_for i (snd (client_call env Cmd_close (request0\<lparr>rq_id := i\<rparr>) c))"
proof -
  obtain ys zs where sp: "cl_connections c = ys @ cn # zs" "cn_id cn = i" "around i ys zs"
    by (rule find_connection_split [OF ok cn])
  have nc: "\<not> cn_connecting cn" using idle_conn(2) [OF ok idle, of cn] sp(1) by simp
  let ?x = "close_connection (cn\<lparr>cn_request := True\<rparr>)"
  have "find_connection i (c\<lparr>cl_request := r, cl_waiting := w, cl_connections := ys @ ?x # zs, cl_waiting := w'\<rparr>)
      = Some ?x" for r w w'
    using sp(2) by (intro find_around [OF sp(3)]) (simp_all add: close_connection_sel)
  then show ?thesis
    using cn env nc
    by (simp add: client_call_def waits_def submit_request_def skyuv_client_runtime_call_def start_close_def
        Let_def upd_connections [OF sp(3,2)] sp(1) closing_for_def close_connection_sel request0_def)
qed

text \<open>
  C16. Closing waits for the connection to be freed and can be repeated: when the identifier
  is that of a connection, the caller waits and when its request is complete, with result 0, the
  connection has left the list. When it is not, the call completes at once with 0 for an
  identifier that was given out, and fails with \<^verbatim>\<open>UV_EBADF\<close> for one that never was.
\<close>

theorem client_close:
  assumes c: "client_reachable c" and idle: "\<not> cl_waiting c" "\<not> cl_stopping c" and i: "0 < i"
    and env: "ce_mutex_init env = UV_OK" "ce_cond_init env = UV_OK" "ce_async_send env = UV_OK"
  shows "case client_call env Cmd_close (request0\<lparr>rq_id := i\<rparr>) c of
    (r, d) \<Rightarrow>
      if find_connection i c \<noteq> None
      then r = UV_OK \<and> (\<exists>c'. answer 4 env d = Some c' \<and> find_connection i c' = None
             \<and> rq_done (cl_request c') \<and> rq_result (cl_request c') = UV_OK)
      else if i \<le> cl_next_id c
      then r = UV_OK \<and> rq_done (cl_request d) \<and> rq_result (cl_request d) = UV_OK \<and> cl_connections d = cl_connections c
      else r = UV_EBADF \<and> cl_connections d = cl_connections c"
proof (cases "find_connection i c")
  case None
  then show ?thesis
    using i env
    by (simp add: client_call_def waits_def submit_request_def skyuv_client_runtime_call_def start_close_def
        Let_def complete_def upd_request_def request0_def)
next
  case (Some cn)
  have ok: "client_ok c" using c by (rule reachable_client_ok)
  let ?req = "request0\<lparr>rq_id := i\<rparr>"
  let ?d = "snd (client_call env Cmd_close ?req c)"
  note k = close_call_known [OF ok idle(1) Some env]
  have w: "cl_waiting ?d" using k by (simp add: closing_for_def)
  have "client_do env (Ev_call Cmd_close ?req) c = Some ?d"
    using idle i by (simp add: request_valid_def request0_def)
  then have r: "client_reachable ?d" by (rule client_reachable.client_event [OF c])
  have "remaining ?d < 4" using remaining_le [OF reachable_client_ok [OF r]] by simp
  then obtain c' where a: "answer 4 env ?d = Some c'"
    using answer_completes [OF r w, of 4 env] by auto
  have "find_connection i c' = None \<and> rq_done (cl_request c') \<and> rq_result (cl_request c') = UV_OK"
    using closing_answer [OF reachable_client_ok [OF r] _ a] k by blast
  then show ?thesis using Some k a by (auto split: prod.splits)
qed

theorem client_close_witness:
  "fst (client_call env_ok Cmd_close (request0\<lparr>rq_id := 1\<rparr>) (ex_state ex_online)) = UV_OK
    \<and> find_connection 1 (ex_state ex_online) \<noteq> None"
proof -
  have r: "client_reachable (ex_state ex_online)" by (rule ex_state_reachable) code_simp
  have w: "\<not> cl_waiting (ex_state ex_online)" "\<not> cl_stopping (ex_state ex_online)" by code_simp+
  have f: "find_connection 1 (ex_state ex_online) \<noteq> None" by code_simp
  show ?thesis using client_close [OF r w, of 1 env_ok] f by (auto simp: env_ok_def split: prod.splits)
qed

section \<open>Creation\<close>

text \<open>
  Creating a runtime that fails at any step, in the caller or in the new thread, gives back
  everything it had acquired and leaves NULL; a runtime that was created is given back
  completely by its destruction, which may be repeated.
\<close>

theorem client_create_no_leak:
  "case skyuv_client_runtime_create env (Some old) held of
     (r, out, held') \<Rightarrow>
       (if r = UV_OK
        then out = Some (Some client0)
          \<and> mset held' = mset held + {#Res_block, Res_mutex, Res_condition, Res_thread, Res_loop#}
        else out = Some None \<and> held' = held)
       \<and> skyuv_client_runtime_destroy out held' = (Some None, held)
       \<and> skyuv_client_runtime_destroy (Some None) held = (Some None, held)"
  by (auto simp: skyuv_client_runtime_create_def client_run_def skyuv_client_runtime_destroy_def Let_def
      split: if_splits prod.splits)

section \<open>Waiting for data\<close>

lemma client_wait_sees_data:
  assumes "client_do env (Ev_received i r) c = Some c'" "r \<noteq> Inr []"
  shows "skyuv_client_runtime_wait (Some c') (skyuv_client_runtime_revision (Some c)) timeout = Wait_not"
proof -
  have "cl_revision c' = cl_revision c + 1"
    using assms by (auto simp: when_connection_def received_def notify_def upd_connection_def
        split: option.splits if_splits sum.splits)
  then show ?thesis by (simp add: skyuv_client_runtime_wait_def skyuv_client_runtime_revision_def)
qed

text \<open>
  A shutdown of the sending side that libuv refuses is forgotten: the side is marked as closed before
  \<^verbatim>\<open>uv_shutdown\<close> is called, so a second attempt reports success although nothing has been shut down.
\<close>

lemma refused_shutdown_then_success:
  "let c = (ex_state ex_online)\<lparr>cl_request := request0\<lparr>rq_id := 1, rq_write := True\<rparr>\<rparr>;
       (first, c1) = start_shutdown (env_ok\<lparr>ce_shutdown := UV_ENOTCONN\<rparr>) c;
       (second, c2) = start_shutdown env_ok c1
   in first = UV_ENOTCONN \<and> second = UV_OK \<and> rq_result (cl_request c2) = UV_OK \<and> cl_shutdown c2 = None"
  by code_simp

end
