(* ===== verification/Client_Lua.thy ===== *)
theory Client_Lua
  imports Complex_Main Client_Properties
begin

text \<open>
  The Lua functions of the client (\<^verbatim>\<open>src/src/client/client_lua.c\<close>). Arguments that the functions of
  Lua's auxiliary library have checked are typed; an argument of the wrong type is a Lua error before
  anything else happens. A Lua number is a rational or not finite; every result of
  floating-point arithmetic is rounded by \<open>rnd\<close>.
\<close>

section \<open>Values\<close>

datatype lua_number = Finite rat | Not_finite

datatype lua_arg = Arg_nil | Arg_table "int option list" | Arg_number lua_number | Arg_other

text \<open>A Lua error, or the values returned.\<close>

datatype 'a lua_outcome = Lua_error | Lua_values 'a

section \<open>Calls\<close>

text \<open>
  \<open>create\<close> is the result of \<^verbatim>\<open>skyuv_client_runtime_create\<close>; \<open>connect\<close> is
  \<^verbatim>\<open>skyuv_client_runtime_connect_timeout\<close> with its wait, for a port and a time in milliseconds.
\<close>

definition connect_socket ::
    "(rat \<Rightarrow> rat) \<Rightarrow> uv_code \<times> client option \<Rightarrow> (client option \<Rightarrow> int \<Rightarrow> int \<Rightarrow> uv_code \<times> int \<times> client option)
      \<Rightarrow> int \<Rightarrow> lua_number option \<Rightarrow> client option \<Rightarrow> int lua_outcome \<times> client option" where
  "connect_socket rnd create connect port seconds runtime =
     (case (case seconds of None \<Rightarrow> Finite (-1) | Some s \<Rightarrow> s) of
        Not_finite \<Rightarrow> (Lua_error, runtime)
      | Finite s \<Rightarrow>
          if port < 0 \<or> port > 65535 \<or> s > 1000000 then (Lua_error, runtime)
          else case (if runtime = None then create else (UV_OK, runtime)) of (result, runtime) \<Rightarrow>
            if result \<noteq> UV_OK then (Lua_error, runtime)
            else case connect runtime port (if s < 0 then - 1 else \<lceil>rnd (s * 1000)\<rceil>) of (result, i, runtime) \<Rightarrow>
              if result \<noteq> UV_OK then (Lua_error, runtime) else (Lua_values i, runtime))"

text \<open>\<^verbatim>\<open>close_socket\<close> and \<^verbatim>\<open>send_socket\<close>: an error of the runtime is raised.\<close>

definition report :: "uv_code \<Rightarrow> unit lua_outcome" where
  "report result = (if result = UV_OK then Lua_values () else Lua_error)"

definition close_socket :: "(client_request \<Rightarrow> uv_code) \<Rightarrow> int \<Rightarrow> client option \<Rightarrow> unit lua_outcome" where
  "close_socket submit i runtime =
     report (case skyuv_client_runtime_close (runtime \<noteq> None) i of Inl e \<Rightarrow> e | Inr req \<Rightarrow> submit req)"

definition send_socket :: "(nat \<times> nat \<Rightarrow> uv_code) \<Rightarrow> bytes \<Rightarrow> client option \<Rightarrow> unit lua_outcome" where
  "send_socket submit data runtime =
     report (fst (skyuv_client_runtime_send submit (runtime \<noteq> None) True (length data)))"

definition recv_socket :: "client_env \<Rightarrow> int \<Rightarrow> client option \<Rightarrow> bytes option lua_outcome \<times> client option" where
  "recv_socket env i runtime =
     (case skyuv_client_runtime_recv (runtime \<noteq> None) i True 4096 True of
        Inl e \<Rightarrow> (if e = UV_EAGAIN then Lua_values None else if e \<noteq> UV_EOF then Lua_error else Lua_values (Some []), runtime)
      | Inr req \<Rightarrow>
          (case client_call env Cmd_receive req (the runtime) of (result, c) \<Rightarrow>
             (if result = UV_EAGAIN then Lua_values None
              else if result \<noteq> UV_OK \<and> result \<noteq> UV_EOF then Lua_error
              else Lua_values (Some (take (rq_size (cl_request c)) (rq_data (cl_request c)))), Some c)))"

fun parse_mode :: "bool \<Rightarrow> bool \<Rightarrow> string \<Rightarrow> (bool \<times> bool) option" where
  "parse_mode rd wr [] = Some (rd, wr)"
| "parse_mode rd wr (c # cs) =
     (if c = CHR ''r'' then parse_mode True wr cs
      else if c = CHR ''w'' then parse_mode rd True cs
      else None)"

definition shutdown_socket :: "(client_request \<Rightarrow> uv_code) \<Rightarrow> int \<Rightarrow> string \<Rightarrow> client option \<Rightarrow> unit lua_outcome" where
  "shutdown_socket submit i mode runtime =
     (case parse_mode False False mode of
        None \<Rightarrow> Lua_error
      | Some (rd, wr) \<Rightarrow>
          report (case skyuv_client_runtime_shutdown (runtime \<noteq> None) i rd wr of Inl e \<Rightarrow> e | Inr req \<Rightarrow> submit req))"

text \<open>The milliseconds given to \<^verbatim>\<open>uv_sleep\<close>.\<close>

definition sleep_socket :: "(rat \<Rightarrow> rat) \<Rightarrow> lua_number \<Rightarrow> u32 lua_outcome" where
  "sleep_socket rnd microseconds =
     (case microseconds of
        Not_finite \<Rightarrow> Lua_error
      | Finite m \<Rightarrow>
          if m < 0 \<or> m > 1000000000 then Lua_error
          else Lua_values (word_of_int \<lceil>rnd (m / 1000)\<rceil>))"

section \<open>Select\<close>

text \<open>
  \<open>ready\<close> is \<^verbatim>\<open>skyuv_client_runtime_ready\<close> with the two flags it stores. The result is the list of
  the ready sockets with the new count of sockets, \<open>None\<close> for a Lua error.
\<close>

fun ready_table :: "(int \<Rightarrow> uv_code \<times> bool \<times> bool) \<Rightarrow> bool \<Rightarrow> int option list \<Rightarrow> nat \<Rightarrow> (int list \<times> nat) option" where
  "ready_table ready writing [] sockets = Some ([], sockets)"
| "ready_table ready writing (None # ids) sockets = None"
| "ready_table ready writing (Some i # ids) sockets =
     (if i < 0 then ready_table ready writing ids sockets
      else case ready i of (result, rd, wr) \<Rightarrow>
        if result \<noteq> UV_OK then None
        else map_option (\<lambda>(found, n). ((if (if writing then wr else rd) then i # found else found), n))
               (ready_table ready writing ids (Suc sockets)))"

text \<open>
  What one pass meets: the revision at its beginning, the answers for the sockets, and the clock at its two
  readings.
\<close>

record select_pass =
  sp_revision :: u64
  sp_ready :: "int \<Rightarrow> uv_code \<times> bool \<times> bool"
  sp_now :: u64
  sp_later :: u64

definition elapsed :: "(rat \<Rightarrow> rat) \<Rightarrow> u64 \<Rightarrow> u64 \<Rightarrow> rat" where
  "elapsed rnd start now = rnd (of_nat (unat (now - start)))"

definition timed_out :: "(rat \<Rightarrow> rat) \<Rightarrow> rat \<Rightarrow> u64 \<Rightarrow> u64 \<Rightarrow> bool" where
  "timed_out rnd seconds start now \<longleftrightarrow> seconds \<ge> 0 \<and> rnd (elapsed rnd start now / 1000000000) \<ge> seconds"

text \<open>Conversion to an integer truncates towards zero.\<close>

definition truncate :: "rat \<Rightarrow> int" where
  "truncate x = (if x < 0 then \<lceil>x\<rceil> else \<lfloor>x\<rfloor>)"

definition select_remaining :: "(rat \<Rightarrow> rat) \<Rightarrow> rat \<Rightarrow> u64 \<Rightarrow> u64 \<Rightarrow> 64 word" where
  "select_remaining rnd seconds start now =
     (let r = (if seconds < 0 then - 1 else truncate (rnd (rnd (seconds * 1000000000) - elapsed rnd start now)))
      in word_of_int (if seconds \<ge> 0 \<and> r < 0 then 0 else r))"

text \<open>Tables of the sockets that are ready, or false after the time.\<close>

datatype select_result = Ready "int list" | Ready_both "int list" "int list" | Timeout

text \<open>The two tables of one pass, with the number of sockets in them.\<close>

definition both_tables ::
    "select_pass \<Rightarrow> int option list option \<Rightarrow> int option list option \<Rightarrow> (int list \<times> int list \<times> nat) option" where
  "both_tables p reads writes =
     (case (case reads of None \<Rightarrow> Some ([], 0) | Some ids \<Rightarrow> ready_table (sp_ready p) False ids 0) of
        None \<Rightarrow> None
      | Some (rs, n) \<Rightarrow>
          (case writes of
             None \<Rightarrow> Some (rs, [], n)
           | Some ids \<Rightarrow> map_option (\<lambda>(ws, n). (rs, ws, n)) (ready_table (sp_ready p) True ids n)))"

text \<open>
  The loop, from pass \<open>n\<close> on; it also gives the revision and the time of every wait. A select that
  never returns is \<open>None\<close>.
\<close>

partial_function (option) select_loop ::
    "(rat \<Rightarrow> rat) \<Rightarrow> (nat \<Rightarrow> select_pass) \<Rightarrow> int option list option \<Rightarrow> int option list option \<Rightarrow> rat \<Rightarrow> u64
      \<Rightarrow> nat \<Rightarrow> (u64 \<times> 64 word) list \<Rightarrow> (select_result lua_outcome \<times> (u64 \<times> 64 word) list) option" where
  "select_loop rnd world reads writes seconds start n slept =
     (case both_tables (world n) reads writes of
        None \<Rightarrow> Some (Lua_error, slept)
      | Some (rs, ws, sockets) \<Rightarrow>
          if length rs + length ws \<noteq> 0
          then Some (Lua_values (if writes \<noteq> None then Ready_both rs ws else Ready rs), slept)
          else if sockets = 0 \<and> seconds < 0 then Some (Lua_error, slept)
          else if timed_out rnd seconds start (sp_now (world n)) then Some (Lua_values Timeout, slept)
          else select_loop rnd world reads writes seconds start (Suc n)
                 (slept @ [(sp_revision (world n), select_remaining rnd seconds start (sp_later (world n)))]))"

declare select_loop.simps [code]

definition table_arg :: "lua_arg list \<Rightarrow> nat \<Rightarrow> int option list option" where
  "table_arg args k = (if k < length args then (case args ! k of Arg_table t \<Rightarrow> Some t | _ \<Rightarrow> None) else None)"

text \<open>\<^verbatim>\<open>luaL_optnumber\<close> with the default of -1.\<close>

definition optnumber :: "lua_arg list \<Rightarrow> nat \<Rightarrow> lua_number option" where
  "optnumber args k =
     (if k < length args
      then (case args ! k of Arg_nil \<Rightarrow> Some (Finite (-1)) | Arg_number x \<Rightarrow> Some x | _ \<Rightarrow> None)
      else Some (Finite (-1)))"

definition select_socket ::
    "(rat \<Rightarrow> rat) \<Rightarrow> (nat \<Rightarrow> select_pass) \<Rightarrow> u64 \<Rightarrow> lua_arg list
      \<Rightarrow> (select_result lua_outcome \<times> (u64 \<times> 64 word) list) option" where
  "select_socket rnd world start args =
     (let reads = table_arg args 0; writes = table_arg args 1;
          index = (if writes \<noteq> None then 3 else if reads \<noteq> None then 2 else 1);
          index = (if reads \<noteq> None \<and> writes = None \<and> length args > 2 \<and> args ! 1 = Arg_nil
                      \<and> (case args ! 2 of Arg_number _ \<Rightarrow> True | _ \<Rightarrow> False)
                   then 3 else index)
      in if length args > index then Some (Lua_error, [])
         else case optnumber args (index - 1) of
           None \<Rightarrow> Some (Lua_error, [])
         | Some Not_finite \<Rightarrow> Some (Lua_error, [])
         | Some (Finite seconds) \<Rightarrow>
             if seconds > 1000000 then Some (Lua_error, [])
             else select_loop rnd world reads writes seconds start 0 [])"

section \<open>Arguments\<close>

lemma parse_mode_spec:
  "parse_mode rd wr mode =
     (if set mode \<subseteq> {CHR ''r'', CHR ''w''}
      then Some (rd \<or> CHR ''r'' \<in> set mode, wr \<or> CHR ''w'' \<in> set mode) else None)"
  by (induction rd wr mode rule: parse_mode.induct) auto

text \<open>Rounding is monotone and exact on integers of moderate size.\<close>

definition rounding :: "(rat \<Rightarrow> rat) \<Rightarrow> bool" where
  "rounding rnd \<longleftrightarrow> mono rnd \<and> (\<forall>k :: int. \<bar>k\<bar> \<le> 2 ^ 53 \<longrightarrow> rnd (of_int k) = of_int k)"

lemma rounding_between:
  assumes "rounding rnd" "of_int a \<le> x" "x \<le> of_int b" "\<bar>a\<bar> \<le> 2 ^ 53" "\<bar>b\<bar> \<le> 2 ^ 53"
  shows "a \<le> \<lceil>rnd x\<rceil> \<and> \<lceil>rnd x\<rceil> \<le> b"
proof -
  have "rnd (of_int a) \<le> rnd x" "rnd x \<le> rnd (of_int b)"
    using assms(1-3) unfolding rounding_def mono_def by blast+
  then have "of_int a \<le> rnd x" "rnd x \<le> of_int b" using assms unfolding rounding_def by metis+
  then show ?thesis by (meson ceiling_le_iff le_of_int_ceiling of_int_le_iff order_trans)
qed

text \<open>The conversions stay within the types they convert to.\<close>

lemma connect_milliseconds:
  assumes "rounding rnd" "0 \<le> s" "s \<le> 1000000"
  shows "0 \<le> \<lceil>rnd (s * 1000)\<rceil> \<and> \<lceil>rnd (s * 1000)\<rceil> \<le> 1000000000"
  using rounding_between [OF assms(1), of 0 "s * 1000" 1000000000] assms(2,3) by simp

lemma sleep_milliseconds:
  assumes "rounding rnd" "0 \<le> m" "m \<le> 1000000000"
  shows "\<exists>w. sleep_socket rnd (Finite m) = Lua_values w \<and> int (unat w) = \<lceil>rnd (m / 1000)\<rceil>"
proof -
  have "0 \<le> \<lceil>rnd (m / 1000)\<rceil> \<and> \<lceil>rnd (m / 1000)\<rceil> \<le> 1000000"
    using rounding_between [OF assms(1), of 0 "m / 1000" 1000000] assms(2,3) by simp
  then have "int (unat (word_of_int \<lceil>rnd (m / 1000)\<rceil> :: u32)) = \<lceil>rnd (m / 1000)\<rceil>"
    by (simp add: unsigned_of_int take_bit_int_eq_self)
  then show ?thesis using assms(2,3) by (simp add: sleep_socket_def)
qed

section \<open>The result of select\<close>

lemma ready_table_spec:
  "ready_table ready writing ids sockets =
     (if \<forall>x \<in> set ids. x \<noteq> None \<and> (the x \<ge> 0 \<longrightarrow> fst (ready (the x)) = UV_OK)
      then Some (filter (\<lambda>i. i \<ge> 0 \<and> (if writing then snd (snd (ready i)) else fst (snd (ready i)))) (map the ids),
                 sockets + length (filter (\<lambda>i. i \<ge> 0) (map the ids)))
      else None)"
  by (induction ready writing ids sockets rule: ready_table.induct) (auto split: prod.splits)

text \<open>The passes at which the loop ends.\<close>

definition stops :: "(rat \<Rightarrow> rat) \<Rightarrow> (nat \<Rightarrow> select_pass) \<Rightarrow> int option list option \<Rightarrow> int option list option
    \<Rightarrow> rat \<Rightarrow> u64 \<Rightarrow> nat \<Rightarrow> bool" where
  "stops rnd world reads writes seconds start n \<longleftrightarrow>
     (case both_tables (world n) reads writes of
        None \<Rightarrow> True
      | Some (rs, ws, sockets) \<Rightarrow> rs \<noteq> [] \<or> ws \<noteq> [] \<or> (sockets = 0 \<and> seconds < 0)
          \<or> timed_out rnd seconds start (sp_now (world n)))"

definition outcome_of :: "(rat \<Rightarrow> rat) \<Rightarrow> select_pass \<Rightarrow> int option list option \<Rightarrow> int option list option
    \<Rightarrow> rat \<Rightarrow> u64 \<Rightarrow> select_result lua_outcome" where
  "outcome_of rnd p reads writes seconds start =
     (case both_tables p reads writes of
        None \<Rightarrow> Lua_error
      | Some (rs, ws, sockets) \<Rightarrow>
          if rs \<noteq> [] \<or> ws \<noteq> [] then Lua_values (if writes \<noteq> None then Ready_both rs ws else Ready rs)
          else if sockets = 0 \<and> seconds < 0 then Lua_error else Lua_values Timeout)"

lemma select_loop_stop:
  "stops rnd world reads writes seconds start n \<Longrightarrow>
     select_loop rnd world reads writes seconds start n slept =
       Some (outcome_of rnd (world n) reads writes seconds start, slept)"
  by (subst select_loop.simps) (auto simp: stops_def outcome_of_def split: option.splits)

lemma select_loop_next:
  "\<not> stops rnd world reads writes seconds start n \<Longrightarrow>
     select_loop rnd world reads writes seconds start n slept =
       select_loop rnd world reads writes seconds start (Suc n)
         (slept @ [(sp_revision (world n), select_remaining rnd seconds start (sp_later (world n)))])"
  by (subst select_loop.simps) (auto simp: stops_def split: option.splits)

lemma select_loop_run:
  assumes "stops rnd world reads writes seconds start n" "\<forall>m. k \<le> m \<and> m < n \<longrightarrow> \<not> stops rnd world reads writes seconds start m"
    and "k \<le> n"
  shows "select_loop rnd world reads writes seconds start k slept =
    Some (outcome_of rnd (world n) reads writes seconds start,
      slept @ map (\<lambda>m. (sp_revision (world m), select_remaining rnd seconds start (sp_later (world m)))) [k..<n])"
  using assms(3,2)
proof (induction k arbitrary: slept rule: inc_induct)
  case base
  then show ?case using select_loop_stop [OF assms(1)] by simp
next
  case (step k)
  then have "\<not> stops rnd world reads writes seconds start k" by simp
  then show ?case using step by (simp add: select_loop_next upt_conv_Cons)
qed


definition ex_pass :: "bool \<Rightarrow> select_pass" where
  "ex_pass b = \<lparr>sp_revision = 4, sp_ready = (\<lambda>_. (UV_OK, b, False)), sp_now = 0, sp_later = 0\<rparr>"


section \<open>The end of the stream\<close>

text \<open>
  Receiving in Lua: while received data is left, a call returns its next 4096 bytes or what there is, never an empty
  string, and takes exactly these from the connection. The empty string is returned exactly if all data has been
  taken and the peer has closed; nothing is returned if data may still come, and any other
  end of the stream is raised as an error, after the data.
\<close>

theorem recv_socket_stream:
  assumes "find_connection i c = Some cn" "ce_async_send env = UV_OK" "recv_socket env i (Some c) = (out, runtime)"
  shows "\<exists>c'. runtime = Some c' \<and>
    (if cn_received cn \<noteq> []
     then out = Lua_values (Some (take 4096 (cn_received cn)))
       \<and> cl_connections c' = map (\<lambda>x. if cn_id x = i then take_received env (min 4096 (length (cn_received cn))) x else x) (cl_connections c)
     else cl_connections c' = cl_connections c
       \<and> out = (if cn_read_status cn = UV_OK \<or> cn_read_status cn = UV_EAGAIN then Lua_values None
                else if cn_read_status cn = UV_EOF then Lua_values (Some [])
                else Lua_error))"
proof -
  let ?c = "c\<lparr>cl_request := request0\<lparr>rq_id := i, rq_size := 4096\<rparr>, cl_waiting := True\<rparr>"
  obtain result c1 where r: "receive_data env ?c = (result, c1)" by fastforce
  have f: "find_connection i ?c = Some cn" using assms(1) by (simp add: find_connection_def)
  have o: "(out, runtime) = (if result = UV_EAGAIN then Lua_values None
      else if result \<noteq> UV_OK \<and> result \<noteq> UV_EOF then Lua_error
      else Lua_values (Some (take (rq_size (cl_request c1)) (rq_data (cl_request c1)))), Some (c1\<lparr>cl_waiting := False\<rparr>))"
    using assms(2,3) r
    by (auto simp: recv_socket_def skyuv_client_runtime_recv_def client_call_def waits_def skyuv_client_runtime_call_def)
  show ?thesis
  proof (cases "cn_received cn = []")
    case True
    then have "result = (if cn_read_status cn \<noteq> UV_OK then cn_read_status cn else UV_EAGAIN)"
      "c1 = upd_request (\<lambda>r. r\<lparr>rq_size := 0\<rparr>) ?c"
      using r f by (simp_all add: receive_data_def Let_def)
    then show ?thesis using o True by (auto simp: upd_request_def)
  next
    case False
    let ?n = "min 4096 (length (cn_received cn))"
    have "result = UV_OK" "c1 = upd_connection i (take_received env ?n)
        (upd_request (\<lambda>r. r\<lparr>rq_size := ?n, rq_data := take ?n (cn_received cn)\<rparr>) ?c)"
      using r f False by (simp_all add: receive_data_def Let_def)
    moreover have "take ?n (take ?n (cn_received cn)) = take 4096 (cn_received cn)" by (simp add: min_def)
    ultimately show ?thesis using o False by (simp add: upd_request_def upd_connection_def)
  qed
qed

theorem recv_socket_stream_witness:
  "(case recv_socket env_ok 1 (Some (ex_state (ex_online @ [Ev_received 1 (Inr [10, 20]), Ev_received 1 (Inl UV_EOF)]))) of
      (out, runtime) \<Rightarrow> out = Lua_values (Some [10, 20])
        \<and> fst (recv_socket env_ok 1 runtime) = Lua_values (Some []))"
proof -
  let ?c = "ex_state (ex_online @ [Ev_received 1 (Inr [10, 20]), Ev_received 1 (Inl UV_EOF)])"
  obtain out runtime where r: "recv_socket env_ok 1 (Some ?c) = (out, runtime)" by fastforce
  have c: "map_option cn_received (find_connection 1 ?c) = Some [10, 20]" by code_simp
  then obtain cn where cn: "find_connection 1 ?c = Some cn" "cn_received cn = [10, 20]" by auto
  have e: "ce_async_send env_ok = UV_OK" by (simp add: env_ok_def)
  have "out = Lua_values (Some [10, 20])" using recv_socket_stream [OF cn(1) e r] cn(2) by auto
  moreover have "fst (recv_socket env_ok 1 (snd (recv_socket env_ok 1 (Some ?c)))) = Lua_values (Some [])" by code_simp
  ultimately show ?thesis using r by simp
qed

end
