(* ===== verification/Socket_Server.thy ===== *)
theory Socket_Server
  imports Socket_Run
begin

text \<open>
  Skynet's socket interface over the runtime (\<^verbatim>\<open>src/src/socket/socket_server_compat.c\<close>,
  \<^verbatim>\<open>socket_info_compat.c\<close>) and the two control functions it calls
  (\<^verbatim>\<open>src/src/compat/skynet/skyuv_control.c\<close>). A NULL server is \<open>None\<close>. The runtime pointer of a
  server is never NULL, since creation fails when the runtime cannot be created.
\<close>

section \<open>State\<close>

text \<open>
  The user object interface: three function pointers that may be NULL. Calling \<^verbatim>\<open>free\<close> is
  recorded in \<open>sv_objects\<close>; \<open>sv_freed\<close> records the buffers given to \<^verbatim>\<open>skyuv_free\<close>.
\<close>

record object_interface =
  oi_buffer :: "(ptr \<Rightarrow> ptr) option"
  oi_size :: "(ptr \<Rightarrow> size_t) option"
  oi_free :: bool

record server =
  sv_runtime :: runtime
  sv_interface :: object_interface
  sv_freed :: "ptr list"
  sv_objects :: "ptr list"

text \<open>Skynet's send buffer; \<open>SB_RAWPOINTER\<close> stands for every type but the first two.\<close>

datatype sendbuffer_type = SB_MEMORY | SB_OBJECT | SB_RAWPOINTER

record sendbuffer =
  sb_id :: sock_id
  sb_type :: sendbuffer_type
  sb_buffer :: "ptr option"
  sb_sz :: size_t

section \<open>Creation and release\<close>

definition socket_server_create :: "bool \<Rightarrow> create_env \<Rightarrow> u64 \<Rightarrow> server option" where
  "socket_server_create alloc k tm =
     (if \<not> alloc then None
      else case skyuv_socket_runtime_create k (Some None) of
             (r, rt) \<Rightarrow>
               if r \<noteq> SKYUV_OK then None
               else map_option (\<lambda>rt. \<lparr>sv_runtime = rt,
                      sv_interface = \<lparr>oi_buffer = None, oi_size = None, oi_free = False\<rparr>,
                      sv_freed = [], sv_objects = []\<rparr>) rt)"

definition socket_server_release :: "build_config \<Rightarrow> (runtime \<Rightarrow> runtime) \<Rightarrow> server option \<Rightarrow> runtime option" where
  "socket_server_release cfg uv_run server =
     (case server of
        None \<Rightarrow> None
      | Some sv \<Rightarrow> snd (skyuv_socket_runtime_release cfg uv_run (Some (Some (sv_runtime sv)))))"

section \<open>Control\<close>

text \<open>
  Skynet's functions are parameters: the handle of the service called \<^verbatim>\<open>logger\<close> (0 when there is
  none) and the result of pushing a message. The message pushed is the second component.
\<close>

record skynet_message =
  m_source :: u32
  m_session :: int
  m_data :: "ptr option"
  m_sz :: size_t

definition skyuv_skynet_reopen_log :: "u32 \<Rightarrow> int \<Rightarrow> bool \<times> (u32 \<times> skynet_message) option" where
  "skyuv_skynet_reopen_log logger pushed =
     (if logger = 0 then (False, None)
      else (pushed = 0, Some (logger, \<lparr>m_source = 0, m_session = 0, m_data = None,
              m_sz = push_bit 56 4\<rparr>)))"

text \<open>The second component: \<^verbatim>\<open>skyuv_skynet_shutdown\<close> retires all services.\<close>

definition socket_server_updatetime :: "server option \<Rightarrow> u64 \<Rightarrow> server option \<times> bool" where
  "socket_server_updatetime server tm =
     (case server of
        None \<Rightarrow> (None, False)
      | Some sv \<Rightarrow>
          case skyuv_socket_runtime_take_process_shutdown
                 (skyuv_socket_runtime_updatetime (Some (sv_runtime sv)) tm) of
            (shutdown, rt) \<Rightarrow> (Some (sv\<lparr>sv_runtime := the rt\<rparr>), shutdown))"

section \<open>Polling\<close>

text \<open>
  \<^verbatim>\<open>struct socket_message\<close>: \<open>ud\<close> is the size for data and datagrams, cut to an \<^verbatim>\<open>int\<close>, and the value
  of the event otherwise; the data of an error is the text of its code.
\<close>

datatype message_data = Msg_data "(ptr option \<times> bytes) option" | Msg_strerror event_value

record socket_message =
  sm_id :: sock_id
  sm_opaque :: uintptr
  sm_ud :: event_value
  sm_data :: message_data

definition event_message :: "event \<Rightarrow> socket_message" where
  "event_message ev = \<lparr>sm_id = ev_id ev, sm_opaque = ev_opaque ev,
     sm_ud = (if ev_type ev = EVENT_DATA \<or> ev_type ev = EVENT_UDP
              then V_int (sint (ucast (ev_size ev) :: 32 word)) else ev_value ev),
     sm_data = (if ev_type ev = EVENT_ERROR then Msg_strerror (ev_value ev) else Msg_data (ev_data ev))\<rparr>"

text \<open>
  The loop of \<^verbatim>\<open>socket_server_poll\<close>. \<open>env n\<close> and \<open>uv_run n\<close> belong to the \<open>n\<close>-th call of the
  runtime's poll function; \<open>reopened\<close> counts the calls of \<^verbatim>\<open>skyuv_skynet_reopen_log\<close>. The result
  \<open>None\<close> inside is \<^verbatim>\<open>SOCKET_ERR\<close>.
\<close>

partial_function (option) server_poll_loop ::
    "(nat \<Rightarrow> uv_env) \<Rightarrow> (nat \<Rightarrow> nat \<Rightarrow> runtime \<Rightarrow> bool \<times> runtime) \<Rightarrow> nat \<Rightarrow> nat \<Rightarrow> runtime
      \<Rightarrow> (event option \<times> nat \<times> runtime) option" where
  "server_poll_loop env uv_run n reopened rt =
     Option.bind (skyuv_socket_runtime_poll (env n) (uv_run n) (Some rt) True) (\<lambda>res.
       let r = fst res; ev = the (fst (snd res)); rt1 = the (snd (snd res))
       in if r \<noteq> SKYUV_OK then Some (None, reopened, rt1)
          else if ev_type ev = EVENT_REOPEN_LOG then server_poll_loop env uv_run (Suc n) (Suc reopened) rt1
          else if ev_type ev = EVENT_PROCESS_SHUTDOWN then server_poll_loop env uv_run (Suc n) reopened rt1
          else Some (Some ev, reopened, rt1))"

text \<open>\<open>None\<close>: the poll does not return. The type, the message, \<open>*more\<close>, the server.\<close>

definition socket_server_poll ::
    "(nat \<Rightarrow> uv_env) \<Rightarrow> (nat \<Rightarrow> nat \<Rightarrow> runtime \<Rightarrow> bool \<times> runtime) \<Rightarrow> server option \<Rightarrow> bool
      \<Rightarrow> ((event_type \<times> socket_message) option \<times> nat \<times> server option) option" where
  "socket_server_poll env uv_run server result_ptr =
     (case server of
        None \<Rightarrow> Some (None, 0, None)
      | Some sv \<Rightarrow>
          if \<not> result_ptr then Some (None, 0, server)
          else map_option (\<lambda>(ev, reopened, rt).
                 (map_option (\<lambda>ev. (ev_type ev, event_message ev)) ev, reopened, Some (sv\<lparr>sv_runtime := rt\<rparr>)))
                 (server_poll_loop env uv_run 0 0 (sv_runtime sv)))"

section \<open>Calls that only reach the runtime\<close>

text \<open>The runtime functions called with the server's runtime; the new id is \<open>-1\<close> for an error.\<close>

definition runtime_call :: "(runtime option \<Rightarrow> skyuv_error \<times> runtime option) \<Rightarrow> server \<Rightarrow> skyuv_error \<times> server" where
  "runtime_call f sv =
     (case f (Some (sv_runtime sv)) of (r, rt) \<Rightarrow> (r, sv\<lparr>sv_runtime := the rt\<rparr>))"

definition runtime_open ::
    "(runtime option \<Rightarrow> skyuv_error \<times> sock_id option \<times> runtime option) \<Rightarrow> server option \<Rightarrow> sock_id \<times> server option" where
  "runtime_open f server =
     (case server of
        None \<Rightarrow> (-1, None)
      | Some sv \<Rightarrow>
          case f (Some (sv_runtime sv)) of
            (r, i, rt) \<Rightarrow> (if r \<noteq> SKYUV_OK then -1 else the i, Some (sv\<lparr>sv_runtime := the rt\<rparr>)))"

definition socket_server_exit :: "api_env \<Rightarrow> server option \<Rightarrow> server option" where
  "socket_server_exit a server = map_option (\<lambda>sv. snd (runtime_call (skyuv_socket_runtime_exit a) sv)) server"

definition socket_server_close :: "api_env \<Rightarrow> server option \<Rightarrow> uintptr \<Rightarrow> sock_id \<Rightarrow> server option" where
  "socket_server_close a server opq i =
     map_option (\<lambda>sv. snd (runtime_call (\<lambda>rt. skyuv_socket_runtime_close a rt i opq) sv)) server"

definition socket_server_shutdown :: "api_env \<Rightarrow> server option \<Rightarrow> uintptr \<Rightarrow> sock_id \<Rightarrow> server option" where
  "socket_server_shutdown a server opq i =
     map_option (\<lambda>sv. snd (runtime_call (\<lambda>rt. skyuv_socket_runtime_shutdown a rt i opq) sv)) server"

definition socket_server_start :: "api_env \<Rightarrow> server option \<Rightarrow> uintptr \<Rightarrow> sock_id \<Rightarrow> server option" where
  "socket_server_start a server opq i =
     map_option (\<lambda>sv. snd (runtime_call (\<lambda>rt. skyuv_socket_runtime_start a rt i opq) sv)) server"

definition socket_server_pause :: "api_env \<Rightarrow> server option \<Rightarrow> uintptr \<Rightarrow> sock_id \<Rightarrow> server option" where
  "socket_server_pause a server opq i =
     map_option (\<lambda>sv. snd (runtime_call (\<lambda>rt. skyuv_socket_runtime_pause a rt i opq) sv)) server"

definition socket_server_nodelay :: "api_env \<Rightarrow> server option \<Rightarrow> sock_id \<Rightarrow> server option" where
  "socket_server_nodelay a server i =
     map_option (\<lambda>sv. snd (runtime_call (\<lambda>rt. skyuv_socket_runtime_nodelay a rt i) sv)) server"

definition socket_server_listen ::
    "build_config \<Rightarrow> api_env \<Rightarrow> server option \<Rightarrow> uintptr \<Rightarrow> string option \<Rightarrow> int \<Rightarrow> int \<Rightarrow> sock_id \<times> server option" where
  "socket_server_listen cfg a server opq address port backlog =
     runtime_open (\<lambda>rt. skyuv_socket_runtime_listen cfg a rt address port backlog opq True) server"

definition socket_server_connect ::
    "build_config \<Rightarrow> api_env \<Rightarrow> server option \<Rightarrow> uintptr \<Rightarrow> string option \<Rightarrow> int \<Rightarrow> sock_id \<times> server option" where
  "socket_server_connect cfg a server opq address port =
     runtime_open (\<lambda>rt. skyuv_socket_runtime_connect cfg a rt address port opq True) server"

definition socket_server_bind ::
    "build_config \<Rightarrow> api_env \<Rightarrow> server option \<Rightarrow> uintptr \<Rightarrow> int \<Rightarrow> sock_id \<times> server option" where
  "socket_server_bind cfg a server opq fd =
     runtime_open (\<lambda>rt. skyuv_socket_runtime_bind cfg a rt fd opq True) server"

definition socket_server_userobject :: "server option \<Rightarrow> object_interface option \<Rightarrow> server option" where
  "socket_server_userobject server oi =
     (case oi of None \<Rightarrow> server | Some oi \<Rightarrow> map_option (\<lambda>sv. sv\<lparr>sv_interface := oi\<rparr>) server)"

definition socket_server_udp ::
    "build_config \<Rightarrow> api_env \<Rightarrow> server option \<Rightarrow> uintptr \<Rightarrow> string option \<Rightarrow> int \<Rightarrow> sock_id \<times> server option" where
  "socket_server_udp cfg a server opq address port =
     runtime_open (\<lambda>rt. skyuv_socket_runtime_udp cfg a rt address port opq True) server"

definition socket_server_udp_listen ::
    "build_config \<Rightarrow> api_env \<Rightarrow> server option \<Rightarrow> uintptr \<Rightarrow> string option \<Rightarrow> int \<Rightarrow> sock_id \<times> server option" where
  "socket_server_udp_listen cfg a server opq address port = socket_server_udp cfg a server opq address port"

definition socket_server_udp_connect ::
    "api_env \<Rightarrow> server option \<Rightarrow> sock_id \<Rightarrow> string option \<Rightarrow> int \<Rightarrow> int \<times> server option" where
  "socket_server_udp_connect a server i address port =
     (case server of
        None \<Rightarrow> (-1, None)
      | Some sv \<Rightarrow>
          case runtime_call (\<lambda>rt. skyuv_socket_runtime_udp_connect a rt i address port) sv of
            (r, sv1) \<Rightarrow> (if r = SKYUV_OK then 0 else -1, Some sv1))"

text \<open>\<open>a1\<close> and \<open>a2\<close>: the allocations of the two calls.\<close>

definition socket_server_udp_dial ::
    "build_config \<Rightarrow> api_env \<Rightarrow> api_env \<Rightarrow> server option \<Rightarrow> uintptr \<Rightarrow> string option \<Rightarrow> int
      \<Rightarrow> sock_id \<times> server option" where
  "socket_server_udp_dial cfg a1 a2 server opq address port =
     (case socket_server_udp cfg a1 server opq
             (if address \<noteq> None \<and> CHR '':'' \<in> set (the address) then Some ''::'' else None) 0 of
        (i, server1) \<Rightarrow>
          if sint i < 0 then (-1, server1)
          else case socket_server_udp_connect a2 server1 i address port of
                 (r, server2) \<Rightarrow> if r \<noteq> 0 then (-1, server2) else (i, server2))"

section \<open>Sending\<close>

definition release_sendbuffer :: "sendbuffer \<Rightarrow> server \<Rightarrow> server" where
  "release_sendbuffer b sv =
     (if sb_type b = SB_MEMORY then sv\<lparr>sv_freed := sv_freed sv @ [the (sb_buffer b)]\<rparr>
      else if sb_type b = SB_OBJECT \<and> oi_free (sv_interface sv)
      then sv\<lparr>sv_objects := sv_objects sv @ [the (sb_buffer b)]\<rparr>
      else sv)"

text \<open>
  The two ways of sending, which \<^verbatim>\<open>send_buffer\<close> and \<^verbatim>\<open>socket_server_udp_send\<close> share. \<open>send\<close> is the
  runtime's function, \<open>copy\<close> the result of the allocation of the copy of an object.
\<close>

type_synonym send_fn =
  "runtime option \<Rightarrow> ptr option \<Rightarrow> size_t \<Rightarrow> buffer_ownership \<Rightarrow> skyuv_error \<times> runtime option"

definition send_object :: "send_fn \<Rightarrow> ptr option \<Rightarrow> sendbuffer \<Rightarrow> server \<Rightarrow> int \<times> server" where
  "send_object send copy b sv =
     (case (oi_buffer (sv_interface sv), oi_size (sv_interface sv), oi_free (sv_interface sv)) of
        (Some data_of, Some size_of, True) \<Rightarrow>
          (case copy of
             None \<Rightarrow> (-1, release_sendbuffer b sv)
           | Some p \<Rightarrow>
               (case runtime_call (\<lambda>rt. send rt (Some p) (size_of (the (sb_buffer b))) BUFFER_OWNED)
                       (release_sendbuffer b sv) of
                  (r, sv1) \<Rightarrow>
                    if r \<noteq> SKYUV_OK then (-1, sv1\<lparr>sv_freed := sv_freed sv1 @ [p]\<rparr>) else (0, sv1)))
      | _ \<Rightarrow> (-1, sv))"

definition send_plain :: "send_fn \<Rightarrow> sendbuffer \<Rightarrow> server \<Rightarrow> int \<times> server" where
  "send_plain send b sv =
     (case runtime_call (\<lambda>rt. send rt (sb_buffer b) (sb_sz b)
             (if sb_type b = SB_MEMORY then BUFFER_OWNED else BUFFER_BORROWED)) sv of
        (r, sv1) \<Rightarrow>
          if r \<noteq> SKYUV_OK
          then (-1, if sb_type b = SB_MEMORY then release_sendbuffer b sv1 else sv1)
          else (0, sv1))"

definition send_buffer ::
    "api_env \<Rightarrow> ptr option \<Rightarrow> server option \<Rightarrow> sendbuffer option \<Rightarrow> bool \<Rightarrow> int \<times> server option" where
  "send_buffer a copy server buffer low_priority =
     (case (server, buffer) of
        (Some sv, Some b) \<Rightarrow>
          if sb_buffer b = None then (-1, server)
          else
            let send = (\<lambda>rt data sz own.
                  if low_priority then skyuv_socket_runtime_send_low a rt (sb_id b) data sz own None
                  else skyuv_socket_runtime_send a rt (sb_id b) data sz own None)
            in map_prod id Some
                 (if sb_type b = SB_OBJECT then send_object send copy b sv else send_plain send b sv)
      | _ \<Rightarrow> (-1, server))"

definition socket_server_send ::
    "api_env \<Rightarrow> ptr option \<Rightarrow> server option \<Rightarrow> sendbuffer option \<Rightarrow> int \<times> server option" where
  "socket_server_send a copy server buffer = send_buffer a copy server buffer False"

definition socket_server_send_lowpriority ::
    "api_env \<Rightarrow> ptr option \<Rightarrow> server option \<Rightarrow> sendbuffer option \<Rightarrow> int \<times> server option" where
  "socket_server_send_lowpriority a copy server buffer = send_buffer a copy server buffer True"

section \<open>Datagrams\<close>

text \<open>The size of an encoded address from its first byte; 0 when it is none.\<close>

definition encoded_size :: "bytes \<Rightarrow> size_t" where
  "encoded_size encoded = (if encoded ! 0 = 1 then 7 else if encoded ! 0 = 2 then 19 else 0)"

definition socket_server_udp_send ::
    "api_env \<Rightarrow> ptr option \<Rightarrow> server option \<Rightarrow> bytes option \<Rightarrow> sendbuffer option \<Rightarrow> int \<times> server option" where
  "socket_server_udp_send a copy server address buffer =
     (case (server, buffer, address) of
        (Some sv, Some b, Some encoded) \<Rightarrow>
          if sb_buffer b = None then (-1, server)
          else if encoded_size encoded = 0 then (-1, Some (release_sendbuffer b sv))
          else
            let send = (\<lambda>rt data sz own. skyuv_socket_runtime_udp_send a rt (sb_id b) (Some encoded)
                  (encoded_size encoded) data sz own None)
            in map_prod id Some
                 (if sb_type b = SB_OBJECT then send_object send copy b sv else send_plain send b sv)
      | _ \<Rightarrow> (-1, server))"

text \<open>
  \<^verbatim>\<open>socket_server_udp_address\<close>: the encoded address behind the payload, as the bytes from there
  on, and its size.
\<close>

definition socket_server_udp_address :: "socket_message option \<Rightarrow> bytes option \<times> size_t" where
  "socket_server_udp_address message =
     (case message of
        None \<Rightarrow> (None, 0)
      | Some m \<Rightarrow>
          (case (sm_data m, sm_ud m) of
             (Msg_data (Some (Some p, bs)), V_int ud) \<Rightarrow>
               if ud < 0 then (None, 0)
               else let address = drop (nat ud) bs
                    in (if encoded_size address = 0 then None else Some address, encoded_size address)
           | _ \<Rightarrow> (None, 0)))"

section \<open>Information\<close>

record server_info =
  si_id :: sock_id
  si_type :: info_type
  si_opaque :: u64
  si_read :: u64
  si_write :: u64
  si_rtime :: u64
  si_wtime :: u64
  si_wbuffer :: int
  si_reading :: nat
  si_writing :: nat
  si_name :: string

definition convert_info :: "socket_info \<Rightarrow> server_info" where
  "convert_info i = \<lparr>si_id = i_id i,
     si_type = (if i_type i = INFO_LISTEN then INFO_LISTEN
                else if i_type i = INFO_UDP then INFO_UDP
                else if i_type i = INFO_CLOSING then INFO_CLOSING else INFO_TCP),
     si_opaque = i_opaque i, si_read = i_read i, si_write = i_write i,
     si_rtime = i_rtime i, si_wtime = i_wtime i,
     si_wbuffer = (if uint (i_wbuffer i) > 2 ^ 63 - 1 then 2 ^ 63 - 1 else uint (i_wbuffer i)),
     si_reading = (if i_reading i then 1 else 0), si_writing = (if i_writing i then 1 else 0),
     si_name = i_name i\<rparr>"

text \<open>
  The loop over the snapshot. \<^verbatim>\<open>socket_info_create\<close> appends a zeroed record to the last one;
  \<open>alloc n\<close> is the outcome of the \<open>n\<close>-th allocation, and a failure ends the list.
\<close>

fun convert_infos :: "(nat \<Rightarrow> bool) \<Rightarrow> nat \<Rightarrow> socket_info list \<Rightarrow> server_info list" where
  "convert_infos alloc n [] = []"
| "convert_infos alloc n (i # is) =
     (if \<not> alloc n then [] else convert_info i # convert_infos alloc (Suc n) is)"

definition socket_server_info ::
    "build_config \<Rightarrow> (nat \<Rightarrow> bool) \<Rightarrow> (nat \<Rightarrow> bool) \<Rightarrow> server option \<Rightarrow> server_info list" where
  "socket_server_info cfg alloc1 alloc2 server =
     (case server of
        None \<Rightarrow> []
      | Some sv \<Rightarrow> convert_infos alloc2 0 (skyuv_socket_runtime_info cfg alloc1 (Some (sv_runtime sv))))"

end
