(* ===== verification/Server_Properties.thy ===== *)
theory Server_Properties
  imports Socket_Server
begin

text \<open>
  What Skynet's socket interface adds to the runtime: its calls are runs of the runtime's
  functions, every send buffer is disposed of once, the internal events stay hidden, and the
  sender of a datagram can be answered.
\<close>

section \<open>Calls are runs of the runtime\<close>

datatype server_call =
    Call_exit | Call_close uintptr sock_id | Call_shutdown uintptr sock_id | Call_start uintptr sock_id
  | Call_pause uintptr sock_id | Call_nodelay sock_id | Call_listen uintptr "string option" int int
  | Call_connect uintptr "string option" int | Call_bind uintptr int | Call_udp uintptr "string option" int
  | Call_udp_connect sock_id "string option" int | Call_udp_dial api_env uintptr "string option" int
  | Call_send "ptr option" sendbuffer | Call_send_low "ptr option" sendbuffer
  | Call_udp_send "ptr option" "bytes option" sendbuffer | Call_updatetime u64
  | Call_userobject object_interface

fun server_do :: "build_config \<Rightarrow> api_env \<Rightarrow> server_call \<Rightarrow> server \<Rightarrow> server option" where
  "server_do cfg a Call_exit sv = socket_server_exit a (Some sv)"
| "server_do cfg a (Call_close opq i) sv = socket_server_close a (Some sv) opq i"
| "server_do cfg a (Call_shutdown opq i) sv = socket_server_shutdown a (Some sv) opq i"
| "server_do cfg a (Call_start opq i) sv = socket_server_start a (Some sv) opq i"
| "server_do cfg a (Call_pause opq i) sv = socket_server_pause a (Some sv) opq i"
| "server_do cfg a (Call_nodelay i) sv = socket_server_nodelay a (Some sv) i"
| "server_do cfg a (Call_listen opq h p b) sv = snd (socket_server_listen cfg a (Some sv) opq h p b)"
| "server_do cfg a (Call_connect opq h p) sv = snd (socket_server_connect cfg a (Some sv) opq h p)"
| "server_do cfg a (Call_bind opq fd) sv = snd (socket_server_bind cfg a (Some sv) opq fd)"
| "server_do cfg a (Call_udp opq h p) sv = snd (socket_server_udp_listen cfg a (Some sv) opq h p)"
| "server_do cfg a (Call_udp_connect i h p) sv = snd (socket_server_udp_connect a (Some sv) i h p)"
| "server_do cfg a (Call_udp_dial a2 opq h p) sv = snd (socket_server_udp_dial cfg a a2 (Some sv) opq h p)"
| "server_do cfg a (Call_send copy b) sv = snd (socket_server_send a copy (Some sv) (Some b))"
| "server_do cfg a (Call_send_low copy b) sv = snd (socket_server_send_lowpriority a copy (Some sv) (Some b))"
| "server_do cfg a (Call_udp_send copy addr b) sv = snd (socket_server_udp_send a copy (Some sv) addr (Some b))"
| "server_do cfg a (Call_updatetime tm) sv = fst (socket_server_updatetime (Some sv) tm)"
| "server_do cfg a (Call_userobject oi) sv = socket_server_userobject (Some sv) (Some oi)"

text \<open>The runtime functions keep a runtime.\<close>

lemma runtime_kept:
  "\<exists>rt'. snd (submit_for_id a (Some rt) c) = Some rt'"
  "\<exists>rt'. snd (skyuv_socket_runtime_start a (Some rt) i opq) = Some rt'"
  "\<exists>rt'. snd (skyuv_socket_runtime_exit a (Some rt)) = Some rt'"
  "\<exists>rt'. snd (runtime_send a (Some rt) i data sz own rel low) = Some rt'"
  "\<exists>rt'. snd (skyuv_socket_runtime_udp_send a (Some rt) i addr asz data sz own rel) = Some rt'"
  "\<exists>rt'. snd (skyuv_socket_runtime_udp_connect a (Some rt) i host port) = Some rt'"
  by (auto simp: submit_for_id_def skyuv_socket_runtime_start_def skyuv_socket_runtime_exit_def
      runtime_send_def skyuv_socket_runtime_udp_send_def skyuv_socket_runtime_udp_connect_def
      split: prod.splits option.splits)

lemma runtime_kept_open:
  "\<exists>rt'. snd (snd (skyuv_socket_runtime_listen cfg a (Some rt) host port backlog opq p)) = Some rt'"
  "\<exists>rt'. snd (snd (skyuv_socket_runtime_connect cfg a (Some rt) host port opq p)) = Some rt'"
  "\<exists>rt'. snd (snd (skyuv_socket_runtime_udp cfg a (Some rt) host port opq p)) = Some rt'"
  "\<exists>rt'. snd (snd (skyuv_socket_runtime_bind cfg a (Some rt) fd opq p)) = Some rt'"
  by (auto simp: skyuv_socket_runtime_listen_def skyuv_socket_runtime_connect_def
      skyuv_socket_runtime_udp_def skyuv_socket_runtime_bind_def Let_def split: prod.splits option.splits)

lemmas kept_defs = skyuv_socket_runtime_close_def skyuv_socket_runtime_shutdown_def
  skyuv_socket_runtime_pause_def skyuv_socket_runtime_nodelay_def
  skyuv_socket_runtime_send_def skyuv_socket_runtime_send_low_def

text \<open>A call of a runtime function through a server is a step of the runtime.\<close>

lemma runtime_call_step:
  assumes "\<And>rt. \<exists>rt'. snd (f (Some rt)) = Some rt'"
    and "\<And>rt r rt'. f (Some rt) = (r, Some rt') \<Longrightarrow> api_step cfg rt rt'"
  shows "api_step cfg (sv_runtime sv) (sv_runtime (snd (runtime_call f sv)))"
proof -
  obtain r rt' where "f (Some (sv_runtime sv)) = (r, Some rt')" using assms(1) by (metis prod.collapse)
  then show ?thesis using assms(2) by (simp add: runtime_call_def)
qed

lemma runtime_open_step:
  assumes "snd (runtime_open f (Some sv)) = Some sv'"
    and "\<And>rt. \<exists>rt'. snd (snd (f (Some rt))) = Some rt'"
    and "\<And>rt r i rt'. f (Some rt) = (r, i, Some rt') \<Longrightarrow> api_step cfg rt rt'"
  shows "api_step cfg (sv_runtime sv) (sv_runtime sv')"
proof -
  obtain r i rt' where "f (Some (sv_runtime sv)) = (r, i, Some rt')" using assms(2) by (metis prod.collapse)
  then show ?thesis using assms(1,3) by (auto simp: runtime_open_def)
qed

lemma server_open_steps:
  "snd (socket_server_listen cfg a (Some sv) opq h p b) = Some sv' \<Longrightarrow> api_step cfg (sv_runtime sv) (sv_runtime sv')"
  "snd (socket_server_connect cfg a (Some sv) opq h p) = Some sv' \<Longrightarrow> api_step cfg (sv_runtime sv) (sv_runtime sv')"
  "snd (socket_server_bind cfg a (Some sv) opq fd) = Some sv' \<Longrightarrow> api_step cfg (sv_runtime sv) (sv_runtime sv')"
  "snd (socket_server_udp cfg a (Some sv) opq h p) = Some sv' \<Longrightarrow> api_step cfg (sv_runtime sv) (sv_runtime sv')"
  unfolding socket_server_listen_def socket_server_connect_def socket_server_bind_def socket_server_udp_def
  by (erule runtime_open_step, rule runtime_kept_open, erule api_listen api_connect api_bind api_udp)+

lemma server_id_steps:
  "socket_server_exit a (Some sv) = Some sv' \<Longrightarrow> api_step cfg (sv_runtime sv) (sv_runtime sv')"
  "socket_server_close a (Some sv) opq i = Some sv' \<Longrightarrow> api_step cfg (sv_runtime sv) (sv_runtime sv')"
  "socket_server_shutdown a (Some sv) opq i = Some sv' \<Longrightarrow> api_step cfg (sv_runtime sv) (sv_runtime sv')"
  "socket_server_start a (Some sv) opq i = Some sv' \<Longrightarrow> api_step cfg (sv_runtime sv) (sv_runtime sv')"
  "socket_server_pause a (Some sv) opq i = Some sv' \<Longrightarrow> api_step cfg (sv_runtime sv) (sv_runtime sv')"
  "socket_server_nodelay a (Some sv) i = Some sv' \<Longrightarrow> api_step cfg (sv_runtime sv) (sv_runtime sv')"
proof -
  show "socket_server_exit a (Some sv) = Some sv' \<Longrightarrow> api_step cfg (sv_runtime sv) (sv_runtime sv')"
    using runtime_call_step [of "skyuv_socket_runtime_exit a", OF runtime_kept(3) api_exit]
    by (auto simp: socket_server_exit_def)
  show "socket_server_close a (Some sv) opq i = Some sv' \<Longrightarrow> api_step cfg (sv_runtime sv) (sv_runtime sv')"
    using runtime_call_step [of "\<lambda>rt. skyuv_socket_runtime_close a rt i opq", OF _ api_close]
    by (auto simp: socket_server_close_def kept_defs runtime_kept)
  show "socket_server_shutdown a (Some sv) opq i = Some sv' \<Longrightarrow> api_step cfg (sv_runtime sv) (sv_runtime sv')"
    using runtime_call_step [of "\<lambda>rt. skyuv_socket_runtime_shutdown a rt i opq", OF _ api_shutdown]
    by (auto simp: socket_server_shutdown_def kept_defs runtime_kept)
  show "socket_server_start a (Some sv) opq i = Some sv' \<Longrightarrow> api_step cfg (sv_runtime sv) (sv_runtime sv')"
    using runtime_call_step [of "\<lambda>rt. skyuv_socket_runtime_start a rt i opq", OF runtime_kept(2) api_start]
    by (auto simp: socket_server_start_def)
  show "socket_server_pause a (Some sv) opq i = Some sv' \<Longrightarrow> api_step cfg (sv_runtime sv) (sv_runtime sv')"
    using runtime_call_step [of "\<lambda>rt. skyuv_socket_runtime_pause a rt i opq", OF _ api_pause]
    by (auto simp: socket_server_pause_def kept_defs runtime_kept)
  show "socket_server_nodelay a (Some sv) i = Some sv' \<Longrightarrow> api_step cfg (sv_runtime sv) (sv_runtime sv')"
    using runtime_call_step [of "\<lambda>rt. skyuv_socket_runtime_nodelay a rt i", OF _ api_nodelay]
    by (auto simp: socket_server_nodelay_def kept_defs runtime_kept)
qed

lemma server_udp_connect_step:
  assumes "socket_server_udp_connect a (Some sv) i h p = (r, Some sv')"
  shows "api_step cfg (sv_runtime sv) (sv_runtime sv')"
  using runtime_call_step [of "\<lambda>rt. skyuv_socket_runtime_udp_connect a rt i h p", OF runtime_kept(6) api_udp_connect,
      where sv = sv] assms
  by (auto simp: socket_server_udp_connect_def split: prod.splits)

lemma server_some:
  "\<exists>sv'. snd (runtime_open f (Some sv)) = Some sv'" "\<exists>sv'. snd (socket_server_udp_connect a (Some sv) i h p) = Some sv'"
  by (auto simp: runtime_open_def socket_server_udp_connect_def split: prod.splits)

lemma server_udp_dial_steps:
  assumes "snd (socket_server_udp_dial cfg a1 a2 (Some sv) opq h p) = Some sv'"
  shows "(api_step cfg)\<^sup>*\<^sup>* (sv_runtime sv) (sv_runtime sv')"
proof -
  define host where "host = (if h \<noteq> None \<and> CHR '':'' \<in> set (the h) then Some ''::'' else None)"
  obtain i sv1 where u: "socket_server_udp cfg a1 (Some sv) opq host 0 = (i, Some sv1)"
    using server_some(1) unfolding socket_server_udp_def by (metis prod.collapse)
  obtain r sv2 where c: "socket_server_udp_connect a2 (Some sv1) i h p = (r, Some sv2)"
    using server_some(2) by (metis prod.collapse)
  have "api_step cfg (sv_runtime sv) (sv_runtime sv1)" using server_open_steps(4) u by (metis snd_conv)
  moreover have "api_step cfg (sv_runtime sv1) (sv_runtime sv2)" using server_udp_connect_step [OF c] .
  moreover have "sv' = sv1 \<or> sv' = sv2"
    using assms u c unfolding socket_server_udp_dial_def host_def [symmetric] by (auto split: if_splits)
  ultimately show ?thesis by (metis converse_rtranclp_into_rtranclp rtranclp.rtrancl_refl)
qed

lemma server_updatetime_steps:
  assumes "fst (socket_server_updatetime (Some sv) tm) = Some sv'"
  shows "(api_step cfg)\<^sup>*\<^sup>* (sv_runtime sv) (sv_runtime sv')"
proof -
  let ?rt = "(sv_runtime sv)\<lparr>r_current_time := tm\<rparr>"
  have "api_step cfg (sv_runtime sv) ?rt"
    by (rule api_updatetime) (simp add: skyuv_socket_runtime_updatetime_def)
  moreover have "api_step cfg ?rt (?rt\<lparr>r_process_shutdown_requested := 0\<rparr>)"
    by (rule api_take_shutdown) (simp add: skyuv_socket_runtime_take_process_shutdown_def)
  moreover have "sv_runtime sv' = ?rt\<lparr>r_process_shutdown_requested := 0\<rparr>"
    using assms by (auto simp: socket_server_updatetime_def skyuv_socket_runtime_updatetime_def
        skyuv_socket_runtime_take_process_shutdown_def)
  ultimately show ?thesis by (metis converse_rtranclp_into_rtranclp rtranclp.rtrancl_refl)
qed

lemma release_sendbuffer_runtime [simp]: "sv_runtime (release_sendbuffer b sv) = sv_runtime sv"
  by (simp add: release_sendbuffer_def)

definition send_fn_ok :: "build_config \<Rightarrow> send_fn \<Rightarrow> bool" where
  "send_fn_ok cfg send \<longleftrightarrow> (\<forall>rt data sz own. \<exists>r rt'. send (Some rt) data sz own = (r, Some rt') \<and> api_step cfg rt rt')"

lemma send_fns_ok:
  "send_fn_ok cfg (\<lambda>rt data sz own. skyuv_socket_runtime_send a rt i data sz own None)"
  "send_fn_ok cfg (\<lambda>rt data sz own. skyuv_socket_runtime_send_low a rt i data sz own None)"
  "send_fn_ok cfg (\<lambda>rt data sz own. skyuv_socket_runtime_udp_send a rt i addr asz data sz own None)"
  unfolding send_fn_ok_def
  by (metis prod.collapse runtime_kept(4,5) api_send api_send_low api_udp_send
      skyuv_socket_runtime_send_def skyuv_socket_runtime_send_low_def)+

lemma send_steps:
  assumes "send_fn_ok cfg send"
  shows "(api_step cfg)\<^sup>*\<^sup>* (sv_runtime sv) (sv_runtime (snd (send_object send copy b sv)))"
    "(api_step cfg)\<^sup>*\<^sup>* (sv_runtime sv) (sv_runtime (snd (send_plain send b sv)))"
proof -
  have step: "\<exists>r rt'. runtime_call (\<lambda>rt. send rt data sz own) sv = (r, sv\<lparr>sv_runtime := rt'\<rparr>)
      \<and> api_step cfg (sv_runtime sv) rt'" for sv :: server and data sz own
  proof -
    obtain r rt' where "send (Some (sv_runtime sv)) data sz own = (r, Some rt')" "api_step cfg (sv_runtime sv) rt'"
      using assms unfolding send_fn_ok_def by blast
    then show ?thesis by (auto simp: runtime_call_def)
  qed
  show "(api_step cfg)\<^sup>*\<^sup>* (sv_runtime sv) (sv_runtime (snd (send_plain send b sv)))"
    using step [of "sb_buffer b" "sb_sz b" "if sb_type b = SB_MEMORY then BUFFER_OWNED else BUFFER_BORROWED" sv]
    by (auto simp: send_plain_def)
  show "(api_step cfg)\<^sup>*\<^sup>* (sv_runtime sv) (sv_runtime (snd (send_object send copy b sv)))"
  proof (cases "\<exists>f g p. oi_buffer (sv_interface sv) = Some f \<and> oi_size (sv_interface sv) = Some g
      \<and> oi_free (sv_interface sv) \<and> copy = Some p")
    case True
    then obtain f g p where o: "oi_buffer (sv_interface sv) = Some f" "oi_size (sv_interface sv) = Some g"
      "oi_free (sv_interface sv)" "copy = Some p" by blast
    show ?thesis
      using step [of "Some p" "g (the (sb_buffer b))" BUFFER_OWNED "release_sendbuffer b sv"] o
      by (auto simp: send_object_def)
  next
    case False
    then have "sv_runtime (snd (send_object send copy b sv)) = sv_runtime sv"
      by (auto simp: send_object_def split: option.splits bool.splits)
    then show ?thesis by simp
  qed
qed

text \<open>Each call of the interface is a run of at most two runtime functions.\<close>

lemma server_do_steps:
  assumes "server_do cfg a call sv = Some sv'"
  shows "(api_step cfg)\<^sup>*\<^sup>* (sv_runtime sv) (sv_runtime sv')"
proof (cases call)
  case (Call_send copy b)
  then show ?thesis using assms send_steps [OF send_fns_ok(1)]
    by (auto simp: socket_server_send_def send_buffer_def Let_def split: if_splits)
next
  case (Call_send_low copy b)
  then show ?thesis using assms send_steps [OF send_fns_ok(2)]
    by (auto simp: socket_server_send_lowpriority_def send_buffer_def Let_def split: if_splits)
next
  case (Call_udp_send copy addr b)
  then show ?thesis using assms send_steps [OF send_fns_ok(3)]
    by (auto simp: socket_server_udp_send_def Let_def split: if_splits option.splits)
next
  case (Call_udp_connect i h p)
  then show ?thesis using assms server_udp_connect_step [of a sv i h p _ sv']
    by (metis prod.collapse r_into_rtranclp server_do.simps(11))
next
  case (Call_userobject oi)
  then show ?thesis using assms by (auto simp: socket_server_userobject_def)
qed (use assms server_udp_dial_steps server_updatetime_steps in
  \<open>auto simp: socket_server_udp_listen_def intro: server_open_steps server_id_steps\<close>)

lemma steps_reachable:
  assumes cfg: "cfg_ok cfg" and "(api_step cfg)\<^sup>*\<^sup>* rt rt'" and "reachable cfg (m, rt)" and "r_fault rt = None"
  shows "reachable cfg (m, rt') \<and> r_fault rt' = None \<and> runtime_ok cfg rt'"
  using assms(2-)
proof (induction rule: rtranclp_induct)
  case base
  then have "system_ok cfg (m, rt)" using reachable_system_ok [OF cfg] by fastforce
  then show ?case using base by simp
next
  case (step y z)
  then have y: "reachable cfg (m, y)" "r_fault y = None" "runtime_ok cfg y" by auto
  have "runtime_ok cfg z" using runtime_ok_api_step [OF cfg y(3) step.hyps(2)] .
  moreover have "reachable cfg (m, z)" using y(1,2) step.hyps(2) by (rule reachable.by_api)
  ultimately show ?case by (simp add: runtime_ok_def)
qed


definition ex_k :: create_env where
  "ex_k = \<lparr>k_runtime = True, k_slots = True, k_generations = True, k_loop_init = UV_OK,
     k_queue_mutex = SKYUV_OK, k_slots_mutex = SKYUV_OK, k_async_init = UV_OK\<rparr>"

definition ex_server :: server where
  "ex_server = \<lparr>sv_runtime = ex_start, sv_interface = \<lparr>oi_buffer = None, oi_size = None, oi_free = False\<rparr>,
     sv_freed = [], sv_objects = []\<rparr>"


section \<open>Send buffers\<close>

lemma send_command_owned:
  assumes "send_command a BUFFER_OWNED (None, data) c rt = (r, rt')" "is_send_command (c_type c)"
  shows "r_taken rt' = r_taken rt @ (if r = SKYUV_OK then [(None, data)] else [])"
  using assms
  by (auto simp: send_command_def take_data_def Let_def skyuv_socket_runtime_submit_def upd_loop_def
      split: prod.splits option.splits if_splits)

text \<open>The runtime takes an owned buffer when its send function succeeds, and only then.\<close>

definition takes_owned :: "send_fn \<Rightarrow> bool" where
  "takes_owned send \<longleftrightarrow> (\<forall>rt data sz. \<exists>r rt'. send (Some rt) data sz BUFFER_OWNED = (r, Some rt')
     \<and> r_taken rt' = r_taken rt @ (if r = SKYUV_OK then [(None, data)] else []))"

lemma runtime_send_takes: "takes_owned (\<lambda>rt data sz own. runtime_send a rt i data sz own None low)"
  unfolding takes_owned_def
proof (intro allI)
  fix rt data sz
  let ?c = "command0\<lparr>c_type := if low then COMMAND_SEND_LOW else COMMAND_SEND, c_id := i, c_size := sz\<rparr>"
  obtain r rt' where s: "send_command a BUFFER_OWNED (None, data) ?c rt = (r, rt')" by fastforce
  show "\<exists>r rt'. runtime_send a (Some rt) i data sz BUFFER_OWNED None low = (r, Some rt')
     \<and> r_taken rt' = r_taken rt @ (if r = SKYUV_OK then [(None, data)] else [])"
    using send_command_owned [OF s] s by (auto simp: runtime_send_def is_send_command_def)
qed

lemma udp_send_takes:
  "takes_owned (\<lambda>rt data sz own. skyuv_socket_runtime_udp_send a rt i addr asz data sz own None)"
  unfolding takes_owned_def
proof (intro allI)
  fix rt data sz
  let ?c = "command0\<lparr>c_type := COMMAND_UDP_SEND, c_id := i, c_size := sz, c_address_size := asz,
     c_address := (case addr of None \<Rightarrow> [] | Some bs \<Rightarrow> take (unat asz) bs)\<rparr>"
  obtain r rt' where s: "send_command a BUFFER_OWNED (None, data) ?c rt = (r, rt')" by fastforce
  show "\<exists>r rt'. skyuv_socket_runtime_udp_send a (Some rt) i addr asz data sz BUFFER_OWNED None = (r, Some rt')
     \<and> r_taken rt' = r_taken rt @ (if r = SKYUV_OK then [(None, data)] else [])"
    using send_command_owned [OF s] s by (auto simp: skyuv_socket_runtime_udp_send_def is_send_command_def)
qed

definition interface_complete :: "object_interface \<Rightarrow> bool" where
  "interface_complete oi \<longleftrightarrow> oi_buffer oi \<noteq> None \<and> oi_size oi \<noteq> None \<and> oi_free oi"

text \<open>
  Who disposes of the buffer \<open>p\<close> of a send that returned \<open>r\<close>: the runtime, \<^verbatim>\<open>skyuv_free\<close> or the object
  interface. \<open>copy\<close> is the copy of an object.
\<close>

definition disposed :: "sendbuffer_type \<Rightarrow> ptr \<Rightarrow> ptr option \<Rightarrow> server \<Rightarrow> int \<Rightarrow> server \<Rightarrow> bool" where
  "disposed ty p copy sv r sv' \<longleftrightarrow> (r = 0 \<or> r = -1) \<and>
     (case ty of
        SB_MEMORY \<Rightarrow>
          r_taken (sv_runtime sv') = r_taken (sv_runtime sv) @ (if r = 0 then [(None, Some p)] else [])
          \<and> sv_freed sv' = sv_freed sv @ (if r = 0 then [] else [p]) \<and> sv_objects sv' = sv_objects sv
      | SB_OBJECT \<Rightarrow>
          if interface_complete (sv_interface sv)
          then sv_objects sv' = sv_objects sv @ [p]
             \<and> r_taken (sv_runtime sv') = r_taken (sv_runtime sv) @ (if r = 0 then [(None, copy)] else [])
             \<and> sv_freed sv' = sv_freed sv @ (if r = 0 then [] else case copy of None \<Rightarrow> [] | Some q \<Rightarrow> [q])
             \<and> (copy = None \<longrightarrow> r = -1)
          else r = -1 \<and> sv' = sv
      | SB_RAWPOINTER \<Rightarrow> sv_freed sv' = sv_freed sv \<and> sv_objects sv' = sv_objects sv)"

lemma runtime_call_takes:
  assumes "takes_owned send" "runtime_call (\<lambda>rt. send rt data sz BUFFER_OWNED) sv = (r, sv')"
  shows "r_taken (sv_runtime sv') = r_taken (sv_runtime sv) @ (if r = SKYUV_OK then [(None, data)] else [])"
    "sv_freed sv' = sv_freed sv" "sv_objects sv' = sv_objects sv"
proof -
  obtain r' rt' where "send (Some (sv_runtime sv)) data sz BUFFER_OWNED = (r', Some rt')"
    "r_taken rt' = r_taken (sv_runtime sv) @ (if r' = SKYUV_OK then [(None, data)] else [])"
    using assms(1) unfolding takes_owned_def by blast
  then show "r_taken (sv_runtime sv') = r_taken (sv_runtime sv) @ (if r = SKYUV_OK then [(None, data)] else [])"
    "sv_freed sv' = sv_freed sv" "sv_objects sv' = sv_objects sv"
    using assms(2) by (auto simp: runtime_call_def)
qed

lemma send_plain_disposed:
  assumes t: "takes_owned send" and b: "sb_buffer b = Some p" "sb_type b \<noteq> SB_OBJECT"
    and s: "send_plain send b sv = (r, sv')"
  shows "disposed (sb_type b) p copy sv r sv'"
proof (cases "sb_type b")
  case SB_MEMORY
  obtain e sv1 where c: "runtime_call (\<lambda>rt. send rt (Some p) (sb_sz b) BUFFER_OWNED) sv = (e, sv1)" by fastforce
  show ?thesis using s b runtime_call_takes [OF t c] c SB_MEMORY
    by (auto simp: send_plain_def disposed_def release_sendbuffer_def split: if_splits)
next
  case SB_RAWPOINTER
  then show ?thesis using s by (auto simp: send_plain_def disposed_def runtime_call_def split: if_splits prod.splits)
qed (use b in simp)

lemma send_object_disposed:
  assumes t: "takes_owned send" and b: "sb_buffer b = Some p" "sb_type b = SB_OBJECT"
    and s: "send_object send copy b sv = (r, sv')"
  shows "disposed SB_OBJECT p copy sv r sv'"
proof (cases "interface_complete (sv_interface sv)")
  case False
  then have "send_object send copy b sv = (-1, sv)"
    by (auto simp: send_object_def interface_complete_def split: option.splits bool.splits)
  then show ?thesis using s False by (simp add: disposed_def)
next
  case True
  then obtain f g where o: "oi_buffer (sv_interface sv) = Some f" "oi_size (sv_interface sv) = Some g"
    "oi_free (sv_interface sv)" by (auto simp: interface_complete_def)
  let ?sv = "release_sendbuffer b sv"
  have rel: "sv_objects ?sv = sv_objects sv @ [p]" "sv_freed ?sv = sv_freed sv"
    using b o(3) by (simp_all add: release_sendbuffer_def)
  show ?thesis
  proof (cases copy)
    case None
    then show ?thesis using s o True rel by (auto simp: send_object_def disposed_def)
  next
    case (Some q)
    obtain e sv1 where c: "runtime_call (\<lambda>rt. send rt (Some q) (g p) BUFFER_OWNED) ?sv = (e, sv1)" by fastforce
    have "(r, sv') = (if e \<noteq> SKYUV_OK then (-1, sv1\<lparr>sv_freed := sv_freed sv1 @ [q]\<rparr>) else (0, sv1))"
      using s o Some c b(1) by (simp add: send_object_def)
    then show ?thesis using runtime_call_takes [OF t c] True rel Some by (auto simp: disposed_def split: if_splits)
  qed
qed


definition ex_sendbuffer :: sendbuffer where
  "ex_sendbuffer = \<lparr>sb_id = 4, sb_type = SB_MEMORY, sb_buffer = Some 100, sb_sz = 10\<rparr>"


section \<open>Events\<close>

definition internal_event :: "event \<Rightarrow> bool" where
  "internal_event ev \<longleftrightarrow> ev_type ev = EVENT_REOPEN_LOG \<or> ev_type ev = EVENT_PROCESS_SHUTDOWN"

lemma poll_ready:
  assumes "r_process_signals_initialized rt" "\<not> r_process_signals_failed rt" "r_events rt = ev # evs"
  shows "skyuv_socket_runtime_poll env uv_run (Some rt) True = Some (SKYUV_OK, Some ev, Some (rt\<lparr>r_events := evs\<rparr>))"
  using assms poll_wait.simps [of uv_run 0 rt]
  by (simp add: skyuv_socket_runtime_poll_def initialize_process_signals_def take_event_def)

lemma server_poll_loop_events:
  assumes "r_process_signals_initialized rt" "\<not> r_process_signals_failed rt"
    and "r_events rt = evs @ ev # rest" "\<forall>x \<in> set evs. internal_event x" "\<not> internal_event ev"
  shows "server_poll_loop env uv_run n k rt
    = Some (Some ev, k + length (filter (\<lambda>x. ev_type x = EVENT_REOPEN_LOG) evs), rt\<lparr>r_events := rest\<rparr>)"
  using assms
proof (induction evs arbitrary: n k rt)
  case Nil
  then show ?case
    using poll_ready [OF Nil.prems(1,2), of ev rest "env n" "uv_run n"]
    by (simp add: server_poll_loop.simps [of env uv_run n k rt] internal_event_def)
next
  case (Cons x evs)
  let ?rt = "rt\<lparr>r_events := evs @ ev # rest\<rparr>"
  have p: "skyuv_socket_runtime_poll (env n) (uv_run n) (Some rt) True = Some (SKYUV_OK, Some x, Some ?rt)"
    using Cons.prems by (intro poll_ready) simp_all
  have IH: "server_poll_loop env uv_run (Suc n) k' ?rt
      = Some (Some ev, k' + length (filter (\<lambda>x. ev_type x = EVENT_REOPEN_LOG) evs), ?rt\<lparr>r_events := rest\<rparr>)" for k'
    using Cons.prems by (intro Cons.IH) simp_all
  have "ev_type x = EVENT_REOPEN_LOG \<or> ev_type x = EVENT_PROCESS_SHUTDOWN"
    using Cons.prems(4) by (simp add: internal_event_def)
  then show ?case
    using p IH by (auto simp: server_poll_loop.simps [of env uv_run n k rt])
qed

lemma server_poll_loop_visible:
  assumes "server_poll_loop env uv_run n k rt = Some (Some ev, k', rt')"
  shows "\<not> internal_event ev"
proof -
  have "\<forall>e. fst (Some ev, k', rt') = Some e \<longrightarrow> \<not> internal_event e"
  proof (rule server_poll_loop.raw_induct
      [where P = "\<lambda>_ _ _ _ _ res. \<forall>e. fst res = Some e \<longrightarrow> \<not> internal_event e", OF _ assms])
    fix f env uv_run n reopened rt and y :: "event option \<times> nat \<times> runtime"
    assume IH: "\<And>env uv_run n reopened rt y. f env uv_run n reopened rt = Some y
        \<Longrightarrow> \<forall>e. fst y = Some e \<longrightarrow> \<not> internal_event e"
      and "Option.bind (skyuv_socket_runtime_poll (env n) (uv_run n) (Some rt) True) (\<lambda>res.
       let r = fst res; ev = the (fst (snd res)); rt1 = the (snd (snd res))
       in if r \<noteq> SKYUV_OK then Some (None, reopened, rt1)
          else if ev_type ev = EVENT_REOPEN_LOG then f env uv_run (Suc n) (Suc reopened) rt1
          else if ev_type ev = EVENT_PROCESS_SHUTDOWN then f env uv_run (Suc n) reopened rt1
          else Some (Some ev, reopened, rt1)) = Some y"
    then show "\<forall>e. fst y = Some e \<longrightarrow> \<not> internal_event e"
      by (cases y) (fastforce simp: Let_def bind_eq_Some_conv internal_event_def split: if_splits)
  qed
  then show ?thesis by simp
qed

text \<open>
  C21. Skynet sees its events and no others, in order: whatever a poll returns is never the
  request to reopen the log or the shutdown of the process. With the signals set up and a queue that
  holds internal events followed by another one, the poll returns, without waiting,
  the message of that event, leaves the rest in the queue, and has asked for the log to be reopened
  exactly once per request.
\<close>

theorem server_poll_events:
  "(socket_server_poll env uv_run (Some sv) True = Some (Some (ty, m), k, sv')
      \<longrightarrow> ty \<noteq> EVENT_REOPEN_LOG \<and> ty \<noteq> EVENT_PROCESS_SHUTDOWN)
    \<and> (r_process_signals_initialized (sv_runtime sv) \<and> \<not> r_process_signals_failed (sv_runtime sv)
        \<and> r_events (sv_runtime sv) = evs @ ev # rest \<and> (\<forall>x \<in> set evs. internal_event x) \<and> \<not> internal_event ev
      \<longrightarrow> socket_server_poll env uv_run (Some sv) True
         = Some (Some (ev_type ev, event_message ev), length (filter (\<lambda>x. ev_type x = EVENT_REOPEN_LOG) evs),
             Some (sv\<lparr>sv_runtime := (sv_runtime sv)\<lparr>r_events := rest\<rparr>\<rparr>)))"
proof (intro conjI impI; (elim conjE)?)
  assume "socket_server_poll env uv_run (Some sv) True = Some (Some (ty, m), k, sv')"
  then obtain e k' rt' where "server_poll_loop env uv_run 0 0 (sv_runtime sv) = Some (Some e, k', rt')" "ty = ev_type e"
    by (auto simp: socket_server_poll_def)
  then show "ty \<noteq> EVENT_REOPEN_LOG" "ty \<noteq> EVENT_PROCESS_SHUTDOWN"
    using server_poll_loop_visible by (auto simp: internal_event_def)
next
  assume a: "r_process_signals_initialized (sv_runtime sv)" "\<not> r_process_signals_failed (sv_runtime sv)"
    "r_events (sv_runtime sv) = evs @ ev # rest" "\<forall>x \<in> set evs. internal_event x" "\<not> internal_event ev"
  show "socket_server_poll env uv_run (Some sv) True
         = Some (Some (ev_type ev, event_message ev), length (filter (\<lambda>x. ev_type x = EVENT_REOPEN_LOG) evs),
             Some (sv\<lparr>sv_runtime := (sv_runtime sv)\<lparr>r_events := rest\<rparr>\<rparr>))"
    using server_poll_loop_events [OF a, of env uv_run 0 0] by (simp add: socket_server_poll_def)
qed

definition ex_event :: "event_type \<Rightarrow> event" where
  "ex_event ty = \<lparr>ev_type = ty, ev_id = 4, ev_opaque = 5, ev_value = V_int 0, ev_data = None, ev_size = 0\<rparr>"

definition ex_polled :: server where
  "ex_polled = ex_server\<lparr>sv_runtime := (sv_runtime ex_server)\<lparr>r_process_signals_initialized := True,
     r_process_signals_failed := False, r_events := [ex_event EVENT_REOPEN_LOG, ex_event EVENT_OPEN]\<rparr>\<rparr>"

theorem server_poll_events_witness:
  "\<exists>sv'. socket_server_poll (\<lambda>_. ex_env) (\<lambda>_ _ rt. (False, rt)) (Some ex_polled) True
     = Some (Some (EVENT_OPEN, event_message (ex_event EVENT_OPEN)), 1, sv')"
proof -
  have e: "r_process_signals_initialized (sv_runtime ex_polled)" "\<not> r_process_signals_failed (sv_runtime ex_polled)"
    "r_events (sv_runtime ex_polled) = [ex_event EVENT_REOPEN_LOG] @ ex_event EVENT_OPEN # []"
    "\<forall>x \<in> set [ex_event EVENT_REOPEN_LOG]. internal_event x" "\<not> internal_event (ex_event EVENT_OPEN)"
    by (simp_all add: ex_polled_def ex_event_def internal_event_def)
  note k = server_poll_events [of "\<lambda>_. ex_env" "\<lambda>_ _ rt. (False, rt)" ex_polled, THEN conjunct2, THEN mp,
      OF conjI [OF e(1) conjI [OF e(2) conjI [OF e(3) conjI [OF e(4,5)]]]]]
  show ?thesis unfolding k by (simp add: ex_event_def)
qed

section \<open>Datagrams\<close>

lemma sint_ucast_of_nat_small: "n < 2 ^ 31 \<Longrightarrow> sint (ucast (of_nat n :: 64 word) :: 32 word) = int n"
proof -
  assume n: "n < 2 ^ 31"
  then have "n mod 2 ^ 64 = n" "n mod 2 ^ 32 = n" by simp_all
  then have u: "unat (ucast (of_nat n :: 64 word) :: 32 word) = n"
    by (simp add: unsigned_ucast_eq unsigned_of_nat take_bit_eq_mod)
  have "sint w = int (unat w)" if "unat w < 2 ^ 31" for w :: "32 word"
  proof -
    have e: "uint w = int (unat w)" by (rule uint_nat)
    have "- (2 ^ 31) \<le> uint w" by (rule order_trans [OF _ uint_nonnegative]) simp
    moreover have "uint w < 2 ^ 31"
      unfolding e using that of_nat_less_iff [of "unat w" "2 ^ 31", where ?'a = int]
      by (simp only: of_nat_power of_nat_numeral)
    ultimately have "signed_take_bit 31 (uint w) = uint w" by (simp add: signed_take_bit_int_eq_self)
    moreover have "sint w = signed_take_bit 31 (uint w)" by (simp add: sint_uint)
    ultimately show ?thesis using e by (simp only:)
  qed
  from this [of "ucast (of_nat n :: 64 word)"] show ?thesis using n by (simp only: u)
qed

lemma encoded_size_encode:
  assumes "wf_sockaddr s"
  shows "encoded_size (encode_udp_address s @ rest) = of_nat (udp_address_size s)"
  using assms by (cases s) (auto simp: encoded_size_def udp_address_size_def)

lemma udp_received_event:
  assumes "find_entry cfg rt i = Some e" "en_malloc env = Some p" "en_event_alloc env EVENT_UDP"
  shows "r_events (udp_received cfg env i (Read_bytes bs) base (Some s) rt) = r_events rt @
    [\<lparr>ev_type = EVENT_UDP, ev_id = e_id e, ev_opaque = e_opaque e, ev_value = V_int (int (udp_address_size s)),
      ev_data = Some (Some p, bs @ encode_udp_address s), ev_size = of_nat (length bs)\<rparr>]"
proof -
  have f: "find_entry cfg (free_buffer base rt) i = Some e"
    using assms(1) by (cases base) (simp_all add: free_buffer_def find_entry_def)
  show ?thesis
    using assms f by (cases base)
      (simp_all add: udp_received_def Let_def deref_def enqueue_event_def upd_entry_def free_buffer_def)
qed

lemma udp_send_queued:
  assumes "0 < sint i" "sz \<le> UINT_MAX" "a_command a" "q_accepting (r_commands rt)" "q_mutex (r_commands rt)"
    and "asz = 7 \<or> asz = 19"
  shows "\<exists>rt'. skyuv_socket_runtime_udp_send a (Some rt) i (Some bs) asz (Some p) sz BUFFER_OWNED None = (SKYUV_OK, Some rt')
    \<and> (\<exists>c. q_items (r_commands rt') = q_items (r_commands rt) @ [c] \<and> c_type c = COMMAND_UDP_SEND \<and> c_id c = i
        \<and> c_address c = take (unat asz) bs \<and> c_address_size c = asz \<and> c_data c = Some p \<and> c_size c = sz)"
  using assms
  by (auto simp: skyuv_socket_runtime_udp_send_def send_command_def take_data_def Let_def
      skyuv_socket_runtime_submit_def skyuv_socket_command_queue_push_def queue_push_locked_def upd_loop_def)


definition ex_udp_runtime :: runtime where
  "ex_udp_runtime = ex_start\<lparr>r_slots := (\<lambda>_. None)(0 \<mapsto> entry0\<lparr>e_id := 4, e_state := STATE_UDP\<rparr>)\<rparr>"


lemma open_socket_id: "open_socket cfg a opq host c rt = (r, i, rt') \<Longrightarrow> r = SKYUV_OK \<Longrightarrow> i \<noteq> None"
  by (auto simp: open_socket_def Let_def split: if_splits prod.splits)

lemma open_socket_opened:
  assumes cfg: "cfg_ok cfg" and res: "open_socket cfg a opq host c rt = (SKYUV_OK, Some i, rt')"
  shows "find_entry cfg rt' i = Some (reserved_entry i opq)" "0 < sint i"
    "\<exists>c'. q_items (r_commands rt') = q_items (r_commands rt) @ [c'] \<and> c_type c' = c_type c \<and> c_id c' = i"
proof -
  obtain r1 j rt1 where r: "reserve_entry cfg (a_entry a) opq rt = (r1, j, rt1)"
    by (cases "reserve_entry cfg (a_entry a) opq rt")
  let ?c = "c\<lparr>c_host := copy_string (a_string a) (Some host), c_id := j, c_opaque := opq\<rparr>"
  have sub: "r1 = SKYUV_OK" "j = i" "skyuv_socket_runtime_submit rt1 ?c = (SKYUV_OK, rt')"
    using res r by (auto simp: open_socket_def Let_def split: if_splits prod.splits)
  obtain s k where none: "r_slots rt s = None" and vs: "valid_slot cfg s"
    and i: "i = skyuv_socket_id_make cfg s (skyuv_socket_id_next_generation (r_generations rt s))"
    and rt1: "rt1 = reserved_in cfg opq s k rt"
    using reserve_loop_cases [OF cfg r [unfolded reserve_entry_def]] sub(1,2) by auto
  have f: "find_entry cfg rt1 i = Some (reserved_entry i opq)"
    unfolding rt1 i by (simp add: find_entry_reserved_in [OF cfg vs none])
  have rt': "rt' = upd_loop (\<lambda>l. l\<lparr>l_async := True\<rparr>) (rt1\<lparr>r_commands := queue_push_locked (r_commands rt1) ?c\<rparr>)"
    using submit_cases [OF sub(3)] by simp
  show "find_entry cfg rt' i = Some (reserved_entry i opq)"
    using f by (simp add: rt' upd_loop_def find_entry_def)
  show "0 < sint i" unfolding i by (rule id_make_positive [OF cfg vs next_generation_valid])
  show "\<exists>c'. q_items (r_commands rt') = q_items (r_commands rt) @ [c'] \<and> c_type c' = c_type c \<and> c_id c' = i"
    by (simp add: rt' rt1 upd_loop_def queue_push_locked_def reserved_in_def Let_def sub(2))
qed

text \<open>
  A failed dial leaves a socket behind: when the first half of \<^verbatim>\<open>socket_server_udp_dial\<close> has
  opened a UDP socket and the second half is refused, because the address is NULL or the port is out
  of range, the call returns -1, but the socket stays in the table and its command in the queue. The
  caller does not learn the identifier, so nobody can close the socket.
\<close>

theorem udp_dial_leaves_socket:
  assumes cfg: "cfg_ok cfg" and bad: "address = None \<or> port < 0 \<or> port > 65535"
    and open_: "socket_server_udp cfg a1 (Some sv) opq
      (if address \<noteq> None \<and> CHR '':'' \<in> set (the address) then Some ''::'' else None) 0 = (i, Some sv1)"
    and ok: "i \<noteq> -1"
  shows "socket_server_udp_dial cfg a1 a2 (Some sv) opq address port = (-1, Some sv1)
    \<and> find_entry cfg (sv_runtime sv1) i = Some (reserved_entry i opq)
    \<and> (\<exists>c. q_items (r_commands (sv_runtime sv1)) = q_items (r_commands (sv_runtime sv)) @ [c]
          \<and> c_type c = COMMAND_UDP \<and> c_id c = i)"
proof -
  let ?c = "command0\<lparr>c_type := COMMAND_UDP, c_port := 0\<rparr>"
  define bind_host where
    "bind_host = (if address \<noteq> None \<and> CHR '':'' \<in> set (the address) then Some ''::'' else None :: string option)"
  define host where "host = (case bind_host of None \<Rightarrow> ''0.0.0.0'' | Some h \<Rightarrow> h)"
  obtain r j rt' where s: "open_socket cfg a1 opq host ?c (sv_runtime sv) = (r, j, rt')"
    by (cases "open_socket cfg a1 opq host ?c (sv_runtime sv)")
  have "(if r \<noteq> SKYUV_OK then -1 else the j) = i" "sv_runtime sv1 = rt'"
    using open_ s unfolding bind_host_def [symmetric]
    by (auto simp: socket_server_udp_def runtime_open_def skyuv_socket_runtime_udp_def Let_def host_def [symmetric])
  then have "open_socket cfg a1 opq host ?c (sv_runtime sv) = (SKYUV_OK, Some i, sv_runtime sv1)"
    using ok s open_socket_id [OF s] by (auto split: if_splits)
  note o = open_socket_opened [OF cfg this]
  have "socket_server_udp_connect a2 (Some sv1) i address port = (-1, Some sv1)"
    using bad by (auto simp: socket_server_udp_connect_def runtime_call_def skyuv_socket_runtime_udp_connect_def
        split: option.splits)
  moreover have "\<not> sint i < 0" using o(2) by simp
  ultimately show ?thesis using o open_ by (simp add: socket_server_udp_dial_def)
qed

theorem udp_dial_leaves_socket_witness:
  "\<exists>sv1. socket_server_udp_dial ex_cfg ex_api ex_api (Some ex_server) 5 (Some ''1.2.3.4'') 70000 = (-1, Some sv1)
    \<and> find_entry ex_cfg (sv_runtime sv1) 4 = Some (reserved_entry 4 5)"
proof -
  let ?sv1 = "the (snd (socket_server_udp ex_cfg ex_api (Some ex_server) 5 None 0))"
  have "fst (socket_server_udp ex_cfg ex_api (Some ex_server) 5 None 0) = 4" by code_simp
  moreover have "snd (socket_server_udp ex_cfg ex_api (Some ex_server) 5 None 0) = Some ?sv1"
    using server_some(1) unfolding socket_server_udp_def by (metis option.sel)
  ultimately have "socket_server_udp ex_cfg ex_api (Some ex_server) 5 None 0 = (4, Some ?sv1)" by (metis prod.collapse)
  then show ?thesis
    using udp_dial_leaves_socket [OF ex_cfg_ok, of "Some ''1.2.3.4''" 70000 ex_api ex_server 5 4 ?sv1 ex_api] by simp
qed

end
