(* ===== verification/Skynet_Compat.thy ===== *)
theory Skynet_Compat
  imports Platform Socket_Server
begin

text \<open>
  The small replacements that Skynet is compiled against: the list of socket records over linked
  nodes (\<^verbatim>\<open>src/src/socket/socket_info_compat.c\<close>), \<^verbatim>\<open>strsep\<close> for Visual C
  (\<^verbatim>\<open>compat/skynet/skyuv_string.h\<close>), the reopening of the log file (\<^verbatim>\<open>platform/logger.c\<close>), the rest of
  the pthread and dlfcn functions (\<^verbatim>\<open>compat/skynet/start/pthread.h\<close>,
  \<^verbatim>\<open>compat/skynet/tls/pthread.h\<close>, \<^verbatim>\<open>compat/skynet/dynamic/dlfcn.h\<close>), and the two system calls of the
  client (\<^verbatim>\<open>platform/client_shutdown.c\<close>, \<^verbatim>\<open>platform/client_module.c\<close>).
\<close>

section \<open>The list of socket records\<close>

text \<open>
  A node holds a record, \<open>None\<close> while it is zeroed, and the pointer to the next node; an address that is
  not in the heap has not been allocated or has been freed. The result of \<^verbatim>\<open>skyuv_calloc\<close> is an argument.
\<close>

record info_node =
  in_info :: "server_info option"
  in_next :: "ptr option"

type_synonym info_heap = "ptr \<Rightarrow> info_node option"

definition set_next :: "ptr option \<Rightarrow> ptr option \<Rightarrow> info_heap \<Rightarrow> info_heap" where
  "set_next prev new h =
     (case prev of
        None \<Rightarrow> h
      | Some l \<Rightarrow> h(l := map_option (\<lambda>n. n\<lparr>in_next := new\<rparr>) (h l)))"

definition socket_info_create :: "ptr option \<Rightarrow> ptr option \<Rightarrow> info_heap \<Rightarrow> ptr option \<times> info_heap" where
  "socket_info_create mem prev h =
     (let h1 = (case mem of None \<Rightarrow> h | Some p \<Rightarrow> h(p \<mapsto> \<lparr>in_info = None, in_next = None\<rparr>))
      in (mem, set_next prev mem h1))"

text \<open>
  \<^verbatim>\<open>socket_info_release\<close> follows the pointers. Reading a node that is not in the heap ends it with
  \<open>Some None\<close>; a list with a cycle would be such a case, because its first node has been freed when
  the loop comes back to it.
\<close>

partial_function (option) socket_info_release :: "ptr option \<Rightarrow> info_heap \<Rightarrow> info_heap option option" where
  "socket_info_release info h =
     (case info of
        None \<Rightarrow> Some (Some h)
      | Some p \<Rightarrow>
          (case h p of
             None \<Rightarrow> Some None
           | Some n \<Rightarrow> socket_info_release (in_next n) (h(p := None))))"

declare socket_info_release.simps [code]

text \<open>The loop of \<^verbatim>\<open>socket_server_info\<close> with its variables \<^verbatim>\<open>head\<close> and \<^verbatim>\<open>tail\<close>; the snapshot is a list.\<close>

fun link_infos ::
    "ptr option list \<Rightarrow> socket_info list \<Rightarrow> ptr option \<Rightarrow> ptr option \<Rightarrow> info_heap \<Rightarrow> ptr option \<times> info_heap" where
  "link_infos (mem # mems) (i # is) head tail h =
     (case socket_info_create mem tail h of
        (None, h1) \<Rightarrow> (head, h1)
      | (Some p, h1) \<Rightarrow>
          link_infos mems is (if head = None then Some p else head) (Some p)
            (h1(p := map_option (\<lambda>n. n\<lparr>in_info := Some (convert_info i)\<rparr>) (h1 p))))"
| "link_infos _ _ head tail h = (head, h)"

text \<open>The nodes \<open>ps\<close> are linked from \<open>start\<close> to NULL and hold \<open>xs\<close>.\<close>

fun info_list :: "info_heap \<Rightarrow> ptr option \<Rightarrow> ptr list \<Rightarrow> server_info list \<Rightarrow> bool" where
  "info_list h start [] [] \<longleftrightarrow> start = None"
| "info_list h start (p # ps) (x # xs) \<longleftrightarrow> start = Some p
     \<and> (\<exists>n. h p = Some n \<and> in_info n = Some x \<and> info_list h (in_next n) ps xs)"
| "info_list h start _ _ \<longleftrightarrow> False"

lemma info_list_cong:
  "(\<And>p. p \<in> set ps \<Longrightarrow> h' p = h p) \<Longrightarrow> info_list h' start ps xs = info_list h start ps xs"
  by (induction h start ps xs rule: info_list.induct) auto

lemma info_list_length: "info_list h start ps xs \<Longrightarrow> length ps = length xs"
  by (induction h start ps xs rule: info_list.induct) auto

text \<open>Releasing a list frees its nodes, each once and no other, and returns.\<close>

lemma release_list:
  assumes "info_list h start ps xs" "distinct ps"
  shows "socket_info_release start h = Some (Some (\<lambda>p. if p \<in> set ps then None else h p))"
  using assms
proof (induction ps arbitrary: start xs h)
  case Nil
  then have "start = None" by (cases xs) auto
  then show ?case by (subst socket_info_release.simps) simp
next
  case (Cons p ps)
  then obtain x xs' n where xs: "xs = x # xs'" and start: "start = Some p" and n: "h p = Some n"
    and l: "info_list h (in_next n) ps xs'"
    by (cases xs) auto
  have "info_list (h(p := None)) (in_next n) ps xs'"
    using l Cons.prems(2) by (subst info_list_cong [where h = h]) auto
  from Cons.IH [OF this] Cons.prems(2)
  have "socket_info_release (in_next n) (h(p := None))
      = Some (Some (\<lambda>q. if q \<in> set ps then None else (h(p := None)) q))" by (simp del: fun_upd_apply)
  moreover have "(\<lambda>q. if q \<in> set ps then None else (h(p := None)) q)
      = (\<lambda>q. if q \<in> set (p # ps) then None else h q)" by auto
  ultimately show ?case by (subst socket_info_release.simps) (simp only: start n option.case)
qed

text \<open>Appending a node behind the last one.\<close>

lemma info_list_snoc:
  assumes "info_list h start (ps @ [l]) xs" "distinct (ps @ [l])" "p \<notin> set (ps @ [l])" "h p = None"
  shows "info_list ((snd (socket_info_create (Some p) (Some l) h))(p \<mapsto> \<lparr>in_info = Some x, in_next = None\<rparr>))
    start (ps @ [l, p]) (xs @ [x])"
  using assms
proof (induction ps arbitrary: start xs)
  case Nil
  then obtain y n where y: "xs = [y]" "start = Some l" "h l = Some n" "in_info n = Some y" "in_next n = None"
    by (cases xs) (auto elim: info_list.elims)
  with Nil show ?case by (auto simp: socket_info_create_def set_next_def)
next
  case (Cons q ps)
  then obtain y ys n where "xs = y # ys" "start = Some q" "h q = Some n" "in_info n = Some y"
    "info_list h (in_next n) (ps @ [l]) ys" by (cases xs) auto
  with Cons show ?case by (auto simp: socket_info_create_def set_next_def)
qed

lemma create_outside:
  "q \<noteq> p \<Longrightarrow> prev \<noteq> Some q \<Longrightarrow> snd (socket_info_create (Some p) prev h) q = h q"
  by (auto simp: socket_info_create_def set_next_def Let_def split: option.splits)

lemma create_new:
  "prev \<noteq> Some p \<Longrightarrow> snd (socket_info_create (Some p) prev h) p = Some \<lparr>in_info = None, in_next = None\<rparr>"
  by (auto simp: socket_info_create_def set_next_def Let_def split: option.splits)

text \<open>
  One pass of the loop: the new node becomes the last of the list and the rest of the heap stays. With a
  failed allocation the list is the one before.
\<close>

definition tail_of :: "ptr list \<Rightarrow> ptr option" where
  "tail_of ps = (if ps = [] then None else Some (List.last ps))"

lemma link_one:
  assumes "info_list h head ps xs" "distinct ps" "p \<notin> set ps" "h p = None"
    and "h' = snd (socket_info_create (Some p) (tail_of ps) h)"
    and "h2 = h'(p := map_option (\<lambda>n. n\<lparr>in_info := Some x\<rparr>) (h' p))"
  shows "info_list h2 (if head = None then Some p else head) (ps @ [p]) (xs @ [x])"
    and "\<forall>q. q \<notin> set (ps @ [p]) \<longrightarrow> h2 q = h q"
proof -
  have t: "tail_of ps \<noteq> Some p" using assms(3) by (auto simp: tail_of_def)
  then have h2: "h2 = h'(p \<mapsto> \<lparr>in_info = Some x, in_next = None\<rparr>)"
    using create_new [of "tail_of ps" p h] by (simp add: assms(5,6))
  show "info_list h2 (if head = None then Some p else head) (ps @ [p]) (xs @ [x])"
  proof (cases ps rule: rev_cases)
    case Nil
    then have "xs = []" "head = None" using assms(1) by (auto elim: info_list.elims)
    then show ?thesis by (simp add: Nil h2)
  next
    case (snoc qs l)
    have "head \<noteq> None" using assms(1) by (cases ps; cases xs) (auto simp: snoc)
    then show ?thesis
      using info_list_snoc [of h head qs l xs p x] assms(1-4) by (auto simp: snoc h2 assms(5) tail_of_def)
  qed
  show "\<forall>q. q \<notin> set (ps @ [p]) \<longrightarrow> h2 q = h q"
    using create_outside [of _ p "tail_of ps" h] last_in_set [of ps] by (fastforce simp: h2 assms(5) tail_of_def)
qed

lemma link_stop:
  assumes "info_list h head ps xs" "distinct ps"
  shows "snd (socket_info_create None (tail_of ps) h) = h"
proof (cases ps rule: rev_cases)
  case (snoc qs l)
  have "\<exists>n. h l = Some n \<and> in_next n = None"
    using assms(1) unfolding snoc
  proof (induction qs arbitrary: head xs)
    case Nil
    then show ?case by (cases xs) (auto elim: info_list.elims)
  next
    case (Cons q qs)
    then show ?case by (cases xs) auto
  qed
  then show ?thesis by (auto simp: snoc socket_info_create_def set_next_def tail_of_def)
qed (simp add: socket_info_create_def set_next_def tail_of_def)

lemma link_infos_list:
  assumes "info_list h head ps xs" "distinct ps" "length snap \<le> length mems"
    and "distinct (map the (filter (\<lambda>m. m \<noteq> None) mems))"
    and "\<forall>p. Some p \<in> set mems \<longrightarrow> p \<notin> set ps \<and> h p = None"
    and "\<forall>n < length mems. alloc (k + n) \<longleftrightarrow> mems ! n \<noteq> None"
  shows "\<exists>head' h' qs. link_infos mems snap head (tail_of ps) h = (head', h')
    \<and> info_list h' head' (ps @ qs) (xs @ convert_infos alloc k snap)
    \<and> distinct (ps @ qs) \<and> (\<forall>q. q \<in> set qs \<longrightarrow> h q = None)
    \<and> (\<forall>q. q \<notin> set (ps @ qs) \<longrightarrow> h' q = h q)"
  using assms
proof (induction mems snap head "tail_of ps" h arbitrary: ps xs k rule: link_infos.induct)
  case (1 mem mems i snap head h)
  have alloc: "alloc k \<longleftrightarrow> mem \<noteq> None" using 1(7) by force
  show ?case
  proof (cases mem)
    case None
    have "socket_info_create None (tail_of ps) h = (None, h)"
      using link_stop [OF 1(2,3)] by (simp add: socket_info_create_def)
    with None alloc 1(2,3) show ?thesis by (intro exI [of _ head] exI [of _ h] exI [of _ "[]"]) simp
  next
    case (Some p)
    obtain h1 where c: "socket_info_create mem (tail_of ps) h = (Some p, h1)"
      by (simp add: Some socket_info_create_def)
    let ?h2 = "h1(p := map_option (\<lambda>n. n\<lparr>in_info := Some (convert_info i)\<rparr>) (h1 p))"
    let ?head = "if head = None then Some p else head"
    have p: "p \<notin> set ps" "h p = None" using 1(6) Some by auto
    have h1: "h1 = snd (socket_info_create (Some p) (tail_of ps) h)" using c Some by simp
    note one = link_one [OF 1(2,3) p h1 refl, of "convert_info i"]
    have tail: "Some p = tail_of (ps @ [p])" by (simp add: tail_of_def)
    have fresh: "\<forall>q. Some q \<in> set mems \<longrightarrow> q \<notin> set (ps @ [p]) \<and> ?h2 q = None"
    proof (intro allI impI)
      fix q assume q: "Some q \<in> set mems"
      have "q \<noteq> p" using 1(5) Some q by (force simp: image_iff)
      then show "q \<notin> set (ps @ [p]) \<and> ?h2 q = None" using one(2) 1(6) q by auto
    qed
    have shift: "\<forall>n < length mems. alloc (Suc k + n) \<longleftrightarrow> mems ! n \<noteq> None"
    proof (intro allI impI)
      fix n assume "n < length mems"
      then show "alloc (Suc k + n) \<longleftrightarrow> mems ! n \<noteq> None" using 1(7) [rule_format, of "Suc n"] by simp
    qed
    have dm: "distinct (map the (filter (\<lambda>m. m \<noteq> None) mems))" using 1(5) Some by simp
    from 1(1) [OF c [symmetric] refl tail one(1) _ _ dm fresh shift] 1(3,4) p(1)
    obtain head' h' qs where ih: "link_infos mems snap ?head (tail_of (ps @ [p])) ?h2 = (head', h')"
      "info_list h' head' ((ps @ [p]) @ qs) ((xs @ [convert_info i]) @ convert_infos alloc (Suc k) snap)"
      "distinct ((ps @ [p]) @ qs)" "\<forall>q. q \<in> set qs \<longrightarrow> ?h2 q = None"
      "\<forall>q. q \<notin> set ((ps @ [p]) @ qs) \<longrightarrow> h' q = ?h2 q"
      by auto
    have "\<forall>q. q \<in> set (p # qs) \<longrightarrow> h q = None"
    proof (intro allI impI)
      fix q assume "q \<in> set (p # qs)"
      then consider "q = p" | "q \<in> set qs" "q \<notin> set (ps @ [p])" using ih(3) by auto
      then show "h q = None" using ih(4) one(2) p(2) by cases (blast, metis)
    qed
    moreover have "\<forall>q. q \<notin> set (ps @ p # qs) \<longrightarrow> h' q = h q" using ih(5) one(2) by auto
    moreover have "link_infos (mem # mems) (i # snap) head (tail_of ps) h = (head', h')"
      using ih(1) by (simp add: c tail [symmetric])
    ultimately show ?thesis
      using ih(2,3) alloc Some by (intro exI [of _ head'] exI [of _ h'] exI [of _ "p # qs"]) simp
  qed
qed (auto intro!: exI [of _ "[]"])

text \<open>
  The list that Skynet gets: on nodes that were free, the loop links exactly the records that
  \<open>convert_infos\<close> describes, also if an allocation fails in between, and \<^verbatim>\<open>socket_info_release\<close> returns
  with the heap as it was before, so that every node has been freed once.
\<close>

theorem socket_infos_linked:
  assumes "length snap \<le> length mems" "distinct (map the (filter (\<lambda>m. m \<noteq> None) mems))"
    and "\<forall>p. Some p \<in> set mems \<longrightarrow> h p = None" "\<forall>n < length mems. alloc n \<longleftrightarrow> mems ! n \<noteq> None"
  shows "\<exists>head h' ps. link_infos mems snap None None h = (head, h')
    \<and> info_list h' head ps (convert_infos alloc 0 snap)
    \<and> socket_info_release head h' = Some (Some h)"
proof -
  obtain head h' qs where l: "link_infos mems snap None (tail_of []) h = (head, h')"
    "info_list h' head ([] @ qs) ([] @ convert_infos alloc 0 snap)" "distinct ([] @ qs)"
    "\<forall>q. q \<in> set qs \<longrightarrow> h q = None" "\<forall>q. q \<notin> set ([] @ qs) \<longrightarrow> h' q = h q"
    using link_infos_list [of h None "[]" "[]" snap mems alloc 0] assms by auto
  have "(\<lambda>p. if p \<in> set qs then None else h' p) = h" using l(4,5) by (auto simp: fun_eq_iff)
  then show ?thesis
    using l release_list [of h' head qs "convert_infos alloc 0 snap"] by (auto simp: tail_of_def)
qed

section \<open>Splitting strings\<close>

text \<open>
  \<^verbatim>\<open>strsep\<close> scans from the start of the string for a delimiter, writes the terminator over it and moves
  the caller's pointer behind it. The outer \<open>None\<close> is a NULL argument, the inner one a NULL string.
\<close>

fun strsep_scan :: "string \<Rightarrow> string \<Rightarrow> string \<times> string option" where
  "strsep_scan delimiters [] = ([], None)"
| "strsep_scan delimiters (c # cs) =
     (if c \<in> set delimiters then ([], Some cs)
      else case strsep_scan delimiters cs of (token, rest) \<Rightarrow> (c # token, rest))"

definition skyuv_compat_strsep ::
    "string option option \<Rightarrow> string \<Rightarrow> string option \<times> string option option" where
  "skyuv_compat_strsep str delimiters =
     (case str of
        None \<Rightarrow> (None, None)
      | Some None \<Rightarrow> (None, Some None)
      | Some (Some s) \<Rightarrow> (case strsep_scan delimiters s of (token, rest) \<Rightarrow> (Some token, Some rest)))"

lemma strsep_scan_shorter:
  "strsep_scan delimiters s = (token, Some rest) \<Longrightarrow> length rest < length s"
  by (induction delimiters s arbitrary: token rule: strsep_scan.induct) (auto split: if_splits prod.splits)

text \<open>The way it is used: call it until it returns NULL.\<close>

function strsep_tokens :: "string \<Rightarrow> string option \<Rightarrow> string list" where
  "strsep_tokens delimiters s =
     (case skyuv_compat_strsep (Some s) delimiters of
        (Some token, Some rest) \<Rightarrow> token # strsep_tokens delimiters rest
      | _ \<Rightarrow> [])"
  by pat_completeness auto
termination
proof (relation "measure (\<lambda>(d, s). case s of None \<Rightarrow> 0 | Some s \<Rightarrow> Suc (length s))")
  fix delimiters s x1 x2 token rest
  assume "(x1, x2) = skyuv_compat_strsep (Some s) delimiters" "x1 = Some token" "x2 = Some rest"
  then show "((delimiters, rest), (delimiters, s)) \<in> measure (\<lambda>(d, s). case s of None \<Rightarrow> 0 | Some s \<Rightarrow> Suc (length s))"
    using strsep_scan_shorter [of delimiters]
    by (auto simp: skyuv_compat_strsep_def split: option.splits prod.splits)
qed simp

declare strsep_tokens.simps [simp del]

fun weave :: "string list \<Rightarrow> string \<Rightarrow> string" where
  "weave (t # ts) (c # cs) = t @ c # weave ts cs"
| "weave ts [] = concat ts"
| "weave [] cs = cs"

lemma strsep_scan_spec:
  "strsep_scan delimiters s = (token, rest) \<Longrightarrow> set token \<inter> set delimiters = {} \<and>
     (case rest of None \<Rightarrow> s = token | Some r \<Rightarrow> \<exists>c \<in> set delimiters. s = token @ c # r)"
proof (induction delimiters s arbitrary: token rule: strsep_scan.induct)
  case (2 delimiters c cs)
  then show ?case by (cases "strsep_scan delimiters cs") (auto split: if_splits option.splits)
qed simp

text \<open>
  Splitting a string is exact: the tokens contain no delimiter, there is one more of them than
  delimiters in the string, so that neighbouring delimiters give an empty token, and with the
  delimiters between them they are the string.
\<close>

theorem strsep_exact:
  "length (strsep_tokens d (Some s)) = Suc (length (filter (\<lambda>c. c \<in> set d) s))
    \<and> list_all (\<lambda>t. set t \<inter> set d = {}) (strsep_tokens d (Some s))
    \<and> weave (strsep_tokens d (Some s)) (filter (\<lambda>c. c \<in> set d) s) = s"
proof (induction s rule: length_induct)
  case (1 s)
  obtain token rest where scan: "strsep_scan d s = (token, rest)" by (cases "strsep_scan d s")
  note spec = strsep_scan_spec [OF scan]
  have none: "filter (\<lambda>c. c \<in> set d) token = []" using spec by (auto simp: filter_empty_conv)
  have unfold: "strsep_tokens d (Some s) = token # strsep_tokens d rest"
    by (subst strsep_tokens.simps) (simp add: skyuv_compat_strsep_def scan)
  show ?case
  proof (cases rest)
    case None
    have "strsep_tokens d None = []" by (subst strsep_tokens.simps) (simp add: skyuv_compat_strsep_def)
    then have "strsep_tokens d (Some s) = [token]" using None by (simp add: unfold)
    with None spec none show ?thesis by auto
  next
    case (Some r)
    then obtain c where c: "c \<in> set d" "s = token @ c # r" using spec by auto
    have "strsep_tokens d (Some (token @ c # r)) = token # strsep_tokens d (Some r)"
      using unfold by (simp add: c(2) Some)
    with 1 [rule_format, of r] c Some spec none show ?thesis by simp
  qed
qed

section \<open>The log file\<close>

text \<open>
  The handles that are open are a multiset; \<open>fopen\<close> is the new handle if the file could be opened.
  \<^verbatim>\<open>fclose\<close> gives its handle up even if it reports an error.
\<close>

definition skyuv_logger_reopen :: "nat option \<Rightarrow> nat option \<Rightarrow> nat multiset \<Rightarrow> nat option \<times> nat multiset" where
  "skyuv_logger_reopen fopen current files =
     (case fopen of
        None \<Rightarrow> (current, files)
      | Some replacement \<Rightarrow>
          (Some replacement,
           (case current of None \<Rightarrow> add_mset replacement files
            | Some f \<Rightarrow> add_mset replacement files - {#f#})))"

fun reopen_all :: "nat option list \<Rightarrow> nat option \<times> nat multiset \<Rightarrow> nat option \<times> nat multiset" where
  "reopen_all [] s = s"
| "reopen_all (r # rs) s = reopen_all rs (skyuv_logger_reopen r (fst s) (snd s))"

text \<open>
  Whatever of the reopenings fails, the logger has exactly one handle of its own open, the one of the last
  reopening that succeeded or the one it began with.
\<close>

theorem logger_one_handle:
  "reopen_all rs (Some f, add_mset f others)
    = (let g = (case filter (\<lambda>r. r \<noteq> None) (rev rs) of [] \<Rightarrow> f | r # _ \<Rightarrow> the r)
       in (Some g, add_mset g others))"
proof (induction rs arbitrary: f)
  case (Cons r rs)
  show ?case
  proof (cases r)
    case None
    then show ?thesis using Cons [of f] by (simp add: skyuv_logger_reopen_def)
  next
    case (Some g)
    then have "skyuv_logger_reopen r (Some f) (add_mset f others) = (Some g, add_mset g others)"
      by (simp add: skyuv_logger_reopen_def add_mset_commute)
    then show ?thesis using Cons [of g] Some
      by (cases "filter (\<lambda>r. r \<noteq> None) (rev rs)") (auto simp: Let_def)
  qed
qed simp

section \<open>Threads and libraries for Skynet\<close>

text \<open>
  The pthread functions. A handle that is initialised is overwritten first, so that it may hold anything
  before; \<^verbatim>\<open>pthread_join\<close> works on a copy of the handle. The block that \<^verbatim>\<open>pthread_create\<close> allocates for the new
  thread is freed by the entry function.
\<close>

definition skyuv_compat_thread_entry :: "ptr \<Rightarrow> thread_start \<Rightarrow> blocks \<Rightarrow> (nat \<times> ptr option) \<times> blocks" where
  "skyuv_compat_thread_entry w start live = ((st_entry start, st_argument start), free (Some w) live)"

definition skyuv_compat_pthread_join :: "uv_code \<Rightarrow> object \<Rightarrow> blocks \<Rightarrow> skyuv_error \<times> blocks" where
  "skyuv_compat_pthread_join native thread live =
     (case skyuv_thread_join native (Some thread) live of (result, _, live1) \<Rightarrow> (result, live1))"

definition skyuv_compat_pthread_mutex_init ::
    "ptr option \<Rightarrow> uv_code \<Rightarrow> object \<Rightarrow> blocks \<Rightarrow> skyuv_error \<times> object option \<times> blocks" where
  "skyuv_compat_pthread_mutex_init mem native mutex live = skyuv_mutex_init mem native (Some None) live"

definition skyuv_compat_pthread_mutex_destroy :: "object \<Rightarrow> blocks \<Rightarrow> int \<times> object option \<times> blocks" where
  "skyuv_compat_pthread_mutex_destroy mutex live = (0, skyuv_mutex_destroy (Some mutex) live)"

definition skyuv_compat_pthread_cond_init ::
    "ptr option \<Rightarrow> uv_code \<Rightarrow> object \<Rightarrow> blocks \<Rightarrow> skyuv_error \<times> object option \<times> blocks" where
  "skyuv_compat_pthread_cond_init mem native condition live = skyuv_cond_init mem native (Some None) live"

definition skyuv_compat_pthread_cond_destroy :: "object \<Rightarrow> blocks \<Rightarrow> int \<times> object option \<times> blocks" where
  "skyuv_compat_pthread_cond_destroy condition live = (0, skyuv_cond_destroy (Some condition) live)"

text \<open>
  The two blocks of a thread of Skynet: the thread frees the block of \<open>skyuv_thread_create\<close> and calls the
  entry function with the address of the other one, which frees that and calls the routine; the join gives the
  handle's block back, and what is live is what was live before. A creation that fails leaves nothing.
\<close>

theorem compat_thread_memory:
  assumes "skyuv_compat_pthread_create wrap impl start native routine arg live = (r, th, live', started)"
  shows "(r \<noteq> SKYUV_OK \<longrightarrow> live' = live \<and> th = None \<and> started = None)
    \<and> (r = SKYUV_OK \<longrightarrow> (\<exists>s st w live1. started = Some (s, st) \<and> wrap = Some w
         \<and> thread_start_routine s live' = ((0, Some w), live1)
         \<and> fst (skyuv_compat_thread_entry w st live1) = (routine, arg)
         \<and> skyuv_compat_pthread_join UV_OK th (snd (skyuv_compat_thread_entry w st live1)) = (SKYUV_OK, live)))"
  using assms
  by (auto simp: skyuv_compat_pthread_create_def skyuv_thread_create_def skyuv_compat_thread_entry_def
      skyuv_compat_pthread_join_def skyuv_thread_join_def thread_start_routine_def malloc_def free_def
      Let_def split: option.splits if_splits)

text \<open>A lock of Skynet that is initialised and destroyed gives its block back, whatever the handle held.\<close>

lemma compat_lock_memory:
  assumes "skyuv_compat_pthread_mutex_init mem native mutex live = (SKYUV_OK, Some m, live1)"
    and "skyuv_compat_pthread_cond_init mem' native' condition live1 = (SKYUV_OK, Some c, live2)"
  shows "\<exists>live3. skyuv_compat_pthread_mutex_destroy m live2 = (0, Some None, live3)
    \<and> skyuv_compat_pthread_cond_destroy c live3 = (0, Some None, live)"
  using assms
  by (auto simp: skyuv_compat_pthread_mutex_init_def skyuv_compat_pthread_cond_init_def
      skyuv_compat_pthread_mutex_destroy_def skyuv_compat_pthread_cond_destroy_def skyuv_mutex_init_def
      skyuv_mutex_destroy_def skyuv_cond_init_def skyuv_cond_destroy_def platform_init_def platform_destroy_def
      malloc_def free_def split: option.splits if_splits)

text \<open>
  Symbols and error texts: \<open>handle\<close> is the library structure, \<open>native\<close> the result of \<^verbatim>\<open>uv_dlsym\<close>, and \<open>saved\<close> the
  text of the last error. The text is NULL for the caller if it is empty.
\<close>

definition skyuv_compat_dlsym ::
    "uv_code \<times> ptr option \<Rightarrow> (ptr \<Rightarrow> string option) \<Rightarrow> object option \<Rightarrow> string option \<Rightarrow> string \<Rightarrow> ptr option \<times> string" where
  "skyuv_compat_dlsym native message handle name saved =
     (case skyuv_dlsym native handle name True of
        (result, symbol) \<Rightarrow>
          if result \<noteq> SKYUV_OK then (None, skyuv_compat_save_dlerror (skyuv_dlerror message handle))
          else (the symbol, saved))"

definition skyuv_compat_dlerror :: "string \<Rightarrow> string option" where
  "skyuv_compat_dlerror saved = (if saved = [] then None else Some saved)"

text \<open>
  A lookup that fails returns NULL, and the error that is then read is libuv's, cut to 511 characters; one that
  succeeds does not change the text.
\<close>

lemma dlsym_error:
  "skyuv_compat_dlsym (native, symbol) message (Some (Some lib)) (Some name) saved
    = (if native = UV_OK then (symbol, saved) else (None, case message lib of None \<Rightarrow> [] | Some e \<Rightarrow> take 511 e))
  \<and> skyuv_compat_dlerror (snd (skyuv_compat_dlsym (UV_ENOENT, symbol) message (Some (Some lib)) (Some name) saved))
    = (case message lib of None \<Rightarrow> None | Some e \<Rightarrow> if e = [] then None else Some (take 511 e))"
  by (auto simp: skyuv_compat_dlsym_def skyuv_dlsym_def skyuv_compat_save_dlerror_def skyuv_dlerror_def
      skyuv_compat_dlerror_def split: option.splits)

section \<open>System calls of the client\<close>

text \<open>
  Closing the receiving side of a connection: \<open>fileno\<close> is the result of \<^verbatim>\<open>uv_fileno\<close>, \<open>shut\<close> the translated
  error of \<^verbatim>\<open>shutdown\<close>, or \<open>UV_OK\<close>. Keeping the module loaded: on Windows one call, elsewhere the file of the
  module is looked up from the address and opened once more.
\<close>

definition skyuv_client_shutdown_read :: "uv_code \<Rightarrow> uv_code \<Rightarrow> uv_code" where
  "skyuv_client_shutdown_read fileno shut = (if fileno \<noteq> UV_OK then fileno else if shut \<noteq> UV_OK then shut else UV_OK)"

definition skyuv_client_module_retain ::
    "build_config \<Rightarrow> uv_code \<Rightarrow> (nat \<Rightarrow> string option) \<Rightarrow> (string \<Rightarrow> bool) \<Rightarrow> nat \<Rightarrow> uv_code" where
  "skyuv_client_module_retain cfg get_module dladdr dlopen address =
     (if win32 cfg then get_module
      else case dladdr address of
             None \<Rightarrow> UV_ENOENT
           | Some file \<Rightarrow> if dlopen file then UV_OK else UV_EIO)"

end
