(* ===== verification/Runtime_Paths.thy ===== *)
theory Runtime_Paths
  imports Skyuv_Prelude
begin

text \<open>
  Paths of the runtime (\<^verbatim>\<open>src/src/platform/runtime_paths.c\<close>). A C string is the list of its
  characters before the terminating zero; a function that writes into the caller's buffer
  returns the string the buffer holds afterwards. The answers of the file system are
  arguments: a function that changes the file system takes and returns its state, of any
  type, so that other processes may change it as well between two calls.
\<close>

section \<open>C strings\<close>

abbreviation NUL :: char where "NUL \<equiv> CHR 0x00"
abbreviation backslash :: char where "backslash \<equiv> CHR 0x5C"

text \<open>\<^verbatim>\<open>s[i]\<close>, which is the terminating zero at the end of the string.\<close>

definition char_at :: "string \<Rightarrow> nat \<Rightarrow> char" where
  "char_at s i = (if i < length s then s ! i else NUL)"

fun strrchr :: "char \<Rightarrow> string \<Rightarrow> nat option" where
  "strrchr c [] = None"
| "strrchr c (x # xs) =
     (case strrchr c xs of
        Some i \<Rightarrow> Some (Suc i)
      | None \<Rightarrow> if x = c then Some 0 else None)"

text \<open>
  \<^verbatim>\<open>snprintf\<close> with the formatted text \<open>s\<close>: its result, negative when the length does not fit
  an \<^verbatim>\<open>int\<close>, and the contents of a buffer of \<open>capacity\<close> characters.
\<close>

definition snprintf_result :: "string \<Rightarrow> int" where
  "snprintf_result s = (if int (length s) > INT_MAX then - 1 else int (length s))"

definition snprintf_output :: "nat \<Rightarrow> string \<Rightarrow> string" where
  "snprintf_output capacity s = take (capacity - 1) s"

definition SKYUV_RUNTIME_PATH_CAPACITY :: nat where "SKYUV_RUNTIME_PATH_CAPACITY = 4096"

section \<open>Operations\<close>

definition normalize_separators :: "build_config \<Rightarrow> string \<Rightarrow> string" where
  "normalize_separators cfg path =
     (if win32 cfg then map (\<lambda>c. if c = backslash then CHR ''/'' else c) path else path)"

definition skyuv_path_exists :: "(string \<Rightarrow> uv_code) \<Rightarrow> string \<Rightarrow> bool" where
  "skyuv_path_exists stat path \<longleftrightarrow> stat path = UV_OK"

text \<open>\<open>realpath\<close> is the status and the result of \<^verbatim>\<open>uv_fs_realpath\<close>.\<close>

definition skyuv_path_real ::
    "build_config \<Rightarrow> (string \<Rightarrow> uv_code \<times> string) \<Rightarrow> string \<Rightarrow> string \<Rightarrow> nat \<Rightarrow> uv_code \<times> string" where
  "skyuv_path_real cfg realpath path output capacity =
     (case realpath path of (result, resolved) \<Rightarrow>
        if result = UV_OK
        then (if length resolved \<ge> capacity then (UV_ENAMETOOLONG, output)
              else (UV_OK, normalize_separators cfg resolved))
        else (result, output))"

definition skyuv_path_parent :: "build_config \<Rightarrow> string \<Rightarrow> uv_code \<times> string" where
  "skyuv_path_parent cfg path0 =
     (let path = normalize_separators cfg path0 in
      case strrchr (CHR ''/'') path of
        None \<Rightarrow> (UV_EINVAL, path)
      | Some separator \<Rightarrow>
          if separator = 0 then (UV_OK, take 1 path)
          else if win32 cfg \<and> separator = 2 \<and> char_at path 1 = CHR '':'' then (UV_OK, take 3 path)
          else (UV_OK, take separator path))"

text \<open>
  \<open>exepath\<close> is the status of \<^verbatim>\<open>uv_exepath\<close> and the path it writes, whose length it stores in
  \<^verbatim>\<open>size\<close>.
\<close>

definition skyuv_find_install_root ::
    "build_config \<Rightarrow> (uv_code \<times> string) \<Rightarrow> nat \<Rightarrow> bool \<times> string" where
  "skyuv_find_install_root cfg exepath capacity =
     (case exepath of (status, path0) \<Rightarrow>
        if status \<noteq> UV_OK \<or> length path0 = 0 \<or> length path0 \<ge> capacity then (False, path0)
        else case skyuv_path_parent cfg path0 of (result, path) \<Rightarrow>
          if result \<noteq> UV_OK then (False, path)
          else case strrchr (CHR ''/'') path of
            None \<Rightarrow> (False, path)
          | Some separator \<Rightarrow>
              if drop (separator + 1) path \<noteq> ''bin'' then (False, path)
              else (case skyuv_path_parent cfg path of (result2, root) \<Rightarrow> (result2 = UV_OK, root)))"

definition skyuv_path_is_absolute :: "build_config \<Rightarrow> string \<Rightarrow> bool" where
  "skyuv_path_is_absolute cfg path \<longleftrightarrow>
     (let absolute = (char_at path 0 = CHR ''/'') in
      if win32 cfg
      then absolute \<or> char_at path 0 = backslash
        \<or> ((char_at path 0 \<noteq> NUL \<and> char_at path 1 = CHR '':'')
           \<and> (char_at path 2 = CHR ''/'' \<or> char_at path 2 = backslash))
      else absolute)"

text \<open>The end of both branches of \<^verbatim>\<open>skyuv_path_absolute\<close>: the formatted text, if it fits.\<close>

definition format_path :: "build_config \<Rightarrow> string \<Rightarrow> nat \<Rightarrow> uv_code \<times> string" where
  "format_path cfg text capacity =
     (if snprintf_result text < 0 \<or> nat (snprintf_result text) \<ge> capacity
      then (UV_ENAMETOOLONG, snprintf_output capacity text)
      else (UV_OK, normalize_separators cfg (snprintf_output capacity text)))"

definition skyuv_path_absolute ::
    "build_config \<Rightarrow> string \<Rightarrow> string \<Rightarrow> string \<Rightarrow> nat \<Rightarrow> uv_code \<times> string" where
  "skyuv_path_absolute cfg base path output capacity =
     (let absolute = skyuv_path_is_absolute cfg path in
      if win32 cfg \<and> char_at path 0 \<noteq> NUL \<and> char_at path 1 = CHR '':'' \<and> \<not> absolute
      then (UV_EINVAL, output)
      else if win32 cfg \<and> (char_at path 0 = CHR ''/'' \<or> char_at path 0 = backslash)
           \<and> char_at path 1 \<noteq> CHR ''/'' \<and> char_at path 1 \<noteq> backslash
      then (if char_at base 0 = NUL \<or> char_at base 1 \<noteq> CHR '':'' then (UV_EINVAL, output)
            else format_path cfg (char_at base 0 # CHR '':'' # path) capacity)
      else if char_at path 0 = NUL then (UV_EINVAL, output)
      else format_path cfg (if absolute then path else base @ ''/'' @ path) capacity)"

text \<open>
  \<open>mkdir\<close> is \<^verbatim>\<open>uv_fs_mkdir\<close>; \<open>stat\<close> is \<^verbatim>\<open>uv_fs_stat\<close>, with whether the mode is that of a
  directory. The recursion on the same path ends only if the parent that was just made is
  still there, so the function may fail to return: this is the value \<open>None\<close>.
\<close>

partial_function (option) skyuv_path_mkdir ::
    "build_config \<Rightarrow> ('w \<Rightarrow> string \<Rightarrow> uv_code \<times> 'w) \<Rightarrow> ('w \<Rightarrow> string \<Rightarrow> uv_code \<times> bool)
      \<Rightarrow> string \<Rightarrow> 'w \<Rightarrow> (uv_code \<times> 'w) option" where
  "skyuv_path_mkdir cfg mkdir stat path w =
     (case mkdir w path of (result, w1) \<Rightarrow>
        if result = UV_EEXIST
        then (case stat w1 path of (result, is_dir) \<Rightarrow>
                Some (if result = UV_OK \<and> \<not> is_dir then UV_ENOTDIR else result, w1))
        else if result \<noteq> UV_ENOENT then Some (result, w1)
        else if length path \<ge> SKYUV_RUNTIME_PATH_CAPACITY then Some (UV_ENAMETOOLONG, w1)
        else case skyuv_path_parent cfg path of (status, parent) \<Rightarrow>
          if status \<noteq> UV_OK \<or> parent = path then Some (UV_ENOENT, w1)
          else Option.bind (skyuv_path_mkdir cfg mkdir stat parent w1) (\<lambda>(result, w2).
            if result \<noteq> UV_OK then Some (result, w2)
            else skyuv_path_mkdir cfg mkdir stat path w2))"

declare skyuv_path_mkdir.simps [code]

definition skyuv_daemon_supported :: "build_config \<Rightarrow> bool" where
  "skyuv_daemon_supported cfg \<longleftrightarrow> \<not> win32 cfg"

section \<open>Separators\<close>

lemma strrchr_None: "strrchr c s = None \<longleftrightarrow> c \<notin> set s"
  by (induction s) (auto split: option.splits)

lemma strrchr_Some:
  "strrchr c s = Some i \<longleftrightarrow> i < length s \<and> s ! i = c \<and> c \<notin> set (drop (Suc i) s)"
proof (induction s arbitrary: i)
  case (Cons x xs)
  show ?case
  proof (cases "strrchr c xs")
    case None
    then have "c \<notin> set xs" by (simp add: strrchr_None)
    then show ?thesis using None by (cases i) auto
  next
    case (Some j)
    then have "j < length xs" "xs ! j = c" using Cons [of j] by auto
    then have c: "c \<in> set xs" by auto
    show ?thesis
    proof (cases i)
      case 0
      then show ?thesis using Some c by simp
    next
      case (Suc k)
      then show ?thesis using Some Cons [of k] by simp
    qed
  qed
qed simp

lemma strrchr_append: "c \<notin> set t \<Longrightarrow> strrchr c (s @ c # t) = Some (length s)"
  by (simp add: strrchr_Some)

lemma strrchr_split:
  assumes "strrchr c s = Some i"
  shows "s = take i s @ c # drop (Suc i) s \<and> c \<notin> set (drop (Suc i) s) \<and> length (take i s) = i"
  using assms by (auto simp: strrchr_Some id_take_nth_drop)

lemma normalize_length [simp]: "length (normalize_separators cfg p) = length p"
  by (simp add: normalize_separators_def)

lemma normalize_idem [simp]:
  "normalize_separators cfg (normalize_separators cfg p) = normalize_separators cfg p"
  by (simp add: normalize_separators_def)

lemma normalize_take [simp]:
  "normalize_separators cfg (take n p) = take n (normalize_separators cfg p)"
  by (simp add: normalize_separators_def take_map)

lemma normalize_append [simp]:
  "normalize_separators cfg (p @ q) = normalize_separators cfg p @ normalize_separators cfg q"
  by (simp add: normalize_separators_def)

text \<open>A parent is a normalised prefix of the path, shorter unless it is the path.\<close>

lemma path_parent_prefix:
  assumes "skyuv_path_parent cfg path = (UV_OK, parent)"
  shows "\<exists>n. parent = take n (normalize_separators cfg path)"
  using assms by (auto simp: skyuv_path_parent_def Let_def split: option.splits if_splits)

lemma path_parent_shorter:
  assumes "skyuv_path_parent cfg path = (UV_OK, parent)"
    and "parent \<noteq> path"
  shows "length parent < length path \<or> (parent = normalize_separators cfg path)"
proof -
  obtain n where n: "parent = take n (normalize_separators cfg path)"
    using path_parent_prefix [OF assms(1)] by blast
  show ?thesis by (cases "n < length path") (auto simp: n)
qed

text \<open>The parent of a path with a last separator, in normal form.\<close>

lemma path_parent_eq:
  assumes "normalize_separators cfg path = d @ CHR ''/'' # name" and "CHR ''/'' \<notin> set name"
  shows "skyuv_path_parent cfg path =
     (UV_OK, if d = [] \<or> (win32 cfg \<and> length d = 2 \<and> d ! 1 = CHR '':'') then d @ ''/'' else d)"
  using strrchr_append [OF assms(2), of d]
  by (auto simp: skyuv_path_parent_def assms(1) Let_def char_at_def nth_append)

lemma path_parent_UV_OK:
  assumes "skyuv_path_parent cfg path = (UV_OK, parent)"
  obtains d name where "normalize_separators cfg path = d @ CHR ''/'' # name" "CHR ''/'' \<notin> set name"
proof -
  obtain i where "strrchr (CHR ''/'') (normalize_separators cfg path) = Some i"
    using assms by (auto simp: skyuv_path_parent_def Let_def split: option.splits)
  from strrchr_split [OF this] show thesis using that by metis
qed

section \<open>The installation root\<close>

lemma install_root_normal:
  assumes "skyuv_path_parent cfg path = (UV_OK, parent)"
  shows "normalize_separators cfg parent = parent"
  using path_parent_prefix [OF assms] by auto

lemma install_root_found:
  assumes "normalize_separators cfg exe = dir @ ''/bin/'' @ name" "CHR ''/'' \<notin> set name"
    and "length exe < capacity"
  shows "skyuv_find_install_root cfg (UV_OK, exe) capacity =
     (True, if dir = [] \<or> (win32 cfg \<and> length dir = 2 \<and> dir ! 1 = CHR '':'') then dir @ ''/'' else dir)"
proof -
  have "exe \<noteq> []" using assms(1) by (cases exe) (auto simp: normalize_separators_def split: if_splits)
  have first: "skyuv_path_parent cfg exe = (UV_OK, dir @ ''/bin'')"
    using path_parent_eq [of cfg exe "dir @ ''/bin''" name] assms(1,2) by simp
  have normal: "normalize_separators cfg (dir @ ''/bin'') = dir @ CHR ''/'' # ''bin''"
    using install_root_normal [OF first] by simp
  have last: "strrchr (CHR ''/'') (dir @ ''/bin'') = Some (length dir)"
    using strrchr_append [of "CHR ''/''" "''bin''" dir] by simp
  show ?thesis
    using \<open>exe \<noteq> []\<close> assms(3) path_parent_eq [OF normal]
    by (simp add: skyuv_find_install_root_def first last)
qed

lemma install_root_only:
  assumes "skyuv_find_install_root cfg (status, exe) capacity = (True, root)"
  shows "status = UV_OK \<and> length exe < capacity
    \<and> (\<exists>dir name. normalize_separators cfg exe = dir @ ''/bin/'' @ name \<and> CHR ''/'' \<notin> set name)"
proof -
  obtain path i where first: "skyuv_path_parent cfg exe = (UV_OK, path)"
    and i: "strrchr (CHR ''/'') path = Some i" "drop (i + 1) path = ''bin''"
    and ok: "status = UV_OK" "length exe < capacity"
    using assms by (auto simp: skyuv_find_install_root_def split: prod.splits option.splits if_splits)
  obtain d name where d: "normalize_separators cfg exe = d @ CHR ''/'' # name" "CHR ''/'' \<notin> set name"
    using first by (rule path_parent_UV_OK)
  have path: "path = take i path @ ''/bin''" using strrchr_split [OF i(1)] i(2) by simp
  have "path = d \<or> path = d @ ''/''"
    using first path_parent_eq [OF d] by (auto split: if_splits)
  then have "path = d"
  proof
    assume "path = d @ ''/''"
    then have "last path = CHR ''/''" by simp
    moreover have "last path = CHR ''n''" by (subst path) simp
    ultimately show ?thesis by simp
  qed
  then have "normalize_separators cfg exe = take i path @ ''/bin/'' @ name"
    using d(1) path by simp
  then show ?thesis using d(2) ok by blast
qed

section \<open>Creating directories\<close>

text \<open>
  What \<open>skyuv_path_mkdir\<close> relies on: \<^verbatim>\<open>mkdir\<close> makes the directory it reports to have made, and
  answers \<^verbatim>\<open>ENOENT\<close> only if the parent is missing; \<^verbatim>\<open>stat\<close> tells directories from other files;
  directories are not removed meanwhile.
\<close>

definition file_system ::
    "build_config \<Rightarrow> ('w \<Rightarrow> string \<Rightarrow> uv_code \<times> 'w) \<Rightarrow> ('w \<Rightarrow> string \<Rightarrow> uv_code \<times> bool)
      \<Rightarrow> ('w \<Rightarrow> string \<Rightarrow> bool) \<Rightarrow> bool" where
  "file_system cfg mkdir stat is_dir \<longleftrightarrow>
     (\<forall>w p r w'. mkdir w p = (r, w') \<longrightarrow>
        (r = UV_OK \<longrightarrow> is_dir w' p)
        \<and> (\<forall>q. r = UV_ENOENT \<and> skyuv_path_parent cfg p = (UV_OK, q) \<and> q \<noteq> p \<longrightarrow> \<not> is_dir w q)
        \<and> (\<forall>q. is_dir w q \<longrightarrow> is_dir w' q))
     \<and> (\<forall>w p d. stat w p = (UV_OK, d) \<longrightarrow> d = is_dir w p)"

lemma file_system_mkdir:
  assumes "file_system cfg mkdir stat is_dir" "mkdir w p = (r, w')"
  shows "r = UV_OK \<Longrightarrow> is_dir w' p"
    and "r = UV_ENOENT \<Longrightarrow> skyuv_path_parent cfg p = (UV_OK, q) \<Longrightarrow> q \<noteq> p \<Longrightarrow> \<not> is_dir w q"
    and "is_dir w q \<Longrightarrow> is_dir w' q"
  using assms unfolding file_system_def by blast+

definition path_size :: "build_config \<Rightarrow> string \<Rightarrow> nat" where
  "path_size cfg p = 2 * length p + (if normalize_separators cfg p = p then 0 else 1)"

lemma path_size_parent:
  assumes "skyuv_path_parent cfg p = (UV_OK, q)" "q \<noteq> p"
  shows "path_size cfg q < path_size cfg p"
  using path_parent_shorter [OF assms] install_root_normal [OF assms(1)] assms(2)
  by (auto simp: path_size_def)

text \<open>
  A call on a path whose parent is a directory does not recurse; a recursive call has a smaller
  path.
\<close>

definition mkdir_done where
  "mkdir_done is_dir path w out \<longleftrightarrow>
     (\<exists>r w'. out = Some (r, w') \<and> (r = UV_OK \<longrightarrow> is_dir w' path) \<and> (\<forall>q. is_dir w q \<longrightarrow> is_dir w' q))"

lemma mkdir_at_once:
  assumes fs: "file_system cfg mkdir stat is_dir"
    and parent: "skyuv_path_parent cfg path = (UV_OK, q)" "q \<noteq> path" "is_dir w q"
  shows "mkdir_done is_dir path w (skyuv_path_mkdir cfg mkdir stat path w)"
proof -
  obtain r w1 where m: "mkdir w path = (r, w1)" by fastforce
  note facts = file_system_mkdir [OF fs m]
  have "r \<noteq> UV_ENOENT" using facts(2) [OF _ parent(1,2)] parent(3) by blast
  moreover have "\<And>d. stat w1 path = (UV_OK, d) \<Longrightarrow> d = is_dir w1 path"
    using fs unfolding file_system_def by blast
  ultimately show ?thesis
    using facts(1,3) by (auto simp: mkdir_done_def skyuv_path_mkdir.simps m split: prod.splits)
qed

lemma mkdir_returns:
  assumes fs: "file_system cfg mkdir stat is_dir"
  shows "mkdir_done is_dir path w (skyuv_path_mkdir cfg mkdir stat path w)"
proof (induction "path_size cfg path" arbitrary: path w rule: less_induct)
  case less
  obtain r w1 where m: "mkdir w path = (r, w1)" by fastforce
  obtain status parent where p: "skyuv_path_parent cfg path = (status, parent)" by fastforce
  note facts = file_system_mkdir [OF fs m]
  have st: "\<And>d. stat w1 path = (UV_OK, d) \<Longrightarrow> d = is_dir w1 path"
    using fs unfolding file_system_def by blast
  show ?case
  proof (cases "r = UV_ENOENT \<and> length path < SKYUV_RUNTIME_PATH_CAPACITY \<and> status = UV_OK \<and> parent \<noteq> path")
    case False
    then show ?thesis
      using facts(1,3) st by (auto simp: mkdir_done_def skyuv_path_mkdir.simps m p split: prod.splits)
  next
    case True
    then have p': "skyuv_path_parent cfg path = (UV_OK, parent)" "parent \<noteq> path" using p by auto
    obtain r2 w2 where rec: "skyuv_path_mkdir cfg mkdir stat parent w1 = Some (r2, w2)"
      "r2 = UV_OK \<longrightarrow> is_dir w2 parent" "\<forall>q. is_dir w1 q \<longrightarrow> is_dir w2 q"
      using less [OF path_size_parent [OF p'], of w1] unfolding mkdir_done_def by blast
    have step: "skyuv_path_mkdir cfg mkdir stat path w =
        (if r2 \<noteq> UV_OK then Some (r2, w2) else skyuv_path_mkdir cfg mkdir stat path w2)"
      using True by (subst skyuv_path_mkdir.simps) (simp add: m p rec(1))
    show ?thesis
    proof (cases "r2 = UV_OK")
      case False
      then show ?thesis using facts(3) rec(3) by (auto simp: step mkdir_done_def)
    next
      case r2: True
      then have "mkdir_done is_dir path w2 (skyuv_path_mkdir cfg mkdir stat path w2)"
        using mkdir_at_once [OF fs p'] rec(2) by blast
      then show ?thesis using facts(3) rec(3) r2 unfolding step mkdir_done_def by auto
    qed
  qed
qed

text \<open>If the parent vanishes whenever it has been made, the recursion does not end.\<close>

lemma mkdir_may_not_return:
  assumes "\<And>w. fst (mkdir w ''/a/b'') = UV_ENOENT" "\<And>w. fst (mkdir w ''/a'') = UV_OK"
  shows "skyuv_path_mkdir cfg mkdir stat ''/a/b'' w = None"
proof (rule ccontr)
  assume "skyuv_path_mkdir cfg mkdir stat ''/a/b'' w \<noteq> None"
  then obtain out where out: "skyuv_path_mkdir cfg mkdir stat ''/a/b'' w = Some out" by blast
  let ?P = "\<lambda>c m s p w out. c = cfg \<and> m = mkdir \<and> s = stat \<longrightarrow> p \<noteq> ''/a/b'' \<and> (p = ''/a'' \<longrightarrow> fst out = UV_OK)"
  have parent: "skyuv_path_parent cfg ''/a/b'' = (UV_OK, ''/a'')"
    by (auto simp: skyuv_path_parent_def normalize_separators_def Let_def char_at_def)
  define g h where "g w = snd (mkdir w ''/a/b'')" and "h w = snd (mkdir w ''/a'')" for w
  then have a: "mkdir w ''/a/b'' = (UV_ENOENT, g w)" "mkdir w ''/a'' = (UV_OK, h w)" for w
    using assms by (simp_all add: prod_eq_iff)
  have "?P cfg mkdir stat ''/a/b'' w out"
    apply (rule skyuv_path_mkdir.raw_induct [where P = ?P, OF _ out])
    apply (intro impI conjI notI; elim conjE)
    subgoal premises p for f c m s p w y
      using p(2-) p(1) [of cfg mkdir stat "''/a''"] p(1) [of cfg mkdir stat "''/a/b''"]
      by (cases y) (auto simp: a parent bind_eq_Some_conv SKYUV_RUNTIME_PATH_CAPACITY_def split: if_splits)
    subgoal premises p for f c m s p w y
      using p(2-) by (auto simp: a)
    done
  then show False by simp
qed

text \<open>
  C27. Creating a directory: on a file system that behaves as \<open>file_system\<close> says,
  \<open>skyuv_path_mkdir\<close> returns for every path and whatever exists already; if it reports success
  the path is a directory, and every directory that was there before is still there. A path
  that exists as something else is never reported as a success.
\<close>

theorem path_mkdir_returns:
  assumes "file_system cfg mkdir stat is_dir"
  shows "\<exists>r w'. skyuv_path_mkdir cfg mkdir stat path w = Some (r, w')
    \<and> (r = UV_OK \<longrightarrow> is_dir w' path)
    \<and> (\<forall>q. is_dir w q \<longrightarrow> is_dir w' q)"
  using mkdir_returns [OF assms, of path w] unfolding mkdir_done_def by blast

text \<open>A file system that holds directories only.\<close>

definition ex_posix :: build_config where
  "ex_posix = \<lparr>slot_bits = 16, external_fd_supported = True, win32 = False\<rparr>"

definition ex_mkdir :: "string list \<Rightarrow> string \<Rightarrow> uv_code \<times> string list" where
  "ex_mkdir w p =
     (if p \<in> set w then (UV_EEXIST, w)
      else case skyuv_path_parent ex_posix p of (r, q) \<Rightarrow>
        if r = UV_OK \<and> q \<noteq> p \<and> q \<notin> set w then (UV_ENOENT, w) else (UV_OK, p # w))"

definition ex_stat :: "string list \<Rightarrow> string \<Rightarrow> uv_code \<times> bool" where
  "ex_stat w p = (if p \<in> set w then (UV_OK, True) else (UV_ENOENT, False))"

theorem path_mkdir_returns_witness:
  "file_system ex_posix ex_mkdir ex_stat (\<lambda>w p. p \<in> set w)
    \<and> (\<exists>r w'. skyuv_path_mkdir ex_posix ex_mkdir ex_stat ''/srv/log'' [''/''] = Some (r, w')
        \<and> r = UV_OK \<and> {''/'', ''/srv'', ''/srv/log''} \<subseteq> set w')"
proof -
  have fs: "file_system ex_posix ex_mkdir ex_stat (\<lambda>w p. p \<in> set w)"
    by (auto simp: file_system_def ex_mkdir_def ex_stat_def split: if_splits prod.splits)
  have run: "skyuv_path_mkdir ex_posix ex_mkdir ex_stat ''/srv/log'' [''/'']
      = Some (UV_OK, [''/srv/log'', ''/srv'', ''/''])"
    by code_simp
  show ?thesis using path_mkdir_returns [OF fs, of "''/srv/log''" "[''/'']"] fs run by simp
qed

section \<open>Absolute paths\<close>

text \<open>
  A path that means the same from every working directory: on Windows it needs a drive or a
  server.
\<close>

definition anchored :: "build_config \<Rightarrow> string \<Rightarrow> bool" where
  "anchored cfg p \<longleftrightarrow>
     (if win32 cfg
      then (char_at p 0 \<noteq> NUL \<and> char_at p 0 \<noteq> CHR ''/'' \<and> char_at p 1 = CHR '':'' \<and> char_at p 2 = CHR ''/'')
         \<or> (char_at p 0 = CHR ''/'' \<and> char_at p 1 = CHR ''/'')
      else char_at p 0 = CHR ''/'')
     \<and> (win32 cfg \<longrightarrow> backslash \<notin> set p)"

lemma format_path_OK:
  "format_path cfg text capacity = (UV_OK, out) \<longleftrightarrow>
     length text < capacity \<and> int (length text) \<le> INT_MAX \<and> out = normalize_separators cfg text"
  by (auto simp: format_path_def snprintf_result_def snprintf_output_def split: if_splits)

lemma char_at_normalize:
  "char_at (normalize_separators cfg p) i =
     (if win32 cfg \<and> char_at p i = backslash then CHR ''/'' else char_at p i)"
  by (auto simp: char_at_def normalize_separators_def)

lemma backslash_normalize: "win32 cfg \<Longrightarrow> backslash \<notin> set (normalize_separators cfg p)"
  by (auto simp: normalize_separators_def split: if_splits)

lemma normalize_anchored: "anchored cfg p \<Longrightarrow> normalize_separators cfg p = p"
  by (auto simp: anchored_def normalize_separators_def intro!: map_idI)

lemma char_at_append: "char_at (p @ q) i = (if i < length p then char_at p i else char_at q (i - length p))"
  by (auto simp: char_at_def nth_append)

lemma char_at_NUL: "char_at p i \<noteq> NUL \<Longrightarrow> i < length p"
  by (auto simp: char_at_def split: if_splits)

lemma char_at_Cons: "char_at (x # p) i = (case i of 0 \<Rightarrow> x | Suc j \<Rightarrow> char_at p j)"
  by (auto simp: char_at_def split: nat.splits)

lemma anchored_append:
  assumes "anchored cfg base"
  shows "anchored cfg (normalize_separators cfg (base @ q))"
proof -
  have i: "char_at base i \<noteq> NUL \<Longrightarrow> char_at (normalize_separators cfg (base @ q)) i = char_at base i" for i
    using char_at_NUL [of base i] assms normalize_anchored [OF assms]
    by (simp add: char_at_append)
  show ?thesis
    using assms i [of 0] i [of 1] i [of 2] backslash_normalize [of cfg "base @ q"]
    unfolding anchored_def by (auto split: if_splits)
qed

lemma anchored_no_backslash: "anchored cfg p \<Longrightarrow> win32 cfg \<Longrightarrow> char_at p i \<noteq> backslash"
  by (auto simp: anchored_def char_at_def split: if_splits dest: nth_mem)

lemma path_absolute_fits:
  assumes "skyuv_path_absolute cfg base path output capacity = (UV_OK, out)"
  shows "length out < capacity \<and> int (length out) \<le> INT_MAX"
  using assms unfolding skyuv_path_absolute_def Let_def
  by (auto simp: format_path_OK split: if_splits)

lemma path_absolute_cases:
  assumes "skyuv_path_absolute cfg base path output capacity = (UV_OK, out)"
  obtains
    (drive) "win32 cfg" "char_at path 0 = CHR ''/'' \<or> char_at path 0 = backslash"
      "char_at base 0 \<noteq> NUL" "char_at base 1 = CHR '':''" "out = normalize_separators cfg (char_at base 0 # CHR '':'' # path)"
  | (same) "skyuv_path_is_absolute cfg path"
      "win32 cfg \<longrightarrow> char_at path 0 \<noteq> CHR ''/'' \<and> char_at path 0 \<noteq> backslash
        \<or> char_at path 1 = CHR ''/'' \<or> char_at path 1 = backslash"
      "out = normalize_separators cfg path"
  | (relative) "\<not> skyuv_path_is_absolute cfg path" "out = normalize_separators cfg (base @ ''/'' @ path)"
  using assms unfolding skyuv_path_absolute_def Let_def
  by (auto simp: format_path_OK split: if_splits)

lemma path_absolute_anchored:
  assumes "anchored cfg base" "skyuv_path_absolute cfg base path output capacity = (UV_OK, out)"
  shows "anchored cfg out"
  using assms(2)
proof (cases rule: path_absolute_cases)
  case drive
  then show ?thesis
    using assms(1) anchored_no_backslash [OF assms(1), of 0] backslash_normalize [of cfg "char_at base 0 # CHR '':'' # path"]
    by (auto simp: anchored_def char_at_normalize char_at_Cons)
next
  case same
  then show ?thesis
    using backslash_normalize [of cfg path]
    by (auto simp: anchored_def char_at_normalize skyuv_path_is_absolute_def Let_def split: if_splits)
next
  case relative
  then show ?thesis using anchored_append [OF assms(1)] by blast
qed

lemma path_absolute_fixed:
  assumes "anchored cfg p" "length p < capacity" "int (length p) \<le> INT_MAX"
  shows "skyuv_path_absolute cfg base p output capacity = (UV_OK, p)"
proof -
  have "skyuv_path_is_absolute cfg p" "char_at p 0 \<noteq> NUL"
    using assms(1) by (auto simp: anchored_def skyuv_path_is_absolute_def Let_def split: if_splits)
  moreover have "char_at p 0 \<noteq> backslash" if "win32 cfg"
    using assms(1) that by (cases p) (auto simp: anchored_def char_at_def split: if_splits)
  ultimately show ?thesis
    using assms normalize_anchored [OF assms(1)]
    unfolding skyuv_path_absolute_def Let_def anchored_def
    by (auto simp: format_path_OK split: if_splits)
qed

text \<open>
  C28. Resolving a path against an anchored base, on Unix and Windows: a success gives an anchored
  path that fits the buffer, with forward slashes on Windows, and resolving it again against
  whatever base gives it back, so that it no longer depends on a base, a working directory or a
  current drive. The only failures are an invalid path and one that is too long. On Unix
  the result is the path itself or the path below the base, and only an empty path is invalid.
\<close>

theorem path_absolute_stable:
  assumes "anchored cfg base" and "skyuv_path_absolute cfg base path output capacity = (r, out)"
  shows "(r = UV_OK \<longrightarrow> anchored cfg out \<and> length out < capacity
      \<and> (\<forall>base' output'. skyuv_path_absolute cfg base' out output' capacity = (UV_OK, out)))
    \<and> r \<in> {UV_OK, UV_EINVAL, UV_ENAMETOOLONG}
    \<and> (\<not> win32 cfg \<longrightarrow> (r = UV_EINVAL \<longleftrightarrow> char_at path 0 = NUL)
        \<and> (r = UV_OK \<longrightarrow> out = (if char_at path 0 = CHR ''/'' then path else base @ ''/'' @ path)))"
proof (intro conjI impI allI)
  assume ok: "r = UV_OK"
  with assms(2) have o: "skyuv_path_absolute cfg base path output capacity = (UV_OK, out)" by simp
  show a: "anchored cfg out" using assms(1) o by (rule path_absolute_anchored)
  show "length out < capacity" using path_absolute_fits [OF o] by blast
  fix base' output'
  show "skyuv_path_absolute cfg base' out output' capacity = (UV_OK, out)"
    using path_absolute_fixed [OF a] path_absolute_fits [OF o] by blast
next
  show "r \<in> {UV_OK, UV_EINVAL, UV_ENAMETOOLONG}"
    using assms(2) by (auto simp: skyuv_path_absolute_def format_path_def Let_def split: if_splits)
next
  assume "\<not> win32 cfg"
  then show "r = UV_EINVAL \<longleftrightarrow> char_at path 0 = NUL"
    using assms(2) by (auto simp: skyuv_path_absolute_def format_path_def Let_def split: if_splits)
next
  assume "\<not> win32 cfg" "r = UV_OK"
  then show "out = (if char_at path 0 = CHR ''/'' then path else base @ ''/'' @ path)"
    using assms(2)
    by (auto simp: skyuv_path_absolute_def format_path_OK Let_def skyuv_path_is_absolute_def
        normalize_separators_def split: if_splits)
qed

definition ex_windows :: build_config where
  "ex_windows = \<lparr>slot_bits = 16, external_fd_supported = False, win32 = True\<rparr>"

theorem path_absolute_stable_witness:
  "anchored ex_windows ''C:/app''
    \<and> skyuv_path_absolute ex_windows ''C:/app'' (backslash # ''log'') [] 64 = (UV_OK, ''C:/log'')
    \<and> anchored ex_windows ''C:/log''
    \<and> skyuv_path_absolute ex_windows ''D:/'' ''C:/log'' [] 64 = (UV_OK, ''C:/log'')"
proof -
  have a: "anchored ex_windows ''C:/app''" by code_simp
  have o: "skyuv_path_absolute ex_windows ''C:/app'' (backslash # ''log'') [] 64 = (UV_OK, ''C:/log'')"
    by code_simp
  show ?thesis using path_absolute_stable [OF a o] a o by blast
qed

text \<open>
  The installation root is found exactly for an executable in a directory
  \<^verbatim>\<open>bin\<close>: the search succeeds if and only if libuv knows the path of the executable, it fits the
  buffer and it reads \<^verbatim>\<open>dir/bin/name\<close>; the root is then \<^verbatim>\<open>dir\<close>, or the root directory of the file
  system or drive if \<^verbatim>\<open>bin\<close> lies there.
\<close>

theorem install_root_located:
  "skyuv_find_install_root cfg (status, exe) capacity = (True, root)
      \<longleftrightarrow> status = UV_OK \<and> length exe < capacity
        \<and> (\<exists>dir name. normalize_separators cfg exe = dir @ ''/bin/'' @ name \<and> CHR ''/'' \<notin> set name
            \<and> root = (if dir = [] \<or> (win32 cfg \<and> length dir = 2 \<and> dir ! 1 = CHR '':'')
                then dir @ ''/'' else dir))"
proof
  assume found: "skyuv_find_install_root cfg (status, exe) capacity = (True, root)"
  from install_root_only [OF found] obtain dir name
    where *: "status = UV_OK" "length exe < capacity"
      "normalize_separators cfg exe = dir @ ''/bin/'' @ name" "CHR ''/'' \<notin> set name"
    by blast
  moreover have "root = (if dir = [] \<or> (win32 cfg \<and> length dir = 2 \<and> dir ! 1 = CHR '':'')
      then dir @ ''/'' else dir)"
    using install_root_found [OF *(3,4,2)] found *(1) by simp
  ultimately show "status = UV_OK \<and> length exe < capacity
        \<and> (\<exists>dir name. normalize_separators cfg exe = dir @ ''/bin/'' @ name \<and> CHR ''/'' \<notin> set name
            \<and> root = (if dir = [] \<or> (win32 cfg \<and> length dir = 2 \<and> dir ! 1 = CHR '':'')
                then dir @ ''/'' else dir))"
    by blast
qed (use install_root_found in blast)

end
