(* ===== verification/Runtime_Config.thy ===== *)
theory Runtime_Config
  imports Runtime_Paths "HOL-Library.Code_Target_Nat"
begin

text \<open>
  Configuration of the runtime: the loader script (\<^verbatim>\<open>src/src/runtime/config_loader.lua\<close>), the
  resolution of the directories (\<^verbatim>\<open>src/src/runtime/config.c\<close>) and the command line
  (\<^verbatim>\<open>src/src/runtime/launcher.c\<close>). A Lua table of configuration values is a map; nil is \<open>None\<close>.
  Diagnostics on stderr are not modelled.
\<close>

section \<open>Values\<close>

text \<open>A value that is not nil: a string, which may contain zeros, or a value of another type.\<close>

datatype lua_value = Lua_string string | Lua_other nat

type_synonym config_table = "string \<Rightarrow> lua_value option"

datatype lua_status = LUA_OK | LUA_ERRRUN | LUA_STATUS nat

record skyuv_runtime_paths =
  rp_enabled :: bool
  install_root :: string
  config_file :: string
  config_root :: string
  log_root :: "string option"
  run_root :: "string option"

section \<open>The loader script\<close>

text \<open>
  A configuration file is a Lua chunk whose globals are the table of the result. What
  matters of its run are the assignments to globals and the calls of \<^verbatim>\<open>include\<close>, in order.
\<close>

datatype config_action = Assign string "lua_value option" | Include string

text \<open>
  \<open>le_open\<close> is \<^verbatim>\<open>io.open\<close> with \<^verbatim>\<open>file:read\<close>, \<open>le_getenv\<close> is \<^verbatim>\<open>os.getenv\<close>, \<open>le_load\<close> compiles the
  code; \<open>le_roots\<close> is the table of the reserved variables.
\<close>

record loader_env =
  le_open :: "string \<Rightarrow> string option"
  le_getenv :: "string \<Rightarrow> string option"
  le_load :: "string \<Rightarrow> config_action list option"
  le_roots :: config_table

record loader =
  current_path :: string
  ld_result :: config_table

text \<open>The class \<^verbatim>\<open>[%w_%d]\<close>, and the substitution \<^verbatim>\<open>code:gsub("%$([%w_%d]+)", getenv)\<close>.\<close>

definition name_char :: "char \<Rightarrow> bool" where
  "name_char c \<longleftrightarrow> c \<in> set ''ABCDEFGHIJKLMNOPQRSTUVWXYZabcdefghijklmnopqrstuvwxyz0123456789_''"

function (sequential) substitute :: "(string \<Rightarrow> string option) \<Rightarrow> string \<Rightarrow> string option" where
  "substitute env [] = Some []"
| "substitute env (c # cs) =
     (let name = takeWhile name_char cs in
      if c = CHR ''$'' \<and> name \<noteq> []
      then (case env name of
              None \<Rightarrow> None
            | Some v \<Rightarrow> map_option (\<lambda>rest. v @ rest) (substitute env (dropWhile name_char cs)))
      else map_option (\<lambda>rest. c # rest) (substitute env cs))"
  by pat_completeness auto

termination
  by (relation "measure (\<lambda>(_, s). length s)") (auto simp: le_imp_less_Suc length_dropWhile_le)

text \<open>The part of a file name up to its last slash; whether it begins at a root or at a drive.\<close>

definition split_filename :: "string \<Rightarrow> string option \<times> string" where
  "split_filename filename =
     (case strrchr (CHR ''/'') filename of
        None \<Rightarrow> (None, filename)
      | Some i \<Rightarrow> (Some (take (Suc i) filename), drop (Suc i) filename))"

definition letter :: "char \<Rightarrow> bool" where
  "letter c \<longleftrightarrow> c \<in> set ''ABCDEFGHIJKLMNOPQRSTUVWXYZabcdefghijklmnopqrstuvwxyz''"

definition rooted :: "string \<Rightarrow> bool" where
  "rooted path \<longleftrightarrow> char_at path 0 = CHR ''/''
     \<or> (letter (char_at path 0) \<and> char_at path 1 = CHR '':'' \<and> char_at path 2 = CHR ''/'')"

definition include_path :: "string \<Rightarrow> string \<Rightarrow> string \<times> string" where
  "include_path current filename =
     (case split_filename (map (\<lambda>c. if c = backslash then CHR ''/'' else c) filename) of
        (None, name) \<Rightarrow> (current, name)
      | (Some path, name) \<Rightarrow> (if rooted path then path else current @ path, name))"

text \<open>
  An assignment to a global goes through \<^verbatim>\<open>__newindex\<close> when the key is new, which refuses the
  reserved names; \<^verbatim>\<open>include\<close> is found by \<^verbatim>\<open>__index\<close> unless the configuration has assigned that name.
  An error of Lua is \<open>None\<close>.
\<close>

definition assign_global :: "loader_env \<Rightarrow> string \<Rightarrow> lua_value option \<Rightarrow> loader \<Rightarrow> loader option" where
  "assign_global env key v ld =
     (if ld_result ld key = None \<and> le_roots env key \<noteq> None then None
      else Some (ld\<lparr>ld_result := (ld_result ld)(key := v)\<rparr>))"

fun run_chunk :: "loader_env \<Rightarrow> (string \<Rightarrow> loader \<Rightarrow> loader option) \<Rightarrow> config_action list \<Rightarrow> loader \<Rightarrow> loader option" where
  "run_chunk env inc [] ld = Some ld"
| "run_chunk env inc (Assign key v # acts) ld =
     Option.bind (assign_global env key v ld) (run_chunk env inc acts)"
| "run_chunk env inc (Include filename # acts) ld =
     (if ld_result ld ''include'' \<noteq> None then None
      else Option.bind (inc filename ld) (run_chunk env inc acts))"

text \<open>
  \<open>depth\<close> is the nesting of calls at which Lua raises a stack overflow, which also ends a file
  that includes itself.
\<close>

primrec loader_include :: "loader_env \<Rightarrow> nat \<Rightarrow> string \<Rightarrow> loader \<Rightarrow> loader option" where
  "loader_include env 0 filename ld = None"
| "loader_include env (Suc depth) filename ld =
     (let previous = current_path ld; (path, name) = include_path previous filename in
      Option.bind (le_open env (path @ name)) (\<lambda>code.
      Option.bind (substitute (le_getenv env) code) (\<lambda>code.
      Option.bind (le_load env code) (\<lambda>chunk.
      Option.bind (run_chunk env (loader_include env depth) chunk (ld\<lparr>current_path := path\<rparr>)) (\<lambda>ld.
      Some (ld\<lparr>current_path := previous\<rparr>))))))"

definition config_loader :: "loader_env \<Rightarrow> nat \<Rightarrow> string \<Rightarrow> config_table option" where
  "config_loader env depth config_name =
     map_option ld_result
       (loader_include env depth config_name \<lparr>current_path = [], ld_result = Map.empty\<rparr>)"

section \<open>Reading and writing the table\<close>

text \<open>
  The value and the new content of \<^verbatim>\<open>valid\<close>. A string with a zero inside is read up to the zero
  and is invalid.
\<close>

definition config_string :: "config_table \<Rightarrow> string \<Rightarrow> bool \<Rightarrow> string option \<times> bool" where
  "config_string L key valid =
     (case L key of
        None \<Rightarrow> (None, valid)
      | Some (Lua_other _) \<Rightarrow> (None, False)
      | Some (Lua_string s) \<Rightarrow>
          (let v = takeWhile (\<lambda>c. c \<noteq> NUL) s in
           (Some v, if length v \<noteq> length s then False else valid)))"

definition set_string :: "config_table \<Rightarrow> string \<Rightarrow> string \<Rightarrow> config_table" where
  "set_string L key v = L(key \<mapsto> Lua_string v)"

section \<open>Directories and output files\<close>

text \<open>\<open>getenv\<close> is the status of \<^verbatim>\<open>uv_os_getenv\<close> and the value it stores.\<close>

definition resolve_root ::
    "build_config \<Rightarrow> skyuv_runtime_paths \<Rightarrow> (string \<Rightarrow> uv_code \<times> string) \<Rightarrow> config_table
      \<Rightarrow> string option \<Rightarrow> string \<Rightarrow> string \<Rightarrow> string \<Rightarrow> string \<Rightarrow> nat \<Rightarrow> uv_code \<times> string" where
  "resolve_root cfg paths getenv L option environment key fallback output capacity =
     (case (case option of
              Some v \<Rightarrow> Inr (Some v)
            | None \<Rightarrow>
                (case getenv environment of (result, v) \<Rightarrow>
                   if result = UV_OK then Inr (Some v)
                   else if result \<noteq> UV_ENOENT then Inl result
                   else Inr None)) of
        Inl result \<Rightarrow> (result, output)
      | Inr value \<Rightarrow>
          (case (case value of None \<Rightarrow> config_string L key True | Some v \<Rightarrow> (Some v, True)) of (value, valid) \<Rightarrow>
             if \<not> valid then (UV_EINVAL, output)
             else skyuv_path_absolute cfg (config_root paths)
                    (case value of None \<Rightarrow> fallback | Some v \<Rightarrow> v) output capacity))"

definition resolve_output ::
    "build_config \<Rightarrow> ('w \<Rightarrow> string \<Rightarrow> uv_code \<times> 'w) \<Rightarrow> ('w \<Rightarrow> string \<Rightarrow> uv_code \<times> bool)
      \<Rightarrow> config_table \<Rightarrow> string \<Rightarrow> string \<Rightarrow> bool \<Rightarrow> 'w \<Rightarrow> (uv_code \<times> config_table \<times> 'w) option" where
  "resolve_output cfg mkdir stat L key root create_root w =
     (case config_string L key True of (value, valid) \<Rightarrow>
        if \<not> valid then Some (UV_EINVAL, L, w)
        else case value of
          None \<Rightarrow> Some (UV_OK, L, w)
        | Some v \<Rightarrow>
            (case skyuv_path_absolute cfg root v [] SKYUV_RUNTIME_PATH_CAPACITY of (result, path) \<Rightarrow>
               if result \<noteq> UV_OK then Some (result, L, w)
               else if create_root \<and> \<not> skyuv_path_is_absolute cfg v
               then Option.bind (skyuv_path_mkdir cfg mkdir stat root w) (\<lambda>(result, w').
                      if result \<noteq> UV_OK then Some (result, L, w')
                      else Some (UV_OK, set_string L key path, w'))
               else Some (UV_OK, set_string L key path, w)))"

text \<open>The end of \<^verbatim>\<open>skyuv_config_load\<close>: the log file and the PID file.\<close>

definition prepare_outputs ::
    "build_config \<Rightarrow> ('w \<Rightarrow> string \<Rightarrow> uv_code \<times> 'w) \<Rightarrow> ('w \<Rightarrow> string \<Rightarrow> uv_code \<times> bool)
      \<Rightarrow> config_table \<Rightarrow> string \<Rightarrow> string \<Rightarrow> 'w \<Rightarrow> (lua_status \<times> config_table \<times> 'w) option" where
  "prepare_outputs cfg mkdir stat L log run w =
     (case config_string L ''daemon'' True of (daemon, valid) \<Rightarrow>
      case config_string L ''logservice'' valid of (service, valid) \<Rightarrow>
        if \<not> valid then Some (LUA_ERRRUN, L, w)
        else if daemon \<noteq> None \<and> \<not> skyuv_daemon_supported cfg then Some (LUA_ERRRUN, L, w)
        else
          Option.bind
            (if service = None \<or> service = Some ''logger''
             then resolve_output cfg mkdir stat L ''logger'' log True w
             else Some (UV_OK, L, w)) (\<lambda>(result, L, w).
          Option.bind
            (if result = UV_OK \<and> daemon \<noteq> None
             then resolve_output cfg mkdir stat L ''daemon'' run True w
             else Some (result, L, w)) (\<lambda>(result, L, w).
          Some (if result \<noteq> UV_OK then LUA_ERRRUN else LUA_OK, L, w))))"

definition reserved_roots :: "skyuv_runtime_paths \<Rightarrow> config_table" where
  "reserved_roots paths =
     set_string (set_string Map.empty ''skyuv_install_root'' (install_root paths))
       ''skyuv_config_root'' (config_root paths)"

text \<open>
  \<open>load_status\<close> is the result of \<^verbatim>\<open>luaL_loadbufferx\<close>, \<open>pcall\<close> the status and result of running the
  script: the loader with the reserved variables when the new mode is enabled, the
  script of Skynet otherwise.
\<close>

definition skyuv_config_load ::
    "build_config \<Rightarrow> ('w \<Rightarrow> string \<Rightarrow> uv_code \<times> 'w) \<Rightarrow> ('w \<Rightarrow> string \<Rightarrow> uv_code \<times> bool)
      \<Rightarrow> skyuv_runtime_paths \<Rightarrow> (string \<Rightarrow> uv_code \<times> string)
      \<Rightarrow> lua_status \<Rightarrow> (config_table option \<Rightarrow> string \<Rightarrow> lua_status \<times> config_table)
      \<Rightarrow> string \<Rightarrow> 'w \<Rightarrow> (lua_status \<times> config_table \<times> 'w) option" where
  "skyuv_config_load cfg mkdir stat paths getenv load_status pcall config_name w =
     (if load_status \<noteq> LUA_OK then Some (load_status, Map.empty, w)
      else
        let roots = (if rp_enabled paths then Some (reserved_roots paths) else None)
        in case pcall roots config_name of (status, L) \<Rightarrow>
        if status \<noteq> LUA_OK \<or> \<not> rp_enabled paths then Some (status, L, w)
        else case resolve_root cfg paths getenv L (log_root paths) ''SKYUV_LOG_ROOT'' ''skyuv_log_root''
                    ''log'' [] SKYUV_RUNTIME_PATH_CAPACITY of (result, log) \<Rightarrow>
        if result \<noteq> UV_OK then Some (LUA_ERRRUN, L, w)
        else case resolve_root cfg paths getenv L (run_root paths) ''SKYUV_RUN_ROOT'' ''skyuv_run_root''
                    ''run'' [] SKYUV_RUNTIME_PATH_CAPACITY of (result, run) \<Rightarrow>
        if result \<noteq> UV_OK then Some (LUA_ERRRUN, L, w)
        else
          let L = set_string L ''skyuv_install_root'' (install_root paths);
              L = set_string L ''skyuv_config_root'' (config_root paths);
              L = set_string L ''skyuv_log_root'' log;
              L = set_string L ''skyuv_run_root'' run
          in prepare_outputs cfg mkdir stat L log run w)"

section \<open>Includes\<close>

text \<open>The file an \<^verbatim>\<open>include\<close> opens: the name itself if it has a root, else the name below the directory of the including file.\<close>

lemma char_at_mem: "char_at f j = c \<Longrightarrow> c \<noteq> NUL \<Longrightarrow> c \<in> set f"
  by (auto simp: char_at_def split: if_splits)

lemma char_at_take: "char_at (take n f) j = (if j < n then char_at f j else NUL)"
  by (simp add: char_at_def)

lemma char_at_drop: "char_at (drop n f) j = char_at f (n + j)"
  by (auto simp: char_at_def)

lemma strrchr_last:
  assumes "strrchr c f = Some i" "char_at f j = c" "c \<noteq> NUL"
  shows "j \<le> i"
proof (rule ccontr)
  assume "\<not> j \<le> i"
  then have "char_at (drop (Suc i) f) (j - Suc i) = c" using assms(2) by (simp add: char_at_drop)
  then show False using char_at_mem [OF _ assms(3)] assms(1) by (auto simp: strrchr_Some)
qed

lemma rooted_prefix:
  assumes "strrchr (CHR ''/'') f = Some i"
  shows "rooted (take (Suc i) f) = rooted f"
  using strrchr_last [OF assms, of 2] unfolding rooted_def char_at_take by auto

lemma rooted_slash: "rooted f \<Longrightarrow> CHR ''/'' \<in> set f"
  unfolding rooted_def by (auto dest: char_at_mem)

lemma include_path_file:
  assumes "include_path current filename = (path, name)"
    and "f = map (\<lambda>c. if c = backslash then CHR ''/'' else c) filename"
  shows "path @ name = (if rooted f then f else current @ f)"
proof (cases "strrchr (CHR ''/'') f")
  case None
  then have "\<not> rooted f" using rooted_slash strrchr_None by blast
  then show ?thesis
    using assms(1) None unfolding include_path_def assms(2) [symmetric] split_filename_def by auto
next
  case (Some i)
  then show ?thesis
    using assms(1) rooted_prefix [OF Some]
    unfolding include_path_def assms(2) [symmetric] split_filename_def by auto
qed

text \<open>What every include keeps: the reserved names stay unassigned, the current directory is restored.\<close>

definition include_keeps :: "loader_env \<Rightarrow> (string \<Rightarrow> loader \<Rightarrow> loader option) \<Rightarrow> bool" where
  "include_keeps env inc \<longleftrightarrow> (\<forall>filename ld ld'. inc filename ld = Some ld' \<longrightarrow>
     current_path ld' = current_path ld
     \<and> (\<forall>k. le_roots env k \<noteq> None \<and> ld_result ld k = None \<longrightarrow> ld_result ld' k = None))"

lemma run_chunk_keeps:
  assumes "include_keeps env inc" "run_chunk env inc acts ld = Some ld'"
  shows "current_path ld' = current_path ld
     \<and> (\<forall>k. le_roots env k \<noteq> None \<and> ld_result ld k = None \<longrightarrow> ld_result ld' k = None)"
  using assms(2)
proof (induction acts arbitrary: ld)
  case (Cons act acts)
  obtain ld1 where s: "run_chunk env inc acts ld1 = Some ld'"
    and k: "current_path ld1 = current_path ld"
      "\<forall>k. le_roots env k \<noteq> None \<and> ld_result ld k = None \<longrightarrow> ld_result ld1 k = None"
  proof (cases act)
    case (Assign key v)
    then show thesis
      using Cons.prems that by (auto simp: bind_eq_Some_conv assign_global_def split: if_splits)
  next
    case (Include f)
    then show thesis
      using Cons.prems assms(1) that
      by (auto simp: bind_eq_Some_conv include_keeps_def split: if_splits)
  qed
  show ?case using Cons.IH [OF s] k by auto
qed simp

lemma loader_include_keeps: "include_keeps env (loader_include env depth)"
proof (induction depth)
  case (Suc depth)
  show ?case unfolding include_keeps_def
  proof (intro allI impI)
    fix filename ld ld'
    assume "loader_include env (Suc depth) filename ld = Some ld'"
    then obtain path chunk ld1 where r: "run_chunk env (loader_include env depth) chunk (ld\<lparr>current_path := path\<rparr>) = Some ld1"
      and l: "ld' = ld1\<lparr>current_path := current_path ld\<rparr>"
      by (auto simp: Let_def bind_eq_Some_conv split: prod.splits)
    show "current_path ld' = current_path ld
        \<and> (\<forall>k. le_roots env k \<noteq> None \<and> ld_result ld k = None \<longrightarrow> ld_result ld' k = None)"
      using run_chunk_keeps [OF Suc r] by (simp add: l)
  qed
qed (simp add: include_keeps_def)


text \<open>A main file in \<^verbatim>\<open>/etc\<close> that includes \<^verbatim>\<open>d/a\<close>, which includes \<^verbatim>\<open>b\<close>.\<close>

definition ex_loader :: loader_env where
  "ex_loader = \<lparr>
     le_open = map_of [(''/etc/m'', ''m$V''), (''/etc/d/a'', ''a''), (''/etc/d/b'', ''b'')],
     le_getenv = map_of [(''V'', ''1'')],
     le_load = map_of [(''m1'', [Assign ''logger'' (Some (Lua_string ''x'')), Include (''d'' @ [backslash] @ ''a'')]),
       (''a'', [Include ''b'']), (''b'', [Assign ''thread'' (Some (Lua_other 8))])],
     le_roots = map_of [(''skyuv_install_root'', Lua_string ''/opt'')]\<rparr>"


section \<open>Resolution of the directories\<close>

text \<open>The value a directory is resolved from: option, environment, configuration, default.\<close>

definition root_value ::
    "(string \<Rightarrow> uv_code \<times> string) \<Rightarrow> config_table \<Rightarrow> string option \<Rightarrow> string \<Rightarrow> string \<Rightarrow> string \<Rightarrow> string" where
  "root_value getenv L option environment key fallback =
     (case option of
        Some v \<Rightarrow> v
      | None \<Rightarrow> if fst (getenv environment) = UV_OK then snd (getenv environment)
          else (case L key of Some (Lua_string v) \<Rightarrow> v | _ \<Rightarrow> fallback))"

lemma config_string_valid:
  "config_string L key valid = (v, True) \<longleftrightarrow>
     valid \<and> ((L key = None \<and> v = None) \<or> (\<exists>s. L key = Some (Lua_string s) \<and> v = Some s \<and> NUL \<notin> set s))"
proof -
  have "length (takeWhile (\<lambda>c. c \<noteq> NUL) s) = length s \<longleftrightarrow> NUL \<notin> set s" for s :: string
    by (induction s) auto
  moreover have "NUL \<notin> set s \<Longrightarrow> takeWhile (\<lambda>c. c \<noteq> NUL) s = s" for s :: string
    by (simp add: takeWhile_eq_all_conv) blast
  ultimately show ?thesis
    by (auto simp: config_string_def Let_def split: option.splits lua_value.splits)
qed

lemma resolve_root_OK:
  assumes "resolve_root cfg paths getenv L option environment key fallback output capacity = (UV_OK, out)"
  shows "skyuv_path_absolute cfg (config_root paths)
     (root_value getenv L option environment key fallback) output capacity = (UV_OK, out)"
  using assms
  by (auto simp: resolve_root_def root_value_def config_string_valid
      split: option.splits prod.splits if_splits lua_value.splits)

text \<open>What the resolution of an output file leaves behind.\<close>

definition output_resolved ::
    "build_config \<Rightarrow> ('w \<Rightarrow> string \<Rightarrow> bool) \<Rightarrow> string \<Rightarrow> string \<Rightarrow> config_table \<Rightarrow> 'w \<Rightarrow> config_table \<Rightarrow> 'w \<Rightarrow> bool" where
  "output_resolved cfg is_dir key root L w L' w' \<longleftrightarrow>
     (case L key of
        None \<Rightarrow> L' = L \<and> w' = w
      | Some (Lua_other _) \<Rightarrow> False
      | Some (Lua_string v) \<Rightarrow>
          (\<exists>p. skyuv_path_absolute cfg root v [] SKYUV_RUNTIME_PATH_CAPACITY = (UV_OK, p)
            \<and> L' = set_string L key p
            \<and> (if skyuv_path_is_absolute cfg v then w' = w else is_dir w' root)))"

lemma resolve_output_returns:
  assumes fs: "file_system cfg mkdir stat is_dir"
  shows "\<exists>r L' w'. resolve_output cfg mkdir stat L key root True w = Some (r, L', w')
    \<and> (r = UV_OK \<longrightarrow> output_resolved cfg is_dir key root L w L' w')
    \<and> (r \<noteq> UV_OK \<longrightarrow> L' = L)
    \<and> (\<forall>q. is_dir w q \<longrightarrow> is_dir w' q)"
proof -
  obtain v valid where c: "config_string L key True = (v, valid)" by fastforce
  obtain r w1 where m: "skyuv_path_mkdir cfg mkdir stat root w = Some (r, w1)"
    "r = UV_OK \<longrightarrow> is_dir w1 root" "\<forall>q. is_dir w q \<longrightarrow> is_dir w1 q"
    using mkdir_returns [OF fs, of root w] unfolding mkdir_done_def by blast
  show ?thesis
  proof (cases valid)
    case False
    then show ?thesis by (simp add: resolve_output_def c)
  next
    case True
    with c have v: "config_string L key True = (v, True)" by simp
    show ?thesis
    proof (cases v)
      case None
      then show ?thesis using v config_string_valid [of L key True None]
        by (auto simp: resolve_output_def output_resolved_def)
    next
      case (Some s)
      have s: "L key = Some (Lua_string s)" using v Some by (simp add: config_string_valid)
      obtain r2 p where p: "skyuv_path_absolute cfg root s [] SKYUV_RUNTIME_PATH_CAPACITY = (r2, p)" by fastforce
      show ?thesis using m by (auto simp: resolve_output_def v Some p output_resolved_def s)
    qed
  qed
qed

text \<open>The table with the four directories.\<close>

definition root_table :: "skyuv_runtime_paths \<Rightarrow> string \<Rightarrow> string \<Rightarrow> config_table \<Rightarrow> config_table" where
  "root_table paths log run L =
     set_string (set_string (set_string (set_string L
       ''skyuv_install_root'' (install_root paths)) ''skyuv_config_root'' (config_root paths))
       ''skyuv_log_root'' log) ''skyuv_run_root'' run"

definition default_logger :: "config_table \<Rightarrow> bool" where
  "default_logger L \<longleftrightarrow> L ''logservice'' = None \<or> L ''logservice'' = Some (Lua_string ''logger'')"

lemma prepare_outputs_returns:
  assumes fs: "file_system cfg mkdir stat is_dir"
  shows "\<exists>st L' w'. prepare_outputs cfg mkdir stat L log run w = Some (st, L', w')
    \<and> (\<forall>q. is_dir w q \<longrightarrow> is_dir w' q)
    \<and> (st = LUA_OK \<longrightarrow> (\<exists>L2 w2.
        (if default_logger L then output_resolved cfg is_dir ''logger'' log L w L2 w2
         else L2 = L \<and> w2 = w)
        \<and> (if L ''daemon'' = None then L' = L2 \<and> w' = w2
           else output_resolved cfg is_dir ''daemon'' run L2 w2 L' w')
        \<and> (\<forall>q. is_dir w2 q \<longrightarrow> is_dir w' q)))
    \<and> (win32 cfg \<and> L ''daemon'' \<noteq> None \<longrightarrow> st \<noteq> LUA_OK \<and> w' = w)"
proof -
  obtain daemon valid1 where d: "config_string L ''daemon'' True = (daemon, valid1)" by fastforce
  obtain service valid where s: "config_string L ''logservice'' valid1 = (service, valid)" by fastforce
  show ?thesis
  proof (cases "\<not> valid \<or> (daemon \<noteq> None \<and> win32 cfg)")
    case True
    then show ?thesis by (auto simp: prepare_outputs_def d s skyuv_daemon_supported_def)
  next
    case False
    then have ok: valid "daemon = None \<or> \<not> win32 cfg" by auto
    have v1: valid1 using s ok(1) config_string_valid [of L "''logservice''" valid1 service] by simp
    have ds: "daemon = None \<longleftrightarrow> L ''daemon'' = None"
      using d v1 by (auto simp: config_string_valid)
    have ss: "service = None \<or> service = Some ''logger'' \<longleftrightarrow> default_logger L"
      using s ok(1) v1 by (auto simp: config_string_valid default_logger_def)
    obtain ra La wa where a: "(if default_logger L then resolve_output cfg mkdir stat L ''logger'' log True w
        else Some (UV_OK, L, w)) = Some (ra, La, wa)"
      and a2: "ra = UV_OK \<longrightarrow> (if default_logger L then output_resolved cfg is_dir ''logger'' log L w La wa
        else La = L \<and> wa = w)" "\<forall>q. is_dir w q \<longrightarrow> is_dir wa q"
      using resolve_output_returns [OF fs, of L "''logger''" log w] by (cases "default_logger L") auto
    obtain rb Lb wb where b: "(if ra = UV_OK \<and> daemon \<noteq> None then resolve_output cfg mkdir stat La ''daemon'' run True wa
        else Some (ra, La, wa)) = Some (rb, Lb, wb)"
      and b2: "rb = UV_OK \<longrightarrow> ra = UV_OK \<and> (if daemon = None then Lb = La \<and> wb = wa
        else output_resolved cfg is_dir ''daemon'' run La wa Lb wb)" "\<forall>q. is_dir wa q \<longrightarrow> is_dir wb q"
      using resolve_output_returns [OF fs, of La "''daemon''" run wa]
      by (cases "ra = UV_OK \<and> daemon \<noteq> None") auto
    have res: "rb = UV_OK \<longrightarrow> (\<exists>L2 w2.
        (if default_logger L then output_resolved cfg is_dir ''logger'' log L w L2 w2 else L2 = L \<and> w2 = w)
        \<and> (if L ''daemon'' = None then Lb = L2 \<and> wb = w2 else output_resolved cfg is_dir ''daemon'' run L2 w2 Lb wb)
        \<and> (\<forall>q. is_dir w2 q \<longrightarrow> is_dir wb q))"
      by (intro impI exI [of _ La] exI [of _ wa]) (use a2 b2 ds in auto)
    have "prepare_outputs cfg mkdir stat L log run w = Some (if rb \<noteq> UV_OK then LUA_ERRRUN else LUA_OK, Lb, wb)"
      using False ok a b by (cases "daemon = None") (simp_all add: prepare_outputs_def d s ss skyuv_daemon_supported_def)
    then show ?thesis using res a2(2) b2(2) ok(2) ds by (cases "rb = UV_OK"; cases "win32 cfg") simp_all
  qed
qed

text \<open>
  An output file as the configuration names it and as it is left in the table: nil stays
  nil, a string becomes an anchored path, and the directory of a relative one exists.
\<close>

definition output_placed ::
    "build_config \<Rightarrow> ('w \<Rightarrow> string \<Rightarrow> bool) \<Rightarrow> string \<Rightarrow> 'w \<Rightarrow> lua_value option \<Rightarrow> lua_value option \<Rightarrow> bool" where
  "output_placed cfg is_dir root w before after \<longleftrightarrow>
     (case before of
        None \<Rightarrow> after = None
      | Some (Lua_other _) \<Rightarrow> False
      | Some (Lua_string v) \<Rightarrow>
          (\<exists>p. after = Some (Lua_string p) \<and> anchored cfg p
            \<and> skyuv_path_absolute cfg root v [] SKYUV_RUNTIME_PATH_CAPACITY = (UV_OK, p)
            \<and> (skyuv_path_is_absolute cfg v \<or> is_dir w root)))"

lemma output_resolved_placed:
  assumes "output_resolved cfg is_dir key root L w L' w'" "anchored cfg root"
  shows "output_placed cfg is_dir root w' (L key) (L' key)" "k \<noteq> key \<Longrightarrow> L' k = L k"
  using assms path_absolute_anchored [OF assms(2)]
  by (auto simp: output_resolved_def output_placed_def set_string_def split: option.splits lua_value.splits if_splits)

lemma output_placed_later:
  assumes "output_placed cfg is_dir root w before after" "is_dir w root \<longrightarrow> is_dir w' root"
  shows "output_placed cfg is_dir root w' before after"
  using assms by (auto simp: output_placed_def split: option.splits lua_value.splits)

text \<open>The directories, and the two output files, that a successful load leaves in the table.\<close>

definition config_resolved where
  "config_resolved cfg is_dir paths getenv L L' w' \<longleftrightarrow> (\<exists>log run.
     skyuv_path_absolute cfg (config_root paths)
       (root_value getenv L (log_root paths) ''SKYUV_LOG_ROOT'' ''skyuv_log_root'' ''log'') []
       SKYUV_RUNTIME_PATH_CAPACITY = (UV_OK, log)
     \<and> skyuv_path_absolute cfg (config_root paths)
       (root_value getenv L (run_root paths) ''SKYUV_RUN_ROOT'' ''skyuv_run_root'' ''run'') []
       SKYUV_RUNTIME_PATH_CAPACITY = (UV_OK, run)
     \<and> anchored cfg log \<and> anchored cfg run
     \<and> L' ''skyuv_install_root'' = Some (Lua_string (install_root paths))
     \<and> L' ''skyuv_config_root'' = Some (Lua_string (config_root paths))
     \<and> L' ''skyuv_log_root'' = Some (Lua_string log)
     \<and> L' ''skyuv_run_root'' = Some (Lua_string run)
     \<and> (if default_logger L then output_placed cfg is_dir log w' (L ''logger'') (L' ''logger'')
        else L' ''logger'' = L ''logger'')
     \<and> output_placed cfg is_dir run w' (L ''daemon'') (L' ''daemon'')
     \<and> (\<forall>k. k \<notin> {''skyuv_install_root'', ''skyuv_config_root'', ''skyuv_log_root'', ''skyuv_run_root'',
          ''logger'', ''daemon''} \<longrightarrow> L' k = L k))"

lemma config_load_eq:
  assumes "rp_enabled paths" "pcall (Some (reserved_roots paths)) config_name = (LUA_OK, L)"
    and "resolve_root cfg paths getenv L (log_root paths) ''SKYUV_LOG_ROOT'' ''skyuv_log_root'' ''log'' []
      SKYUV_RUNTIME_PATH_CAPACITY = (r1, log)"
    and "resolve_root cfg paths getenv L (run_root paths) ''SKYUV_RUN_ROOT'' ''skyuv_run_root'' ''run'' []
      SKYUV_RUNTIME_PATH_CAPACITY = (r2, run)"
  shows "skyuv_config_load cfg mkdir stat paths getenv LUA_OK pcall config_name w =
     (if r1 \<noteq> UV_OK \<or> r2 \<noteq> UV_OK then Some (LUA_ERRRUN, L, w)
      else prepare_outputs cfg mkdir stat (root_table paths log run L) log run w)"
  using assms by (simp add: skyuv_config_load_def root_table_def Let_def)

lemma outputs_resolved:
  assumes "skyuv_path_absolute cfg (config_root paths)
       (root_value getenv L (log_root paths) ''SKYUV_LOG_ROOT'' ''skyuv_log_root'' ''log'') []
       SKYUV_RUNTIME_PATH_CAPACITY = (UV_OK, log)"
    and "skyuv_path_absolute cfg (config_root paths)
       (root_value getenv L (run_root paths) ''SKYUV_RUN_ROOT'' ''skyuv_run_root'' ''run'') []
       SKYUV_RUNTIME_PATH_CAPACITY = (UV_OK, run)"
    and anchored: "anchored cfg (config_root paths)"
    and first: "if default_logger L then output_resolved cfg is_dir ''logger'' log (root_table paths log run L) w L2 w2
       else L2 = root_table paths log run L \<and> w2 = w"
    and second: "if L ''daemon'' = None then L' = L2 \<and> w' = w2
       else output_resolved cfg is_dir ''daemon'' run L2 w2 L' w'"
    and kept: "\<forall>q. is_dir w2 q \<longrightarrow> is_dir w' q"
  shows "config_resolved cfg is_dir paths getenv L L' w'"
proof -
  have a: "anchored cfg log" "anchored cfg run" using path_absolute_anchored [OF anchored] assms(1,2) by auto
  let ?L1 = "root_table paths log run L"
  have l: "if default_logger L then output_placed cfg is_dir log w2 (?L1 ''logger'') (L2 ''logger'')
      else L2 ''logger'' = ?L1 ''logger''" "k \<noteq> ''logger'' \<Longrightarrow> L2 k = ?L1 k" for k
    using first output_resolved_placed [OF _ a(1)] by (auto split: if_splits)
  have d: "output_placed cfg is_dir run w' (L2 ''daemon'') (L' ''daemon'')" "k \<noteq> ''daemon'' \<Longrightarrow> L' k = L2 k" for k
  proof -
    have e: "L2 ''daemon'' = L ''daemon''" using l(2) [of "''daemon''"] by (simp add: root_table_def set_string_def)
    show "output_placed cfg is_dir run w' (L2 ''daemon'') (L' ''daemon'')" "k \<noteq> ''daemon'' \<Longrightarrow> L' k = L2 k"
      using second output_resolved_placed [OF _ a(2)] e
      by (cases "L ''daemon'' = None"; fastforce simp: output_placed_def)+
  qed
  have keys: "?L1 ''logger'' = L ''logger''" "?L1 ''daemon'' = L ''daemon''"
    "?L1 ''skyuv_install_root'' = Some (Lua_string (install_root paths))"
    "?L1 ''skyuv_config_root'' = Some (Lua_string (config_root paths))"
    "?L1 ''skyuv_log_root'' = Some (Lua_string log)" "?L1 ''skyuv_run_root'' = Some (Lua_string run)"
    by (simp_all add: root_table_def set_string_def)
  have rest: "k \<noteq> ''logger'' \<Longrightarrow> k \<noteq> ''daemon'' \<Longrightarrow> L' k = ?L1 k" for k using d(2) l(2) by simp
  have other: "k \<notin> {''skyuv_install_root'', ''skyuv_config_root'', ''skyuv_log_root'', ''skyuv_run_root'',
      ''logger'', ''daemon''} \<Longrightarrow> L' k = L k" for k
    using rest [of k] by (simp add: root_table_def set_string_def)
  have logger: "if default_logger L then output_placed cfg is_dir log w' (L ''logger'') (L' ''logger'')
      else L' ''logger'' = L ''logger''"
    using l(1) d(2) [of "''logger''"] keys(1) kept output_placed_later [of cfg is_dir log w2 _ _ w']
    by (cases "default_logger L") simp_all
  have daemon: "output_placed cfg is_dir run w' (L ''daemon'') (L' ''daemon'')"
    using d(1) l(2) [of "''daemon''"] keys(2) by simp
  have four: "L' ''skyuv_install_root'' = Some (Lua_string (install_root paths))"
    "L' ''skyuv_config_root'' = Some (Lua_string (config_root paths))"
    "L' ''skyuv_log_root'' = Some (Lua_string log)" "L' ''skyuv_run_root'' = Some (Lua_string run)"
    using rest [of "''skyuv_install_root''"] rest [of "''skyuv_config_root''"] rest [of "''skyuv_log_root''"]
      rest [of "''skyuv_run_root''"] keys by simp_all
  show ?thesis unfolding config_resolved_def
    by (rule exI [of _ log], rule exI [of _ run], intro conjI allI impI)
      (fact assms(1) assms(2) a four logger daemon other)+
qed

lemma config_load_success:
  assumes "file_system cfg mkdir stat is_dir"
    and "rp_enabled paths" and "pcall (Some (reserved_roots paths)) config_name = (LUA_OK, L)"
    and l: "skyuv_config_load cfg mkdir stat paths getenv LUA_OK pcall config_name w = Some (LUA_OK, L', w')"
    and anchored: "anchored cfg (config_root paths)"
  shows "config_resolved cfg is_dir paths getenv L L' w'"
proof -
  obtain r1 log where r1: "resolve_root cfg paths getenv L (log_root paths) ''SKYUV_LOG_ROOT'' ''skyuv_log_root''
      ''log'' [] SKYUV_RUNTIME_PATH_CAPACITY = (r1, log)" by fastforce
  obtain r2 run where r2: "resolve_root cfg paths getenv L (run_root paths) ''SKYUV_RUN_ROOT'' ''skyuv_run_root''
      ''run'' [] SKYUV_RUNTIME_PATH_CAPACITY = (r2, run)" by fastforce
  let ?L1 = "root_table paths log run L"
  have p: "r1 = UV_OK" "r2 = UV_OK" "prepare_outputs cfg mkdir stat ?L1 log run w = Some (LUA_OK, L', w')"
    using l unfolding config_load_eq [of paths pcall config_name, OF assms(2,3) r1 r2] by (auto split: if_splits)
  have roots: "skyuv_path_absolute cfg (config_root paths)
     (root_value getenv L (log_root paths) ''SKYUV_LOG_ROOT'' ''skyuv_log_root'' ''log'') []
     SKYUV_RUNTIME_PATH_CAPACITY = (UV_OK, log)"
    "skyuv_path_absolute cfg (config_root paths)
     (root_value getenv L (run_root paths) ''SKYUV_RUN_ROOT'' ''skyuv_run_root'' ''run'') []
     SKYUV_RUNTIME_PATH_CAPACITY = (UV_OK, run)"
    using r1 r2 p(1,2) by (auto intro: resolve_root_OK)
  have keys: "?L1 ''daemon'' = L ''daemon''" "default_logger ?L1 = default_logger L"
    by (simp_all add: root_table_def set_string_def default_logger_def)
  obtain st L2 w2 where o: "st = LUA_OK \<longrightarrow> (\<exists>L2 w2.
        (if default_logger L then output_resolved cfg is_dir ''logger'' log ?L1 w L2 w2 else L2 = ?L1 \<and> w2 = w)
        \<and> (if L ''daemon'' = None then L' = L2 \<and> w' = w2 else output_resolved cfg is_dir ''daemon'' run L2 w2 L' w')
        \<and> (\<forall>q. is_dir w2 q \<longrightarrow> is_dir w' q))" "st = LUA_OK"
    using prepare_outputs_returns [OF assms(1), of ?L1 log run w] p(3) unfolding keys by auto
  from o obtain L2 w2 where
    "if default_logger L then output_resolved cfg is_dir ''logger'' log ?L1 w L2 w2 else L2 = ?L1 \<and> w2 = w"
    "if L ''daemon'' = None then L' = L2 \<and> w' = w2 else output_resolved cfg is_dir ''daemon'' run L2 w2 L' w'"
    "\<forall>q. is_dir w2 q \<longrightarrow> is_dir w' q"
    by (elim impE exE conjE)
  then show ?thesis by (rule outputs_resolved [OF roots anchored])
qed

text \<open>
  C29. Loading the configuration in the new mode, on a file system that behaves: it always
  returns, and no directory is lost. If it succeeds, the log and the run
  directory are resolved below the configuration's directory from the first value given of option, environment,
  configuration and default, and are anchored; the four directories are in the table, whatever
  the configuration had there; the log file of the default logger and the PID file are
  anchored, with the directory of a relative one existing; nil stays nil, a logger of
  another service and every other key are untouched. On Windows a configuration with
  a PID file fails and creates nothing.
\<close>

theorem config_load_resolves:
  assumes "file_system cfg mkdir stat is_dir"
    and "rp_enabled paths" and "pcall (Some (reserved_roots paths)) config_name = (LUA_OK, L)"
    and "anchored cfg (config_root paths)"
  shows "\<exists>st L' w'. skyuv_config_load cfg mkdir stat paths getenv LUA_OK pcall config_name w = Some (st, L', w')
    \<and> (\<forall>q. is_dir w q \<longrightarrow> is_dir w' q)
    \<and> (st = LUA_OK \<longrightarrow> config_resolved cfg is_dir paths getenv L L' w')
    \<and> (win32 cfg \<and> L ''daemon'' \<noteq> None \<longrightarrow> st \<noteq> LUA_OK \<and> w' = w)"
proof -
  obtain r1 log where r1: "resolve_root cfg paths getenv L (log_root paths) ''SKYUV_LOG_ROOT'' ''skyuv_log_root''
      ''log'' [] SKYUV_RUNTIME_PATH_CAPACITY = (r1, log)" by fastforce
  obtain r2 run where r2: "resolve_root cfg paths getenv L (run_root paths) ''SKYUV_RUN_ROOT'' ''skyuv_run_root''
      ''run'' [] SKYUV_RUNTIME_PATH_CAPACITY = (r2, run)" by fastforce
  note load = config_load_eq [of paths pcall config_name, OF assms(2,3) r1 r2]
  show ?thesis
  proof (cases "r1 = UV_OK \<and> r2 = UV_OK")
    case False
    then show ?thesis by (auto simp: load)
  next
    case True
    let ?L1 = "root_table paths log run L"
    have daemon: "?L1 ''daemon'' = L ''daemon''" by (simp add: root_table_def set_string_def)
    obtain st L' w' where p: "prepare_outputs cfg mkdir stat ?L1 log run w = Some (st, L', w')"
      and kept: "\<forall>q. is_dir w q \<longrightarrow> is_dir w' q"
      and win: "win32 cfg \<and> L ''daemon'' \<noteq> None \<longrightarrow> st \<noteq> LUA_OK \<and> w' = w"
      using prepare_outputs_returns [OF assms(1), of ?L1 log run w] unfolding daemon by (elim exE conjE)
    have l: "skyuv_config_load cfg mkdir stat paths getenv LUA_OK pcall config_name w = Some (st, L', w')"
      using True p by (simp add: load)
    have "st = LUA_OK \<longrightarrow> config_resolved cfg is_dir paths getenv L L' w'"
      using config_load_success [where pcall = pcall and config_name = config_name, OF assms(1-3) _ assms(4)] l by blast
    then show ?thesis using l kept win by (intro exI conjI)
  qed
qed

definition ex_paths :: skyuv_runtime_paths where
  "ex_paths = \<lparr>rp_enabled = True, install_root = ''/opt'', config_file = ''/etc/m'', config_root = ''/etc'',
     log_root = Some ''l'', run_root = None\<rparr>"

definition ex_getenv :: "string \<Rightarrow> uv_code \<times> string" where
  "ex_getenv name = (if name = ''SKYUV_RUN_ROOT'' then (UV_OK, ''/var'') else (UV_ENOENT, []))"

definition ex_table :: config_table where
  "ex_table = map_of [(''logger'', Lua_string ''a''), (''daemon'', Lua_string ''/p''), (''skyuv_log_root'', Lua_string ''x'')]"

theorem config_load_resolves_witness:
  "file_system ex_posix ex_mkdir ex_stat (\<lambda>w p. p \<in> set w)
    \<and> anchored ex_posix (config_root ex_paths)
    \<and> (\<exists>L' w'. skyuv_config_load ex_posix ex_mkdir ex_stat ex_paths ex_getenv LUA_OK (\<lambda>_ _. (LUA_OK, ex_table))
          ''/etc/m'' [''/'', ''/etc''] = Some (LUA_OK, L', w')
        \<and> config_resolved ex_posix (\<lambda>w p. p \<in> set w) ex_paths ex_getenv ex_table L' w')"
proof -
  have fs: "file_system ex_posix ex_mkdir ex_stat (\<lambda>w p. p \<in> set w)"
    by (auto simp: file_system_def ex_mkdir_def ex_stat_def split: if_splits prod.splits)
  have a: "anchored ex_posix (config_root ex_paths)" "rp_enabled ex_paths" by code_simp+
  have "map_option fst (skyuv_config_load ex_posix ex_mkdir ex_stat ex_paths ex_getenv LUA_OK (\<lambda>_ _. (LUA_OK, ex_table))
      ''/etc/m'' [''/'', ''/etc'']) = Some LUA_OK"
    by code_simp
  then obtain L' w' where l: "skyuv_config_load ex_posix ex_mkdir ex_stat ex_paths ex_getenv LUA_OK
      (\<lambda>_ _. (LUA_OK, ex_table)) ''/etc/m'' [''/'', ''/etc''] = Some (LUA_OK, L', w')"
    by fastforce
  have "config_resolved ex_posix (\<lambda>w p. p \<in> set w) ex_paths ex_getenv ex_table L' w'"
    using config_load_resolves [OF fs a(2) _ a(1), of "\<lambda>_ _. (LUA_OK, ex_table)" "''/etc/m''" ex_table ex_getenv "[''/'', ''/etc'']"] l by auto
  then show ?thesis using fs a(1) l by blast
qed

end
