(* ===== verification/Launcher.thy ===== *)
theory Launcher
  imports Runtime_Config
begin

text \<open>
  The entry of the program (\<^verbatim>\<open>src/src/runtime/launcher.c\<close>): the command line of the new mode,
  the location of the configuration and the hand-over to Skynet. The answers of libuv are a
  record; all of them are asked for before the working directory is changed.
\<close>

section \<open>Command line\<close>

text \<open>
  The loop of \<^verbatim>\<open>prepare_paths\<close> over the arguments from \<^verbatim>\<open>argv[2]\<close> on: the status, the installation
  root and the configuration that were given, and the paths, whose roots are also set when an
  argument after them is refused.
\<close>

fun parse_arguments ::
    "string list \<Rightarrow> string option \<Rightarrow> skyuv_runtime_paths
      \<Rightarrow> uv_code \<times> string option \<times> string option \<times> skyuv_runtime_paths" where
  "parse_arguments [] install paths = (UV_OK, install, None, paths)"
| "parse_arguments (arg # rest) install paths =
     (if arg = ''--''
      then (case rest of
              [c] \<Rightarrow> (UV_OK, install, Some c, paths)
            | _ \<Rightarrow> (UV_EINVAL, install, None, paths))
      else if char_at arg 0 \<noteq> CHR ''-''
      then (if rest \<noteq> [] then (UV_EINVAL, install, None, paths) else (UV_OK, install, Some arg, paths))
      else case rest of
        [] \<Rightarrow> (UV_EINVAL, install, None, paths)
      | v # rest' \<Rightarrow>
          if char_at v 0 = NUL then (UV_EINVAL, install, None, paths)
          else if arg = ''--install-root'' \<and> install = None
          then parse_arguments rest' (Some v) paths
          else if arg = ''--log-root'' \<and> log_root paths = None
          then parse_arguments rest' install (paths\<lparr>log_root := Some v\<rparr>)
          else if arg = ''--run-root'' \<and> run_root paths = None
          then parse_arguments rest' install (paths\<lparr>run_root := Some v\<rparr>)
          else (UV_EINVAL, install, None, paths))"

section \<open>Locating the configuration\<close>

record launch_env =
  la_cwd :: "uv_code \<times> string"
  la_realpath :: "string \<Rightarrow> uv_code \<times> string"
  la_stat :: "string \<Rightarrow> uv_code"
  la_exepath :: "uv_code \<times> string"
  la_chdir :: "string \<Rightarrow> uv_code"

definition locate_install ::
    "build_config \<Rightarrow> launch_env \<Rightarrow> string option \<Rightarrow> skyuv_runtime_paths \<Rightarrow> uv_code \<times> skyuv_runtime_paths" where
  "locate_install cfg env install paths =
     (case install of
        Some dir \<Rightarrow>
          (case skyuv_path_real cfg (la_realpath env) dir (install_root paths) SKYUV_RUNTIME_PATH_CAPACITY of
             (result, root) \<Rightarrow> (result, paths\<lparr>install_root := root\<rparr>))
      | None \<Rightarrow>
          (case skyuv_find_install_root cfg (la_exepath env) SKYUV_RUNTIME_PATH_CAPACITY of
             (found, root) \<Rightarrow> (if found then UV_OK else UV_EINVAL, paths\<lparr>install_root := root\<rparr>)))"

definition locate_config ::
    "build_config \<Rightarrow> launch_env \<Rightarrow> string \<Rightarrow> string \<Rightarrow> skyuv_runtime_paths \<Rightarrow> uv_code \<times> skyuv_runtime_paths" where
  "locate_config cfg env working config paths =
     (case skyuv_path_absolute cfg working config [] SKYUV_RUNTIME_PATH_CAPACITY of (result, candidate) \<Rightarrow>
      if result \<noteq> UV_OK then (result, paths)
      else case (if \<not> skyuv_path_exists (la_stat env) candidate
                 then skyuv_path_absolute cfg (install_root paths) config candidate SKYUV_RUNTIME_PATH_CAPACITY
                 else (UV_OK, candidate)) of (result, candidate) \<Rightarrow>
      if result \<noteq> UV_OK then (result, paths)
      else case skyuv_path_real cfg (la_realpath env) candidate (config_file paths) SKYUV_RUNTIME_PATH_CAPACITY of
        (result, file) \<Rightarrow>
      if result \<noteq> UV_OK then (result, paths)
      else case skyuv_path_parent cfg file of (result, root) \<Rightarrow>
        (result, paths\<lparr>config_file := file, config_root := root\<rparr>))"

text \<open>The status, the paths, and the directory the process has changed to.\<close>

definition prepare_paths ::
    "build_config \<Rightarrow> launch_env \<Rightarrow> string list \<Rightarrow> skyuv_runtime_paths
      \<Rightarrow> uv_code \<times> skyuv_runtime_paths \<times> string option" where
  "prepare_paths cfg env argv paths =
     (case parse_arguments (drop 2 argv) None paths of (result, install, config, paths) \<Rightarrow>
      if result \<noteq> UV_OK then (result, paths, None)
      else case config of
        None \<Rightarrow> (UV_EINVAL, paths, None)
      | Some config \<Rightarrow>
          if char_at config 0 = NUL then (UV_EINVAL, paths, None)
          else case la_cwd env of (result, working) \<Rightarrow>
          if result \<noteq> UV_OK then (result, paths, None)
          else case locate_install cfg env install paths of (result, paths) \<Rightarrow>
          if result \<noteq> UV_OK then (result, paths, None)
          else case locate_config cfg env working config paths of (result, paths) \<Rightarrow>
          if result \<noteq> UV_OK then (result, paths, None)
          else if la_chdir env (install_root paths) \<noteq> UV_OK
          then (la_chdir env (install_root paths), paths, None)
          else (UV_OK, paths\<lparr>rp_enabled := True\<rparr>, Some (install_root paths)))"

section \<open>The program\<close>

text \<open>
  Where the program goes: it ends with a status, or calls \<^verbatim>\<open>skyuv_skynet_main\<close> with
  arguments and ends with its result.
\<close>

datatype launch = Ends int | Runs_skynet "string list"

definition zero_paths :: skyuv_runtime_paths where
  "zero_paths = \<lparr>rp_enabled = False, install_root = [], config_file = [], config_root = [],
     log_root = None, run_root = None\<rparr>"

definition skyuv_main ::
    "build_config \<Rightarrow> launch_env \<Rightarrow> string list \<Rightarrow> launch \<times> skyuv_runtime_paths \<times> string option" where
  "skyuv_main cfg env argv =
     (if length argv > 1 \<and> argv ! 1 = ''--runtime-paths''
      then (case prepare_paths cfg env argv zero_paths of (result, paths, dir) \<Rightarrow>
              if result \<noteq> UV_OK then (Ends 1, paths, dir)
              else (Runs_skynet [argv ! 0, config_file paths], paths, dir))
      else if length argv > 1 \<and> \<not> skyuv_path_exists (la_stat env) (argv ! 1)
           \<and> fst (skyuv_find_install_root cfg (la_exepath env) SKYUV_RUNTIME_PATH_CAPACITY)
      then let install_root = snd (skyuv_find_install_root cfg (la_exepath env) SKYUV_RUNTIME_PATH_CAPACITY);
               text = install_root @ ''/'' @ argv ! 1; len = snprintf_result text
           in if len > 0 \<and> nat len < SKYUV_RUNTIME_PATH_CAPACITY
                 \<and> skyuv_path_exists (la_stat env) (snprintf_output SKYUV_RUNTIME_PATH_CAPACITY text)
              then (if la_chdir env install_root \<noteq> UV_OK then (Ends 1, zero_paths, None)
                    else (Runs_skynet argv, zero_paths, Some install_root))
              else (Runs_skynet argv, zero_paths, None)
      else (Runs_skynet argv, zero_paths, None))"

section \<open>Command lines\<close>

text \<open>A command line as data, and how it is written.\<close>

datatype root_option = Install_root | Log_root | Run_root

fun option_name :: "root_option \<Rightarrow> string" where
  "option_name Install_root = ''--install-root''"
| "option_name Log_root = ''--log-root''"
| "option_name Run_root = ''--run-root''"

definition option_words :: "(root_option \<times> string) list \<Rightarrow> string list" where
  "option_words opts = concat (map (\<lambda>(o', v). [option_name o', v]) opts)"

text \<open>The configuration is the last word; it may follow a double dash, and has to if it begins with a dash.\<close>

definition config_words :: "string \<Rightarrow> string list \<Rightarrow> bool" where
  "config_words c ws \<longleftrightarrow> ws = [''--'', c] \<or> (ws = [c] \<and> char_at c 0 \<noteq> CHR ''-'')"

definition options_ok :: "(root_option \<times> string) list \<Rightarrow> bool" where
  "options_ok opts \<longleftrightarrow> distinct (map fst opts) \<and> (\<forall>(o', v) \<in> set opts. char_at v 0 \<noteq> NUL)"

text \<open>What has been given so far.\<close>

definition given :: "string option \<Rightarrow> skyuv_runtime_paths \<Rightarrow> root_option \<Rightarrow> string option" where
  "given install paths o' =
     (case o' of Install_root \<Rightarrow> install | Log_root \<Rightarrow> log_root paths | Run_root \<Rightarrow> run_root paths)"

definition give :: "root_option \<Rightarrow> string \<Rightarrow> string option \<times> skyuv_runtime_paths \<Rightarrow> string option \<times> skyuv_runtime_paths" where
  "give o' v ip = (case ip of (install, paths) \<Rightarrow>
     (case o' of
        Install_root \<Rightarrow> (Some v, paths)
      | Log_root \<Rightarrow> (install, paths\<lparr>log_root := Some v\<rparr>)
      | Run_root \<Rightarrow> (install, paths\<lparr>run_root := Some v\<rparr>)))"

lemma given_give:
  "given (fst (give o' v (install, paths))) (snd (give o' v (install, paths))) x =
     (if x = o' then Some v else given install paths x)"
  by (cases o'; cases x) (simp_all add: given_def give_def)

lemma parse_option:
  assumes "given install paths o' = None" "char_at v 0 \<noteq> NUL"
  shows "parse_arguments (option_name o' # v # rest) install paths =
    parse_arguments rest (fst (give o' v (install, paths))) (snd (give o' v (install, paths)))"
  using assms by (cases o') (simp_all add: given_def give_def char_at_def)

text \<open>What a list of options adds to what was given before.\<close>

definition give_all ::
    "(root_option \<times> string) list \<Rightarrow> string option \<Rightarrow> skyuv_runtime_paths \<Rightarrow> string option \<times> skyuv_runtime_paths" where
  "give_all opts install paths =
     (case map_of opts Install_root of None \<Rightarrow> install | Some v \<Rightarrow> Some v,
      paths\<lparr>log_root := (case map_of opts Log_root of None \<Rightarrow> log_root paths | Some v \<Rightarrow> Some v),
        run_root := (case map_of opts Run_root of None \<Rightarrow> run_root paths | Some v \<Rightarrow> Some v)\<rparr>)"

lemma give_all_Cons:
  assumes "o' \<notin> fst ` set opts"
  shows "give_all ((o', v) # opts) install paths =
    give_all opts (fst (give o' v (install, paths))) (snd (give o' v (install, paths)))"
proof -
  have "map_of opts o' = None" using assms by (simp add: map_of_eq_None_iff)
  then show ?thesis by (cases o') (simp_all add: give_all_def give_def split: option.splits)
qed

lemma options_ok_Cons:
  "options_ok ((o', v) # opts) \<longleftrightarrow> o' \<notin> fst ` set opts \<and> char_at v 0 \<noteq> NUL \<and> options_ok opts"
  by (auto simp: options_ok_def)

lemma parse_complete:
  assumes "options_ok opts" "\<forall>o' \<in> fst ` set opts. given install paths o' = None" "config_words c ws"
  shows "parse_arguments (option_words opts @ ws) install paths =
    (UV_OK, fst (give_all opts install paths), Some c, snd (give_all opts install paths))"
  using assms
proof (induction opts arbitrary: install paths)
  case Nil
  then show ?case by (auto simp: option_words_def give_all_def config_words_def char_at_def)
next
  case (Cons x opts)
  obtain o' v where x: "x = (o', v)" by fastforce
  let ?i = "fst (give o' v (install, paths))" and ?p = "snd (give o' v (install, paths))"
  have ok: "o' \<notin> fst ` set opts" "char_at v 0 \<noteq> NUL" "options_ok opts"
    using Cons.prems(1) by (simp_all add: x options_ok_Cons)
  have "\<forall>o'' \<in> fst ` set opts. given ?i ?p o'' = None"
    using Cons.prems(2) ok(1) by (auto simp: given_give x)
  from Cons.IH [OF ok(3) this Cons.prems(3)] show ?case
    using parse_option [of install paths o' v] Cons.prems(2) ok(2) give_all_Cons [OF ok(1)]
    by (simp add: x option_words_def)
qed

lemma parse_sound:
  "parse_arguments args install paths = (UV_OK, install', Some c, paths') \<Longrightarrow>
    \<exists>opts ws. args = option_words opts @ ws \<and> options_ok opts
      \<and> (\<forall>o' \<in> fst ` set opts. given install paths o' = None) \<and> config_words c ws"
proof (induction "length args" arbitrary: args install paths rule: less_induct)
  case less
  obtain arg rest where args: "args = arg # rest" using less.prems by (cases args) auto
  consider (last) "config_words c args"
    | (opt) o' v rest' where "args = option_name o' # v # rest'" "given install paths o' = None" "char_at v 0 \<noteq> NUL"
  proof (cases "config_words c args")
    case False
    then obtain v rest' where rest: "rest = v # rest'" "char_at v 0 \<noteq> NUL" "arg \<noteq> ''--''"
      and o': "(arg = ''--install-root'' \<and> install = None) \<or> (arg = ''--log-root'' \<and> log_root paths = None)
        \<or> (arg = ''--run-root'' \<and> run_root paths = None)"
      using less.prems by (auto simp: args config_words_def split: if_splits list.splits)
    from o' rest show thesis
      using opt [of Install_root v rest'] opt [of Log_root v rest'] opt [of Run_root v rest']
      by (auto simp: args given_def)
  qed (use last in blast)
  then show ?case
  proof cases
    case last
    then show ?thesis by (intro exI [of _ "[]"] exI [of _ args]) (simp add: option_words_def options_ok_def)
  next
    case opt
    let ?i = "fst (give o' v (install, paths))" and ?p = "snd (give o' v (install, paths))"
    have "parse_arguments rest' ?i ?p = (UV_OK, install', Some c, paths')"
      using less.prems parse_option [OF opt(2,3)] by (simp add: opt(1))
    then obtain opts ws where o: "rest' = option_words opts @ ws" "options_ok opts"
      "\<forall>x \<in> fst ` set opts. given ?i ?p x = None" "config_words c ws"
      using less.hyps [of rest' ?i ?p] opt(1) by auto
    have "o' \<notin> fst ` set opts" using o(3) by (auto simp: given_give)
    then show ?thesis
      using o opt by (intro exI [of _ "(o', v) # opts"] exI [of _ ws])
        (auto simp: option_words_def options_ok_Cons given_give split: if_splits)
  qed
qed


section \<open>Where the program runs\<close>

text \<open>An anchored path that is not on a server.\<close>

definition on_drive :: "build_config \<Rightarrow> string \<Rightarrow> bool" where
  "on_drive cfg p \<longleftrightarrow> anchored cfg p \<and> (win32 cfg \<longrightarrow> char_at p 1 = CHR '':'')"

lemma on_drive_parent:
  assumes "on_drive cfg p" "skyuv_path_parent cfg p = (UV_OK, q)"
  shows "on_drive cfg q"
proof -
  obtain d name where d: "normalize_separators cfg p = d @ CHR ''/'' # name" "CHR ''/'' \<notin> set name"
    using assms(2) by (rule path_parent_UV_OK)
  have p: "p = d @ CHR ''/'' # name" using d(1) normalize_anchored assms(1) by (simp add: on_drive_def)
  have last: "strrchr (CHR ''/'') p = Some (length d)" using strrchr_append [OF d(2)] p by simp
  have q: "q = (if d = [] \<or> (win32 cfg \<and> length d = 2 \<and> d ! 1 = CHR '':'') then d @ ''/'' else d)"
    using path_parent_eq [OF d] assms(2) by simp
  show ?thesis
  proof (cases "win32 cfg")
    case False
    then show ?thesis using assms(1) by (cases d) (auto simp: q p on_drive_def anchored_def char_at_def)
  next
    case True
    have c: "char_at p 0 \<noteq> NUL" "char_at p 0 \<noteq> CHR ''/''" "char_at p 1 = CHR '':''" "char_at p 2 = CHR ''/''"
      "backslash \<notin> set p"
      using assms(1) True by (auto simp: on_drive_def anchored_def)
    have l: "2 \<le> length d" using strrchr_last [OF last c(4)] by simp
    then have "d ! 1 = CHR '':''" using c(3) by (auto simp: p char_at_def nth_append split: if_splits)
    then have "char_at q i = char_at p i" if "i \<le> 2" for i
      using that l True by (auto simp: q p char_at_def nth_append)
    moreover have "set q \<subseteq> set p" by (auto simp: q p)
    ultimately show ?thesis using c True by (auto simp: on_drive_def anchored_def)
  qed
qed

text \<open>The same machine, seen from another working directory.\<close>

definition same_machine :: "build_config \<Rightarrow> launch_env \<Rightarrow> launch_env \<Rightarrow> bool" where
  "same_machine cfg env env' \<longleftrightarrow>
     fst (la_cwd env) = UV_OK \<and> fst (la_cwd env') = UV_OK
     \<and> la_exepath env' = la_exepath env \<and> la_chdir env' = la_chdir env
     \<and> (\<forall>p. anchored cfg p \<longrightarrow> la_realpath env' p = la_realpath env p \<and> la_stat env' p = la_stat env p)"

lemma path_absolute_base:
  assumes "anchored cfg p"
  shows "skyuv_path_absolute cfg base p output capacity = format_path cfg p capacity"
  using assms anchored_no_backslash [OF assms, of 0]
  by (auto simp: anchored_def skyuv_path_absolute_def skyuv_path_is_absolute_def Let_def split: if_splits)

lemma format_path_anchored:
  assumes "anchored cfg p" "format_path cfg p capacity = (UV_OK, q)"
  shows "q = p"
  using assms by (simp add: format_path_OK normalize_anchored)

lemma locate_config_same:
  assumes "same_machine cfg env env'" "anchored cfg c"
  shows "locate_config cfg env' working' c paths = locate_config cfg env working c paths"
proof (cases "fst (format_path cfg c SKYUV_RUNTIME_PATH_CAPACITY) = UV_OK")
  case True
  then have "format_path cfg c SKYUV_RUNTIME_PATH_CAPACITY = (UV_OK, c)"
    using format_path_anchored [OF assms(2)] by (cases "format_path cfg c SKYUV_RUNTIME_PATH_CAPACITY") auto
  then show ?thesis
    using assms by (simp add: locate_config_def path_absolute_base same_machine_def skyuv_path_real_def
        skyuv_path_exists_def)
next
  case False
  then obtain r t where "format_path cfg c SKYUV_RUNTIME_PATH_CAPACITY = (r, t)" "r \<noteq> UV_OK"
    by (cases "format_path cfg c SKYUV_RUNTIME_PATH_CAPACITY") auto
  then show ?thesis using assms(2) by (simp add: locate_config_def path_absolute_base)
qed

lemma locate_install_same:
  assumes "same_machine cfg env env'" "\<forall>dir. install = Some dir \<longrightarrow> anchored cfg dir"
  shows "locate_install cfg env' install paths = locate_install cfg env install paths"
  using assms by (auto simp: locate_install_def same_machine_def skyuv_path_real_def split: option.splits)

lemma prepare_paths_same:
  assumes "same_machine cfg env env'"
    and "parse_arguments (drop 2 argv) None paths0 = (UV_OK, install, Some c, paths)"
    and "anchored cfg c" "\<forall>dir. install = Some dir \<longrightarrow> anchored cfg dir"
  shows "prepare_paths cfg env' argv paths0 = prepare_paths cfg env argv paths0"
proof -
  obtain w w' where "la_cwd env = (UV_OK, w)" "la_cwd env' = (UV_OK, w')"
    using assms(1) unfolding same_machine_def by (metis prod.collapse)
  moreover obtain r1 q1 where "locate_install cfg env install paths = (r1, q1)" by fastforce
  moreover obtain r2 q2 where "locate_config cfg env w c q1 = (r2, q2)" by fastforce
  ultimately show ?thesis
    using assms locate_install_same [OF assms(1,4), of paths] locate_config_same [OF assms(1,3), of w' q1 w]
    by (simp add: prepare_paths_def same_machine_def)
qed

lemma prepare_paths_OK:
  assumes "prepare_paths cfg env argv paths0 = (UV_OK, paths, dir)"
  obtains install c working paths1 paths2 paths3 where
    "parse_arguments (drop 2 argv) None paths0 = (UV_OK, install, Some c, paths1)"
    "la_cwd env = (UV_OK, working)"
    "locate_install cfg env install paths1 = (UV_OK, paths2)"
    "locate_config cfg env working c paths2 = (UV_OK, paths3)"
    "paths = paths3\<lparr>rp_enabled := True\<rparr>" "dir = Some (install_root paths3)"
  using assms unfolding prepare_paths_def
  by (auto split: prod.splits option.splits if_splits)

lemma locate_config_OK:
  assumes "locate_config cfg env working c paths = (UV_OK, paths')"
    and real: "\<forall>p r. la_realpath env p = (UV_OK, r) \<longrightarrow> on_drive cfg (normalize_separators cfg r)"
  shows "on_drive cfg (config_file paths')
    \<and> skyuv_path_parent cfg (config_file paths') = (UV_OK, config_root paths')
    \<and> install_root paths' = install_root paths"
  using assms(1) real
  by (auto simp: locate_config_def skyuv_path_real_def split: prod.splits if_splits)

lemma main_located:
  assumes "length argv > 1" "argv ! 1 = ''--runtime-paths''"
    and "skyuv_main cfg env argv = (Runs_skynet args, paths, dir)"
    and real: "\<forall>p r. la_realpath env p = (UV_OK, r) \<longrightarrow> on_drive cfg (normalize_separators cfg r)"
  shows "args = [argv ! 0, config_file paths] \<and> rp_enabled paths \<and> dir = Some (install_root paths)
    \<and> skyuv_path_parent cfg (config_file paths) = (UV_OK, config_root paths)
    \<and> anchored cfg (config_file paths) \<and> anchored cfg (config_root paths)"
proof -
  have p: "prepare_paths cfg env argv zero_paths = (UV_OK, paths, dir)" "args = [argv ! 0, config_file paths]"
    using assms(1-3) by (auto simp: skyuv_main_def split: prod.splits if_splits)
  obtain working c paths2 paths3 where l: "locate_config cfg env working c paths2 = (UV_OK, paths3)"
    and paths: "paths = paths3\<lparr>rp_enabled := True\<rparr>" "dir = Some (install_root paths3)"
    using prepare_paths_OK [OF p(1)] by metis
  note located = locate_config_OK [OF l real]
  have "on_drive cfg (config_root paths3)" using located on_drive_parent by blast
  then show ?thesis using located p(2) paths by (auto simp: on_drive_def)
qed

lemma main_same:
  assumes "length argv > 1" "argv ! 1 = ''--runtime-paths''" "same_machine cfg env env'"
    and "parse_arguments (drop 2 argv) None zero_paths = (UV_OK, install, Some c, paths1)"
    and "anchored cfg c" "\<forall>d. install = Some d \<longrightarrow> anchored cfg d"
  shows "skyuv_main cfg env' argv = skyuv_main cfg env argv"
  using prepare_paths_same [OF assms(3-6)] assms(1,2) by (simp add: skyuv_main_def)

text \<open>
  C32. A start in the new mode that reaches Skynet: Skynet gets the configuration file as its only argument,
  the process works in the installation root, the configuration root is the parent of the
  configuration file, and both are anchored, given that libuv resolves paths
  to absolute ones. If the arguments are anchored, a start from any other working directory of the
  same machine does exactly the same.
\<close>

theorem launch_located:
  assumes "length argv > 1" "argv ! 1 = ''--runtime-paths''"
    and "skyuv_main cfg env argv = (Runs_skynet args, paths, dir)"
    and real: "\<forall>p r. la_realpath env p = (UV_OK, r) \<longrightarrow> on_drive cfg (normalize_separators cfg r)"
  shows "args = [argv ! 0, config_file paths] \<and> rp_enabled paths \<and> dir = Some (install_root paths)
    \<and> skyuv_path_parent cfg (config_file paths) = (UV_OK, config_root paths)
    \<and> anchored cfg (config_file paths) \<and> anchored cfg (config_root paths)
    \<and> (\<forall>env' install c paths1. same_machine cfg env env'
        \<and> parse_arguments (drop 2 argv) None zero_paths = (UV_OK, install, Some c, paths1)
        \<and> anchored cfg c \<and> (\<forall>d. install = Some d \<longrightarrow> anchored cfg d)
        \<longrightarrow> skyuv_main cfg env' argv = (Runs_skynet args, paths, dir))"
  using main_located [OF assms] main_same [OF assms(1,2)] assms(3) by (intro conjI; auto)

definition ex_launch :: "string \<Rightarrow> launch_env" where
  "ex_launch cwd = \<lparr>la_cwd = (UV_OK, cwd), la_realpath = (\<lambda>p. if char_at p 0 = CHR ''/'' then (UV_OK, p) else (UV_OK, cwd @ ''/'' @ p)),
     la_stat = (\<lambda>p. if p = ''/etc/m'' then UV_OK else UV_ENOENT), la_exepath = (UV_OK, ''/opt/bin/skyuv''),
     la_chdir = (\<lambda>_. UV_OK)\<rparr>"

definition ex_argv :: "string list" where
  "ex_argv = [''skyuv'', ''--runtime-paths'', ''--log-root'', ''/l'', ''/etc/m'']"

theorem launch_located_witness:
  "\<exists>paths. skyuv_main ex_posix (ex_launch ''/home'') ex_argv = (Runs_skynet [''skyuv'', ''/etc/m''], paths, Some ''/opt'')
    \<and> anchored ex_posix (config_root paths)
    \<and> skyuv_main ex_posix (ex_launch ''/tmp'') ex_argv = (Runs_skynet [''skyuv'', ''/etc/m''], paths, Some ''/opt'')"
proof -
  let ?p = "\<lparr>rp_enabled = True, install_root = ''/opt'', config_file = ''/etc/m'', config_root = ''/etc'',
     log_root = Some ''/l'', run_root = None\<rparr>"
  have m: "skyuv_main ex_posix (ex_launch ''/home'') ex_argv = (Runs_skynet [''skyuv'', ''/etc/m''], ?p, Some ''/opt'')"
    by code_simp
  have r: "\<forall>p r. la_realpath (ex_launch ''/home'') p = (UV_OK, r) \<longrightarrow> on_drive ex_posix (normalize_separators ex_posix r)"
    by (auto simp: ex_launch_def ex_posix_def on_drive_def anchored_def normalize_separators_def char_at_def)
  have s: "same_machine ex_posix (ex_launch ''/home'') (ex_launch ''/tmp'')"
    by (auto simp: same_machine_def ex_launch_def anchored_def ex_posix_def)
  have a: "parse_arguments (drop 2 ex_argv) None zero_paths = (UV_OK, None, Some ''/etc/m'', zero_paths\<lparr>log_root := Some ''/l''\<rparr>)"
    by code_simp
  have b: "anchored ex_posix ''/etc/m''" by code_simp
  have "length ex_argv > 1" "ex_argv ! 1 = ''--runtime-paths''" by (simp_all add: ex_argv_def)
  from launch_located [OF this m r] show ?thesis using m s a b by blast
qed

end
