(* ===== verification/Pid_File.thy ===== *)
theory Pid_File
  imports Skyuv_Prelude
begin

text \<open>
  The PID file of the Unix daemon (\<^verbatim>\<open>src/src/platform/daemon.c\<close>) over a small model of the parts of
  POSIX it uses: names that lead to inodes, contents, and locks that belong to open file
  descriptions. A descriptor is named by its open file description, so no name is used twice
  and a child inherits the lock of its parent. Failures of single system calls are
  arguments. The functions run one at a time: whoever has locked the
  coordination file keeps every other instance from going past the attempt to lock it.
\<close>

section \<open>Operating system\<close>

type_synonym inode = nat
type_synonym fd = nat

record posix =
  names :: "string \<Rightarrow> inode option"
  regular :: "inode \<Rightarrow> bool"
  content :: "inode \<Rightarrow> string"
  opened :: "fd \<Rightarrow> inode option"
  locked_by :: "inode \<Rightarrow> fd option"
  next_inode :: inode
  next_fd :: fd
  running :: "int \<Rightarrow> bool"

text \<open>\<^verbatim>\<open>open\<close> with \<^verbatim>\<open>O_CREAT\<close>, when it succeeds; a new file is regular and empty.\<close>

definition open_create :: "string \<Rightarrow> posix \<Rightarrow> fd \<times> posix" where
  "open_create path os =
     (case names os path of
        Some i \<Rightarrow> (next_fd os, os\<lparr>opened := (opened os)(next_fd os \<mapsto> i), next_fd := Suc (next_fd os)\<rparr>)
      | None \<Rightarrow>
          (next_fd os, os\<lparr>names := (names os)(path \<mapsto> next_inode os),
             regular := (regular os)(next_inode os := True),
             content := (content os)(next_inode os := []),
             opened := (opened os)(next_fd os \<mapsto> next_inode os),
             next_inode := Suc (next_inode os), next_fd := Suc (next_fd os)\<rparr>))"

text \<open>Closing the last descriptor of a description gives up its lock.\<close>

definition close_fd :: "fd \<Rightarrow> posix \<Rightarrow> posix" where
  "close_fd d os =
     os\<lparr>opened := (opened os)(d := None),
       locked_by := (\<lambda>i. if locked_by os i = Some d then None else locked_by os i)\<rparr>"

text \<open>\<^verbatim>\<open>flock(fd, LOCK_EX | LOCK_NB)\<close>.\<close>

definition flock_exclusive :: "fd \<Rightarrow> posix \<Rightarrow> bool \<times> posix" where
  "flock_exclusive d os =
     (case opened os d of
        None \<Rightarrow> (False, os)
      | Some i \<Rightarrow>
          if locked_by os i = None \<or> locked_by os i = Some d
          then (True, os\<lparr>locked_by := (locked_by os)(i \<mapsto> d)\<rparr>)
          else (False, os))"

text \<open>
  \<^verbatim>\<open>strtol\<close> in base 10: the value, whether any digit was read, and whether the value is out of
  the range of a 64-bit \<^verbatim>\<open>long\<close>.
\<close>

definition space :: "char \<Rightarrow> bool" where
  "space c \<longleftrightarrow> of_char c \<in> {9, 10, 11, 12, 13, 32 :: nat}"

definition digit :: "char \<Rightarrow> bool" where
  "digit c \<longleftrightarrow> (48 :: nat) \<le> of_char c \<and> of_char c \<le> (57 :: nat)"

definition digits_value :: "string \<Rightarrow> int" where
  "digits_value ds = foldl (\<lambda>n c. 10 * n + (of_char c - 48)) 0 ds"

definition strtol :: "string \<Rightarrow> int \<times> bool \<times> bool" where
  "strtol s =
     (let t = dropWhile space s;
          negative = (case t of c # _ \<Rightarrow> c = CHR ''-'' | [] \<Rightarrow> False);
          u = (case t of c # cs \<Rightarrow> if c = CHR ''-'' \<or> c = CHR ''+'' then cs else t | [] \<Rightarrow> t);
          ds = takeWhile digit u;
          n = (if negative then - digits_value ds else digits_value ds)
      in if n < - (2 ^ 63) then (- (2 ^ 63), ds \<noteq> [], True)
         else if n > 2 ^ 63 - 1 then (2 ^ 63 - 1, ds \<noteq> [], True)
         else (n, ds \<noteq> [], False))"

section \<open>State of the module\<close>

record pid_state =
  guard_fd :: "fd option"
  pid_fd :: "fd option"
  pid_path :: "string option"
  owns_pid :: bool
  exit_registered :: bool

text \<open>Which system calls fail, for the two files that are locked and for the rest.\<close>

record lock_env =
  lk_open :: bool
  lk_fstat :: bool
  lk_fcntl :: bool
  lk_flock :: bool

datatype transfer = Interrupted | Failed | Moved nat

record pid_env =
  pe_malloc :: bool
  pe_guard :: lock_env
  pe_pid :: lock_env
  pe_read :: "nat \<Rightarrow> transfer"
  pe_atexit :: bool
  pe_fstat :: bool
  pe_lstat :: bool
  pe_unlink :: bool
  pe_ftruncate :: bool
  pe_lseek :: bool
  pe_write :: "nat \<Rightarrow> transfer"
  pe_fsync :: bool

section \<open>Operations\<close>

definition skyuv_pid_release :: "pid_env \<Rightarrow> pid_state \<Rightarrow> posix \<Rightarrow> pid_state \<times> posix" where
  "skyuv_pid_release env st os =
     (let os1 =
        (case pid_fd st of
           None \<Rightarrow> os
         | Some d \<Rightarrow>
             let path = the (pid_path st);
                 os' = (if owns_pid st \<and> pe_fstat env \<and> opened os d \<noteq> None
                           \<and> pe_lstat env \<and> names os path \<noteq> None
                           \<and> opened os d = names os path \<and> pe_unlink env
                        then os\<lparr>names := (names os)(path := None)\<rparr> else os)
             in close_fd d os');
          os2 = (case guard_fd st of None \<Rightarrow> os1 | Some g \<Rightarrow> close_fd g os1)
      in (st\<lparr>pid_fd := None, pid_path := None, owns_pid := False, guard_fd := None\<rparr>, os2))"

definition lock_file :: "lock_env \<Rightarrow> string \<Rightarrow> posix \<Rightarrow> fd option \<times> posix" where
  "lock_file env path os =
     (if \<not> lk_open env then (None, os)
      else case open_create path os of (d, os) \<Rightarrow>
        if \<not> lk_fstat env \<or> \<not> regular os (the (opened os d)) then (None, close_fd d os)
        else if \<not> lk_fcntl env \<or> \<not> lk_flock env then (None, close_fd d os)
        else case flock_exclusive d os of (locked, os) \<Rightarrow>
          if \<not> locked then (None, close_fd d os) else (Some d, os))"

text \<open>The loop around \<^verbatim>\<open>read\<close>; a file system that interrupts for ever gives \<open>None\<close>.\<close>

partial_function (option) read_loop :: "(nat \<Rightarrow> transfer) \<Rightarrow> nat \<Rightarrow> transfer option" where
  "read_loop answer k = (if answer k = Interrupted then read_loop answer (Suc k) else Some (answer k))"

declare read_loop.simps [code]

text \<open>The test for the process of the PID that was read.\<close>

definition pid_in_use :: "string \<Rightarrow> posix \<Rightarrow> bool" where
  "pid_in_use buffer os =
     (case strtol buffer of (previous, digits, erange) \<Rightarrow>
        \<not> erange \<and> digits \<and> previous > 0 \<and> - (2 ^ 31) \<le> previous \<and> previous < 2 ^ 31 \<and> running os previous)"

definition skyuv_pid_acquire ::
    "pid_env \<Rightarrow> string option \<Rightarrow> pid_state \<Rightarrow> posix \<Rightarrow> (int \<times> pid_state \<times> posix) option" where
  "skyuv_pid_acquire env pidfile st os =
     (let fail = (\<lambda>st os. Some (1, skyuv_pid_release env st os)) in
      if pid_fd st \<noteq> None \<or> guard_fd st \<noteq> None \<or> pidfile = None \<or> pidfile = Some [] then Some (1, st, os)
      else
        let path = the pidfile in
        if \<not> pe_malloc env then fail st os
        else
          let st = st\<lparr>pid_path := Some path\<rparr> in
          case lock_file (pe_guard env) (path @ ''.lock'') os of (guard, os) \<Rightarrow>
          let st = st\<lparr>guard_fd := guard\<rparr> in
          if guard = None then fail st os
          else case lock_file (pe_pid env) path os of (d, os) \<Rightarrow>
          let st = st\<lparr>pid_fd := d\<rparr> in
          if d = None then fail st os
          else Option.bind (read_loop (pe_read env) 0) (\<lambda>answer.
            if answer = Failed then fail st os
            else
              let buffer = take 63 (content os (the (opened os (the d)))) in
              if pid_in_use (takeWhile (\<lambda>c. c \<noteq> CHR 0x00) buffer) os then fail st os
              else
                let st = st\<lparr>owns_pid := True\<rparr> in
                if exit_registered st then Some (0, st, os)
                else if \<not> pe_atexit env then fail st os
                else Some (0, st\<lparr>exit_registered := True\<rparr>, os)))"

text \<open>
  The loop around \<^verbatim>\<open>write\<close>: whether it reached the end, and the file, of which the first \<open>offset\<close>
  characters have been written. A write moves at most what it was asked to.
\<close>

partial_function (option) write_loop ::
    "(nat \<Rightarrow> transfer) \<Rightarrow> nat \<Rightarrow> string \<Rightarrow> inode \<Rightarrow> nat \<Rightarrow> posix \<Rightarrow> (bool \<times> posix) option" where
  "write_loop answer k buffer i offset os =
     (if offset \<ge> length buffer then Some (True, os)
      else case answer k of
        Interrupted \<Rightarrow> write_loop answer (Suc k) buffer i offset os
      | Failed \<Rightarrow> Some (False, os)
      | Moved n \<Rightarrow>
          let written = min n (length buffer - offset) in
          if written = 0 then Some (False, os)
          else write_loop answer (Suc k) buffer i (offset + written)
                 (os\<lparr>content := (content os)(i := take offset (content os i) @ take written (drop offset buffer)
                    @ drop (offset + written) (content os i))\<rparr>))"

declare write_loop.simps [code]

definition skyuv_pid_publish :: "pid_env \<Rightarrow> nat \<Rightarrow> pid_state \<Rightarrow> posix \<Rightarrow> (int \<times> pid_state \<times> posix) option" where
  "skyuv_pid_publish env getpid st os =
     (let fail = (\<lambda>os. Some (1, skyuv_pid_release env st os)) in
      if pid_fd st = None \<or> \<not> owns_pid st then Some (1, st, os)
      else
        let buffer = show_nat getpid @ [CHR 0x0A]; i = the (opened os (the (pid_fd st))) in
        if length buffer \<ge> 64 \<or> \<not> pe_ftruncate env then fail os
        else
          let os = os\<lparr>content := (content os)(i := [])\<rparr> in
          if \<not> pe_lseek env then fail os
          else Option.bind (write_loop (pe_write env) 0 buffer i 0 os) (\<lambda>(complete, os).
            if \<not> complete \<or> \<not> pe_fsync env then fail os else Some (0, st, os)))"

text \<open>
  \<open>null_fd\<close> is the descriptor of \<^verbatim>\<open>/dev/null\<close>, \<open>dup2\<close> tells which duplications succeed; the result
  also lists the standard descriptors that were redirected and the descriptor that was closed.
\<close>

definition redirect_fds :: "nat option \<Rightarrow> (nat \<Rightarrow> bool) \<Rightarrow> int \<times> nat list \<times> nat option" where
  "redirect_fds null_fd dup2 =
     (case null_fd of
        None \<Rightarrow> (1, [], None)
      | Some d \<Rightarrow>
          let targets = takeWhile dup2 [0, 1, 2] in
          (if length targets < 3 then 1 else 0, targets, if d > 2 then Some d else None))"

text \<open>\<open>daemonize\<close> is whether \<^verbatim>\<open>daemon(1, 1)\<close> succeeds; macOS does not call it.\<close>

definition daemon_init ::
    "bool \<Rightarrow> pid_env \<Rightarrow> bool \<Rightarrow> nat \<Rightarrow> nat option \<Rightarrow> (nat \<Rightarrow> bool) \<Rightarrow> string option
      \<Rightarrow> pid_state \<Rightarrow> posix \<Rightarrow> (int \<times> pid_state \<times> posix) option" where
  "daemon_init apple env daemonize getpid null_fd dup2 pidfile st os =
     Option.bind (skyuv_pid_acquire env pidfile st os) (\<lambda>(r, st, os).
       if r \<noteq> 0 then Some (1, st, os)
       else if \<not> apple \<and> \<not> daemonize then Some (1, skyuv_pid_release env st os)
       else Option.bind (skyuv_pid_publish env getpid st os) (\<lambda>(r, st, os).
         if r \<noteq> 0 \<or> fst (redirect_fds null_fd dup2) \<noteq> 0 then Some (1, skyuv_pid_release env st os)
         else Some (0, st, os)))"

definition daemon_exit :: "pid_env \<Rightarrow> pid_state \<Rightarrow> posix \<Rightarrow> int \<times> pid_state \<times> posix" where
  "daemon_exit env st os = (0, skyuv_pid_release env st os)"

text \<open>The replacement for Windows (\<^verbatim>\<open>compat/skynet/start/skyuv_daemon.c\<close>).\<close>

definition windows_daemon_init :: "string option \<Rightarrow> int" where
  "windows_daemon_init pidfile = 1"

section \<open>Numbers in the file\<close>

lemma digit_char: "k < 10 \<Longrightarrow> digit (char_of (48 + k)) \<and> \<not> space (char_of (48 + k))" for k :: nat
  by (simp add: digit_def space_def of_char_of)

lemma digit_value: "k < 10 \<Longrightarrow> (of_char (char_of (48 + k) :: char) :: int) = 48 + int k" for k :: nat
  by (subst of_nat_of_char [symmetric]) (simp add: of_char_of)

lemma show_nat_digits: "\<forall>c \<in> set (show_nat n). digit c"
  by (induction n rule: show_nat.induct) (subst show_nat.simps, auto simp: digit_char)

lemma show_nat_Nil [simp]: "show_nat n \<noteq> []"
  by (subst show_nat.simps) simp

lemma digits_value_show: "digits_value (show_nat n) = int n"
proof (induction n rule: show_nat.induct)
  case (1 n)
  show ?case
  proof (cases "n < 10")
    case True
    then show ?thesis by (subst show_nat.simps) (simp add: digits_value_def digit_value)
  next
    case False
    then have "digits_value (show_nat (n div 10)) = int (n div 10)" using 1 by blast
    then have "digits_value (show_nat n) = 10 * int (n div 10) + int (n mod 10)"
      using False by (subst show_nat.simps) (simp add: digits_value_def digit_value)
    then show ?thesis by presburger
  qed
qed

lemma digit_no_space: "digit c \<Longrightarrow> \<not> space c \<and> c \<noteq> CHR ''-'' \<and> c \<noteq> CHR ''+'' \<and> c \<noteq> CHR 0x00"
  by (auto simp: digit_def space_def)

lemma strtol_show:
  assumes "int n < 2 ^ 63" "\<not> digit c"
  shows "strtol (show_nat n @ [c]) = (int n, True, False)"
proof -
  obtain x xs where x: "show_nat n = x # xs" by (cases "show_nat n") auto
  have d: "\<forall>y \<in> set (show_nat n). digit y" by (rule show_nat_digits)
  have "takeWhile digit (show_nat n @ [c]) = show_nat n"
    using d assms(2) by (simp add: takeWhile_append)
  moreover have "dropWhile space (show_nat n @ [c]) = show_nat n @ [c]" "x \<noteq> CHR ''-''" "x \<noteq> CHR ''+''"
    using d x digit_no_space [of x] by auto
  ultimately show ?thesis
    using assms(1) digits_value_show [of n] x by (simp add: strtol_def Let_def)
qed

text \<open>The PID that was written is the PID that is read.\<close>

definition pid_text :: "nat \<Rightarrow> string" where
  "pid_text pid = show_nat pid @ [CHR 0x0A]"

lemma pid_in_use_text:
  assumes "0 < pid" "pid < 2 ^ 31"
  shows "pid_in_use (takeWhile (\<lambda>c. c \<noteq> CHR 0x00) (pid_text pid)) os \<longleftrightarrow> running os (int pid)"
proof -
  have t: "takeWhile (\<lambda>c. c \<noteq> CHR 0x00) (pid_text pid) = pid_text pid"
    using show_nat_digits [of pid] digit_no_space by (auto simp: pid_text_def takeWhile_eq_all_conv)
  have s: "strtol (pid_text pid) = (int pid, True, False)"
    using assms strtol_show [of pid "CHR 0x0A"] by (simp add: pid_text_def digit_def)
  show ?thesis unfolding pid_in_use_def t s using assms by simp
qed

section \<open>Loops\<close>

lemma read_loop_returns:
  assumes "answer k' \<noteq> Interrupted" "k \<le> k'"
  shows "\<exists>x. read_loop answer k = Some x \<and> x \<noteq> Interrupted"
  using assms(2)
proof (induction k rule: inc_induct)
  case base
  then show ?case using assms(1) by (simp add: read_loop.simps [of answer k'])
next
  case (step n)
  then show ?case by (cases "answer n = Interrupted") (simp_all add: read_loop.simps [of answer n])
qed

lemma write_loop_returns:
  assumes "\<forall>k. \<exists>k' \<ge> k. answer k' \<noteq> Interrupted"
  shows "\<exists>x. write_loop answer k buffer i offset os = Some x"
proof (induction "length buffer - offset" arbitrary: k offset os rule: less_induct)
  case less
  obtain k' where k': "k \<le> k'" "answer k' \<noteq> Interrupted" using assms by blast
  show ?case using k'(1)
  proof (induction k rule: inc_induct)
    case base
    then show ?case
      using k'(2) less by (subst write_loop.simps) (auto simp: Let_def split: transfer.splits)
  next
    case (step n)
    then show ?case
      using less by (subst write_loop.simps) (auto simp: Let_def split: transfer.splits)
  qed
qed

lemma content_same: "content os i = x \<Longrightarrow> os\<lparr>content := (content os)(i := x)\<rparr> = os"
  by (simp add: fun_upd_idem)

lemma write_loop_content:
  assumes "write_loop answer k buffer i offset os = Some res"
    and "offset \<le> length buffer" "content os i = take offset buffer"
  shows "snd res = os\<lparr>content := (content os)(i := content (snd res) i)\<rparr>
    \<and> (fst res \<longrightarrow> content (snd res) i = buffer)"
proof -
  let ?P = "\<lambda>answer k buffer i offset os res. offset \<le> length buffer \<and> content os i = take offset buffer
      \<longrightarrow> snd res = os\<lparr>content := (content os)(i := content (snd res) i)\<rparr>
        \<and> (fst res \<longrightarrow> content (snd res) i = buffer)"
  have "?P answer k buffer i offset os res"
  proof (rule write_loop.raw_induct [where P = ?P, OF _ assms(1)], intro impI, elim conjE, goal_cases)
    case (1 f answer k buffer i offset os res)
    show ?case
    proof (cases "answer k")
      case Interrupted
      then show ?thesis using 1 by (auto split: if_splits)
    next
      case Failed
      then show ?thesis using 1 by (auto simp: content_same split: if_splits)
    next
      case (Moved n)
      let ?w = "min n (length buffer - offset)"
      let ?os = "os\<lparr>content := (content os)(i := take offset (content os i) @ take ?w (drop offset buffer)
          @ drop (offset + ?w) (content os i))\<rparr>"
      show ?thesis
      proof (cases "offset \<ge> length buffer \<or> ?w = 0")
        case True
        then show ?thesis using 1 Moved by (auto simp: Let_def content_same split: if_splits)
      next
        case False
        then have "f answer (Suc k) buffer i (offset + ?w) ?os = Some res"
          using 1(2) Moved by (auto simp: Let_def split: if_splits)
        moreover have "content ?os i = take (offset + ?w) buffer"
          using 1(3,4) by (simp add: take_add)
        moreover have "offset + ?w \<le> length buffer" using 1(3) by simp
        ultimately have "snd res = ?os\<lparr>content := (content ?os)(i := content (snd res) i)\<rparr>
            \<and> (fst res \<longrightarrow> content (snd res) i = buffer)"
          using 1(1) by blast
        then show ?thesis by (metis (no_types, lifting) fun_upd_upd posix.select_convs(3) posix.surjective posix.update_convs(3))
      qed
    qed
  qed
  then show ?thesis using assms by blast
qed

end
