(* ===== verification/Pid_Safety.thy ===== *)
theory Pid_Safety
  imports Pid_File
begin

text \<open>
  Instances of the daemon that share one PID file: a transition system of their calls, crashes
  and the start and end of other processes, and what holds in every state it reaches.
\<close>

section \<open>Instances\<close>

definition zero_pid :: pid_state where
  "zero_pid = \<lparr>guard_fd = None, pid_fd = None, pid_path = None, owns_pid = False, exit_registered = False\<rparr>"

text \<open>A crash: the kernel closes the descriptors, the next instance starts afresh.\<close>

definition crash :: "pid_state \<Rightarrow> posix \<Rightarrow> posix" where
  "crash st os =
     (let os1 = (case pid_fd st of None \<Rightarrow> os | Some d \<Rightarrow> close_fd d os) in
      case guard_fd st of None \<Rightarrow> os1 | Some g \<Rightarrow> close_fd g os1)"

type_synonym instances = "(nat \<Rightarrow> pid_state) \<times> posix"

inductive pid_step :: "string \<Rightarrow> instances \<Rightarrow> instances \<Rightarrow> bool" for f where
  step_acquire: "skyuv_pid_acquire env (Some f) (ps p) os = Some (r, st, os')
    \<Longrightarrow> pid_step f (ps, os) (ps(p := st), os')"
| step_publish: "skyuv_pid_publish env getpid (ps p) os = Some (r, st, os')
    \<Longrightarrow> pid_step f (ps, os) (ps(p := st), os')"
| step_release: "skyuv_pid_release env (ps p) os = (st, os')
    \<Longrightarrow> pid_step f (ps, os) (ps(p := st), os')"
| step_crash: "pid_step f (ps, os) (ps(p := zero_pid), crash (ps p) os)"
| step_processes: "pid_step f (ps, os) (ps, os\<lparr>running := procs\<rparr>)"

text \<open>
  At the start no instance runs; the PID file and the coordination file may exist, as two different files.
\<close>

definition guard_path :: "string \<Rightarrow> string" where
  "guard_path f = f @ ''.lock''"

definition names_ok :: "string \<Rightarrow> posix \<Rightarrow> bool" where
  "names_ok f os \<longleftrightarrow> (\<forall>a i. names os a = Some i \<longrightarrow> i < next_inode os)
     \<and> \<not> (\<exists>i. names os f = Some i \<and> names os (guard_path f) = Some i)"

definition pid_start :: "string \<Rightarrow> instances \<Rightarrow> bool" where
  "pid_start f s \<longleftrightarrow> f \<noteq> [] \<and> (\<forall>p. fst s p = zero_pid)
     \<and> opened (snd s) = Map.empty \<and> locked_by (snd s) = Map.empty \<and> names_ok f (snd s)"

inductive pid_reachable :: "string \<Rightarrow> instances \<Rightarrow> bool" for f where
  pid_initial: "pid_start f s \<Longrightarrow> pid_reachable f s"
| pid_next: "pid_reachable f s \<Longrightarrow> pid_step f s s' \<Longrightarrow> pid_reachable f s'"

section \<open>Invariant\<close>

definition pid_quiet :: "pid_state \<Rightarrow> bool" where
  "pid_quiet st \<longleftrightarrow> guard_fd st = None \<and> pid_fd st = None \<and> \<not> owns_pid st"

text \<open>No descriptor is open, no lock is held.\<close>

definition pid_idle :: "string \<Rightarrow> posix \<Rightarrow> bool" where
  "pid_idle f os \<longleftrightarrow> names_ok f os \<and> opened os = Map.empty \<and> locked_by os = Map.empty"

text \<open>The descriptors and locks of one owner, and no others.\<close>

definition pid_owned :: "string \<Rightarrow> pid_state \<Rightarrow> posix \<Rightarrow> bool" where
  "pid_owned f st os \<longleftrightarrow> names_ok f os \<and> owns_pid st \<and> pid_path st = Some f
     \<and> (\<exists>g d i j. guard_fd st = Some g \<and> pid_fd st = Some d \<and> g < next_fd os \<and> d < next_fd os \<and> g \<noteq> d
         \<and> names os (guard_path f) = Some i \<and> names os f = Some j \<and> regular os i \<and> regular os j
         \<and> opened os = [g \<mapsto> i, d \<mapsto> j] \<and> locked_by os = [i \<mapsto> g, j \<mapsto> d])"

definition instances_ok :: "string \<Rightarrow> instances \<Rightarrow> bool" where
  "instances_ok f s \<longleftrightarrow> f \<noteq> [] \<and>
     (((\<forall>p. pid_quiet (fst s p)) \<and> pid_idle f (snd s))
      \<or> (\<exists>p. (\<forall>q. q \<noteq> p \<longrightarrow> pid_quiet (fst s q)) \<and> pid_owned f (fst s p) (snd s)))"

section \<open>Locking a file\<close>

text \<open>The file system with a file of that name.\<close>

definition made :: "string \<Rightarrow> posix \<Rightarrow> posix" where
  "made path os =
     (if names os path = None
      then os\<lparr>names := (names os)(path \<mapsto> next_inode os), regular := (regular os)(next_inode os := True),
             content := (content os)(next_inode os := []), next_inode := Suc (next_inode os)\<rparr>
      else os)"

lemma made_names: "names (made path os) path \<noteq> None"
  by (auto simp: made_def)

lemma made_frame [simp]:
  "opened (made path os) = opened os" "locked_by (made path os) = locked_by os"
  "next_fd (made path os) = next_fd os" "running (made path os) = running os"
  by (auto simp: made_def)

lemma made_exists: "names os path \<noteq> None \<Longrightarrow> made path os = os"
  by (auto simp: made_def)

lemma made_other: "a \<noteq> path \<Longrightarrow> names (made path os) a = names os a"
  by (simp add: made_def)

lemma open_create_made:
  "open_create path os =
     (next_fd os, (made path os)\<lparr>opened := (opened os)(next_fd os \<mapsto> the (names (made path os) path)),
        next_fd := Suc (next_fd os)\<rparr>)"
  by (auto simp: open_create_def made_def split: option.splits)

lemma lock_file_cases:
  assumes "lock_file env path os = (r, os')" "opened os (next_fd os) = None" "\<forall>i. locked_by os i \<noteq> Some (next_fd os)"
  shows "(r = None \<and> (os' = os \<or> os' = (made path os)\<lparr>next_fd := Suc (next_fd os)\<rparr>))
    \<or> (r = Some (next_fd os) \<and> (\<exists>i. names (made path os) path = Some i \<and> locked_by os i = None
        \<and> regular (made path os) i \<and> os' = (made path os)\<lparr>opened := (opened os)(next_fd os \<mapsto> i),
            locked_by := (locked_by os)(i \<mapsto> next_fd os), next_fd := Suc (next_fd os)\<rparr>))"
proof -
  obtain i where i: "names (made path os) path = Some i" using made_names by blast
  have c: "close_fd (next_fd os) ((made path os)\<lparr>opened := (opened os)(next_fd os \<mapsto> i),
      next_fd := Suc (next_fd os)\<rparr>) = (made path os)\<lparr>next_fd := Suc (next_fd os)\<rparr>"
    by (rule posix.equality) (use assms(2,3) in \<open>auto simp: close_fd_def fun_upd_idem\<close>)
  show ?thesis
    using assms i c unfolding lock_file_def open_create_made
    by (auto simp: flock_exclusive_def split: if_splits prod.splits)
qed

lemma guard_path_neq [simp]: "guard_path f \<noteq> f" "f \<noteq> guard_path f"
  by (simp_all add: guard_path_def)

lemma names_ok_made:
  assumes "names_ok f os"
  shows "names_ok f (made path os)"
proof (cases "names os path = None")
  case True
  have "i < next_inode os" if "names os a = Some i" for a i using assms that by (simp add: names_ok_def)
  then show ?thesis
    using assms True unfolding names_ok_def
    by (auto simp: made_def less_Suc_eq split: if_splits)
qed (use assms made_exists in auto)

lemma names_ok_cong:
  assumes "names_ok f os" "names os' = names os" "next_inode os' = next_inode os"
  shows "names_ok f os'"
  using assms by (simp add: names_ok_def)

lemma names_ok_unlink:
  assumes "names_ok f os" "names os' = (names os)(a := None)" "next_inode os' = next_inode os"
  shows "names_ok f os'"
  using assms by (auto simp: names_ok_def split: if_splits)

section \<open>Release\<close>

lemma release_quiet:
  assumes "pid_quiet st"
  shows "skyuv_pid_release env st os = (st\<lparr>pid_path := None\<rparr>, os)"
  using assms by (simp add: skyuv_pid_release_def pid_quiet_def Let_def)

lemma quiet_path [simp]: "pid_quiet (st\<lparr>pid_path := x\<rparr>) = pid_quiet st"
  by (simp add: pid_quiet_def)

text \<open>Both locks, or the coordination lock alone, held by one instance.\<close>

definition holding :: "pid_state \<Rightarrow> posix \<Rightarrow> bool" where
  "holding st os \<longleftrightarrow>
     (\<exists>g i. guard_fd st = Some g \<and>
        ((pid_fd st = None \<and> opened os = [g \<mapsto> i] \<and> locked_by os = [i \<mapsto> g])
         \<or> (\<exists>d j. pid_fd st = Some d \<and> opened os = [g \<mapsto> i, d \<mapsto> j] \<and> locked_by os = [i \<mapsto> g, j \<mapsto> d])))"

lemma close_all:
  assumes "holding st os"
  shows "opened (crash st os) = Map.empty" "locked_by (crash st os) = Map.empty"
    "names (crash st os) = names os" "next_inode (crash st os) = next_inode os"
  using assms
  by (auto simp: holding_def crash_def close_fd_def fun_eq_iff split: if_splits)

lemma release_crash:
  "snd (skyuv_pid_release env st os) =
     (let os' = (if owns_pid st \<and> pid_fd st \<noteq> None \<and> pe_fstat env \<and> opened os (the (pid_fd st)) \<noteq> None
                    \<and> pe_lstat env \<and> names os (the (pid_path st)) \<noteq> None
                    \<and> opened os (the (pid_fd st)) = names os (the (pid_path st)) \<and> pe_unlink env
                 then os\<lparr>names := (names os)(the (pid_path st) := None)\<rparr> else os)
      in crash st os')"
  by (auto simp: skyuv_pid_release_def crash_def Let_def split: option.splits)

lemma holding_names: "holding st (os\<lparr>names := n\<rparr>) = holding st os"
  by (simp add: holding_def)

lemma release_holding:
  assumes "holding st os" "names_ok f os" "skyuv_pid_release env st os = (st', os')"
  shows "pid_quiet st' \<and> pid_idle f os' \<and> pid_path st' = None"
proof -
  have st': "st' = st\<lparr>pid_fd := None, pid_path := None, owns_pid := False, guard_fd := None\<rparr>"
    using assms(3) by (simp add: skyuv_pid_release_def Let_def)
  have "os' = snd (skyuv_pid_release env st os)" using assms(3) by simp
  then consider "os' = crash st os" | a where "os' = crash st (os\<lparr>names := (names os)(a := None)\<rparr>)"
    unfolding release_crash Let_def by (auto split: if_splits)
  then have "pid_idle f os'"
  proof cases
    case 1
    then show ?thesis
      using close_all [OF assms(1)] names_ok_cong [OF assms(2)] by (simp add: pid_idle_def)
  next
    case (2 a)
    have h: "holding st (os\<lparr>names := (names os)(a := None)\<rparr>)" using assms(1) by (simp add: holding_names)
    show ?thesis
      using close_all [OF h] names_ok_unlink [OF assms(2), of os' a] by (simp add: 2 pid_idle_def)
  qed
  then show ?thesis by (simp add: st' pid_quiet_def)
qed

lemma owned_holding: "pid_owned f st os \<Longrightarrow> holding st os"
  by (auto simp: pid_owned_def holding_def)

lemma release_owned:
  assumes "pid_owned f st os" "skyuv_pid_release env st os = (st', os')"
  shows "pid_quiet st' \<and> pid_idle f os'"
proof -
  have "names_ok f os" using assms(1) by (simp add: pid_owned_def)
  then show ?thesis using release_holding [OF owned_holding [OF assms(1)] _ assms(2)] by blast
qed

lemma crash_owned:
  assumes "pid_owned f st os"
  shows "pid_idle f (crash st os)"
proof -
  have "names_ok f os" using assms by (simp add: pid_owned_def)
  then show ?thesis
    using close_all [OF owned_holding [OF assms]] names_ok_cong [of f os "crash st os"] by (simp add: pid_idle_def)
qed

section \<open>Acquisition\<close>

text \<open>While another instance owns the PID file, the coordination lock is refused.\<close>

lemma acquire_refused:
  assumes o: "pid_owned f so os" and q: "pid_quiet st" and f: "f \<noteq> []"
    and a: "skyuv_pid_acquire env (Some f) st os = Some (r, st', os')"
  shows "r = 1 \<and> pid_quiet st' \<and> pid_owned f so os'"
proof -
  obtain g d i j where own: "g < next_fd os" "d < next_fd os" "names os (guard_path f) = Some i"
    "opened os = [g \<mapsto> i, d \<mapsto> j]" "locked_by os = [i \<mapsto> g, j \<mapsto> d]"
    using o unfolding pid_owned_def by blast
  obtain l os1 where l: "lock_file (pe_guard env) (guard_path f) os = (l, os1)" by fastforce
  have m: "made (guard_path f) os = os" using own(3) by (simp add: made_exists)
  have "l = None \<and> (os1 = os \<or> os1 = os\<lparr>next_fd := Suc (next_fd os)\<rparr>)"
  proof -
    have "opened os (next_fd os) = None" "\<forall>k. locked_by os k \<noteq> Some (next_fd os)" "locked_by os i \<noteq> None"
      using own by (auto split: if_splits)
    then show ?thesis using lock_file_cases [OF l] own(3) by (auto simp: m)
  qed
  moreover have "pid_owned f so (os\<lparr>next_fd := Suc (next_fd os)\<rparr>)"
    using o unfolding pid_owned_def names_ok_def by (auto intro: less_SucI)
  moreover have "pid_quiet (st\<lparr>pid_path := Some f, guard_fd := None\<rparr>)" using q by (simp add: pid_quiet_def)
  ultimately show ?thesis
    using a q f o l
    by (auto simp: skyuv_pid_acquire_def Let_def guard_path_def [symmetric] release_quiet pid_quiet_def
        split: if_splits)
qed

text \<open>On an idle file system the two locks are taken one after the other.\<close>

lemma lock_guard:
  assumes "pid_idle f os" "lock_file env (guard_path f) os = (l, os')"
  shows "(l = None \<and> pid_idle f os')
    \<or> (\<exists>g i. l = Some g \<and> names_ok f os' \<and> names os' (guard_path f) = Some i \<and> g < next_fd os'
        \<and> regular os' i \<and> opened os' = [g \<mapsto> i] \<and> locked_by os' = [i \<mapsto> g])"
proof -
  have o: "opened os = Map.empty" "locked_by os = Map.empty" "names_ok f os" using assms(1) by (auto simp: pid_idle_def)
  have "names_ok f (made (guard_path f) os)" using o(3) by (rule names_ok_made)
  then show ?thesis
    using lock_file_cases [OF assms(2)] o unfolding pid_idle_def
    by (auto simp: names_ok_def fun_eq_iff)
qed

lemma lock_pid:
  assumes "names_ok f os" "names os (guard_path f) = Some i" "g < next_fd os" "regular os i"
    and "opened os = [g \<mapsto> i]" "locked_by os = [i \<mapsto> g]" "lock_file env f os = (l, os')"
  shows "names_ok f os' \<and>
    ((l = None \<and> opened os' = [g \<mapsto> i] \<and> locked_by os' = [i \<mapsto> g])
     \<or> (\<exists>d j. l = Some d \<and> g < next_fd os' \<and> d < next_fd os' \<and> g \<noteq> d
         \<and> names os' (guard_path f) = Some i \<and> names os' f = Some j \<and> regular os' i \<and> regular os' j
         \<and> opened os' = [g \<mapsto> i, d \<mapsto> j] \<and> locked_by os' = [i \<mapsto> g, j \<mapsto> d]))"
proof -
  have fresh: "opened os (next_fd os) = None" "\<forall>k. locked_by os k \<noteq> Some (next_fd os)"
    using assms(3,5,6) by auto
  have "regular (made f os) i" using assms(4) by (simp add: made_def)
  moreover have "names_ok f (made f os)" using assms(1) by (rule names_ok_made)
  moreover have "names (made f os) (guard_path f) = Some i" using assms(2) by (simp add: made_other)
  ultimately show ?thesis
    using lock_file_cases [OF assms(7) fresh] assms
    by (auto simp: names_ok_def)
qed

lemma acquire_idle:
  assumes idle: "pid_idle f os" and q: "pid_quiet st" and f: "f \<noteq> []"
    and a: "skyuv_pid_acquire env (Some f) st os = Some (r, st', os')"
  shows "(r = 0 \<and> pid_owned f st' os') \<or> (r = 1 \<and> pid_quiet st' \<and> pid_idle f os')"
proof -
  obtain l os1 where l: "lock_file (pe_guard env) (guard_path f) os = (l, os1)" by fastforce
  let ?st1 = "st\<lparr>pid_path := Some f, guard_fd := l\<rparr>"
  have st: "pid_fd st = None" "guard_fd st = None" "\<not> owns_pid st" using q by (auto simp: pid_quiet_def)
  show ?thesis
  proof (cases "pe_malloc env")
    case False
    then show ?thesis
      using a idle q f by (auto simp: skyuv_pid_acquire_def Let_def st release_quiet pid_quiet_def split: if_splits)
  next
    case malloc: True
    show ?thesis
    proof (cases l)
      case None
      then have "pid_quiet ?st1" using st by (simp add: pid_quiet_def)
      then show ?thesis
        using a f None malloc lock_guard [OF idle l] st
        by (auto simp: skyuv_pid_acquire_def Let_def guard_path_def [symmetric] l release_quiet)
          (simp add: pid_quiet_def)
    next
      case (Some g)
      then obtain i where g: "names_ok f os1" "names os1 (guard_path f) = Some i" "g < next_fd os1" "regular os1 i"
          "opened os1 = [g \<mapsto> i]" "locked_by os1 = [i \<mapsto> g]"
        using lock_guard [OF idle l] by auto
      obtain l2 os2 where l2: "lock_file (pe_pid env) f os1 = (l2, os2)" by fastforce
      note pid = lock_pid [OF g l2]
      let ?st2 = "?st1\<lparr>pid_fd := l2\<rparr>"
      have hold: "holding ?st2 os2" "holding (?st2\<lparr>owns_pid := True\<rparr>) os2" "names_ok f os2"
        using pid Some by (auto simp: holding_def)
      have own: "pid_owned f (?st2\<lparr>owns_pid := True\<rparr>) os2" if "l2 \<noteq> None"
        using pid that Some by (auto simp: pid_owned_def)
      then have own2: "pid_owned f (?st2\<lparr>owns_pid := True, exit_registered := True\<rparr>) os2" if "l2 \<noteq> None"
        using that by (simp add: pid_owned_def)
      have rel: "\<exists>s o'. skyuv_pid_release env x os2 = (s, o') \<and> pid_quiet s \<and> pid_idle f o'" if "holding x os2" for x
        using release_holding [OF that hold(3)] by (metis surj_pair)
      have acq: "skyuv_pid_acquire env (Some f) st os =
        (let fail = (\<lambda>st os. Some (1, skyuv_pid_release env st os)) in
          if l2 = None then fail ?st2 os2
          else Option.bind (read_loop (pe_read env) 0) (\<lambda>answer.
            if answer = Failed \<or> pid_in_use (takeWhile (\<lambda>c. c \<noteq> CHR 0x00)
                (take 63 (content os2 (the (opened os2 (the l2)))))) os2 then fail ?st2 os2
            else if exit_registered st then Some (0, ?st2\<lparr>owns_pid := True\<rparr>, os2)
            else if \<not> pe_atexit env then fail (?st2\<lparr>owns_pid := True\<rparr>) os2
            else Some (0, ?st2\<lparr>owns_pid := True, exit_registered := True\<rparr>, os2)))"
        using f malloc Some st
        by (simp add: skyuv_pid_acquire_def Let_def guard_path_def [symmetric] l l2 cong: if_cong)
      show ?thesis
        using a [unfolded acq] own own2 rel [OF hold(1)] rel [OF hold(2)]
        by (auto simp: Let_def bind_eq_Some_conv split: if_splits)
    qed
  qed
qed

section \<open>Publication\<close>

text \<open>An instance with no descriptors is refused; an owner writes its file, or gives everything back.\<close>

lemma owned_content: "pid_owned f st (os\<lparr>content := c\<rparr>) = pid_owned f st os"
  by (simp add: pid_owned_def names_ok_def)

lemma publish_quiet:
  "pid_quiet st \<Longrightarrow> skyuv_pid_publish env pid st os = Some (1, st, os)"
  by (simp add: skyuv_pid_publish_def pid_quiet_def)

lemma publish_owned:
  assumes o: "pid_owned f st os" and p: "skyuv_pid_publish env pid st os = Some (r, st', os')"
  shows "(r = 0 \<and> st' = st \<and> pid_owned f st os' \<and> names os' = names os
      \<and> content os' (the (names os f)) = pid_text pid \<and> length (pid_text pid) < 64)
    \<or> (r = 1 \<and> pid_quiet st' \<and> pid_idle f os')"
proof -
  obtain d j where d: "pid_fd st = Some d" "owns_pid st" "names os f = Some j" "opened os d = Some j"
    using o by (auto simp: pid_owned_def)
  have fail: "\<exists>s o'. skyuv_pid_release env st (os\<lparr>content := c\<rparr>) = (s, o') \<and> pid_quiet s \<and> pid_idle f o'" for c
  proof -
    have "pid_owned f st (os\<lparr>content := c\<rparr>)" using o by (simp add: owned_content)
    then show ?thesis using release_owned by (metis surj_pair)
  qed
  have fail0: "\<exists>s o'. skyuv_pid_release env st os = (s, o') \<and> pid_quiet s \<and> pid_idle f o'"
    using fail [of "content os"] by simp
  show ?thesis
  proof (cases "length (pid_text pid) \<ge> 64 \<or> \<not> pe_ftruncate env \<or> \<not> pe_lseek env")
    case True
    then show ?thesis
      using p d fail [of "(content os)(j := [])"] fail0 by (auto simp: skyuv_pid_publish_def Let_def pid_text_def split: if_splits)
  next
    case False
    let ?os = "os\<lparr>content := (content os)(j := [])\<rparr>"
    obtain complete os3 where w: "write_loop (pe_write env) 0 (pid_text pid) j 0 ?os = Some (complete, os3)"
      and r: "(if \<not> complete \<or> \<not> pe_fsync env then Some (1, skyuv_pid_release env st os3)
        else Some (0, st, os3)) = Some (r, st', os')"
      using p d False by (auto simp: skyuv_pid_publish_def Let_def pid_text_def bind_eq_Some_conv)
    have "os3 = ?os\<lparr>content := (content ?os)(j := content os3 j)\<rparr>" "complete \<Longrightarrow> content os3 j = pid_text pid"
      using write_loop_content [OF w] by auto
    moreover from this(1) obtain cc where cc: "os3 = os\<lparr>content := cc\<rparr>" by simp
    ultimately show ?thesis
      using r fail [of cc] False o d(3)
      by (cases "\<not> complete \<or> \<not> pe_fsync env") (auto simp: cc owned_content)
  qed
qed

section \<open>Every reachable state\<close>

lemma step_ok:
  assumes ok: "instances_ok f s" and step: "pid_step f s s'"
  shows "instances_ok f s'"
proof -
  obtain ps os where s: "s = (ps, os)" by fastforce
  have f: "f \<noteq> []" using ok by (simp add: instances_ok_def)
  text \<open>It is enough to say what happens to the instance that acts.\<close>
  have by_quiet: "instances_ok f (ps(p := st), os')"
    if "pid_quiet (ps p)" and i: "pid_idle f os \<Longrightarrow> (pid_quiet st \<and> pid_idle f os') \<or> pid_owned f st os'"
      and r: "\<And>so. pid_owned f so os \<Longrightarrow> pid_quiet st \<and> pid_owned f so os'" for p st os'
  proof (cases "(\<forall>p. pid_quiet (ps p)) \<and> pid_idle f os")
    case True
    then show ?thesis using i f unfolding instances_ok_def by (auto simp: fun_upd_apply)
  next
    case False
    then obtain q where q: "\<forall>q'. q' \<noteq> q \<longrightarrow> pid_quiet (ps q')" "pid_owned f (ps q) os"
      using ok unfolding s instances_ok_def by auto
    have "p \<noteq> q" using that(1) q(2) by (auto simp: pid_quiet_def pid_owned_def)
    then show ?thesis using q r [OF q(2)] f unfolding instances_ok_def by (intro conjI disjI2 exI [of _ q]) auto
  qed
  have by_owner: "instances_ok f (ps(p := st), os')"
    if nq: "\<not> pid_quiet (ps p)" and o: "pid_owned f (ps p) os \<Longrightarrow> (pid_quiet st \<and> pid_idle f os') \<or> pid_owned f st os'" for p st os'
  proof -
    obtain q where q: "\<forall>q'. q' \<noteq> q \<longrightarrow> pid_quiet (ps q')" "pid_owned f (ps q) os"
      using ok nq unfolding s instances_ok_def by auto
    then have "p = q" using nq by blast
    then show ?thesis using q o f unfolding instances_ok_def by (auto simp: fun_upd_apply)
  qed
  show ?thesis using step unfolding s
  proof cases
    case (step_acquire env p r st os')
    show ?thesis
    proof (cases "pid_quiet (ps p)")
      case True
      show ?thesis unfolding step_acquire(1)
        by (rule by_quiet [OF True])
          (use acquire_idle [OF _ True f step_acquire(2)] acquire_refused [OF _ True f step_acquire(2)] in blast)+
    next
      case False
      show ?thesis unfolding step_acquire(1)
        by (rule by_owner [OF False])
          (use step_acquire(2) in \<open>auto simp: skyuv_pid_acquire_def pid_owned_def Let_def\<close>)
    qed
  next
    case (step_publish env pid p r st os')
    show ?thesis
    proof (cases "pid_quiet (ps p)")
      case True
      then show ?thesis unfolding step_publish(1)
        using by_quiet [OF True] publish_quiet [OF True] step_publish(2) True by auto
    next
      case False
      show ?thesis unfolding step_publish(1)
        by (rule by_owner [OF False]) (use publish_owned [OF _ step_publish(2)] in blast)
    qed
  next
    case (step_release env p st os')
    show ?thesis
    proof (cases "pid_quiet (ps p)")
      case True
      then show ?thesis unfolding step_release(1)
        using by_quiet [OF True] release_quiet [OF True] step_release(2) by auto
    next
      case False
      show ?thesis unfolding step_release(1)
        by (rule by_owner [OF False])
          (use release_owned [OF _ step_release(2)] in blast)
    qed
  next
    case (step_crash p)
    show ?thesis
    proof (cases "pid_quiet (ps p)")
      case True
      then have "crash (ps p) os = os" by (simp add: crash_def pid_quiet_def)
      then show ?thesis unfolding step_crash
        using by_quiet [OF True, of zero_pid os] by (simp add: zero_pid_def pid_quiet_def)
    next
      case False
      show ?thesis unfolding step_crash
        by (rule by_owner [OF False])
          (use crash_owned in \<open>auto simp: zero_pid_def pid_quiet_def\<close>)
    qed
  next
    case (step_processes procs)
    then show ?thesis using ok by (simp add: s instances_ok_def pid_idle_def pid_owned_def names_ok_def)
  qed
qed

lemma reachable_instances_ok: "pid_reachable f s \<Longrightarrow> instances_ok f s"
proof (induction rule: pid_reachable.induct)
  case (pid_initial s)
  then show ?case by (auto simp: pid_start_def instances_ok_def pid_idle_def pid_quiet_def zero_pid_def)
qed (rule step_ok)

text \<open>The initialisation of the daemon is a run of these steps.\<close>

lemma daemon_init_reachable:
  assumes "pid_reachable f (ps, os)"
    and "daemon_init apple env daemonize pid null_fd dup2 (Some f) (ps p) os = Some (r, st, os')"
  shows "pid_reachable f (ps(p := st), os')"
proof -
  have step: "pid_reachable f (ps(p := x), o1) \<Longrightarrow> pid_step f (ps(p := x), o1) ((ps(p := x))(p := y), o2)
      \<Longrightarrow> pid_reachable f (ps(p := y), o2)" for x y o1 o2
    using pid_next by fastforce
  obtain r1 st1 os1 where a: "skyuv_pid_acquire env (Some f) (ps p) os = Some (r1, st1, os1)"
    using assms(2) by (auto simp: daemon_init_def bind_eq_Some_conv)
  have r1: "pid_reachable f (ps(p := st1), os1)" using assms(1) pid_next [OF _ step_acquire [where ps = ps and p = p, OF a]] by blast
  have rel: "pid_reachable f (ps(p := fst (skyuv_pid_release env x o1)), snd (skyuv_pid_release env x o1))"
    if "pid_reachable f (ps(p := x), o1)" for x o1
    using step [OF that step_release [of env "ps(p := x)" p]] by simp
  show ?thesis
  proof (cases "r1 \<noteq> 0 \<or> (\<not> apple \<and> \<not> daemonize)")
    case True
    then show ?thesis
      using assms(2) a r1 rel [OF r1] by (auto simp: daemon_init_def split: if_splits)
  next
    case False
    then obtain r2 st2 os2 where b: "skyuv_pid_publish env pid st1 os1 = Some (r2, st2, os2)"
      using assms(2) a by (auto simp: daemon_init_def bind_eq_Some_conv)
    have r2: "pid_reachable f (ps(p := st2), os2)"
      using step [OF r1 step_publish [of env pid "ps(p := st1)" p]] b by simp
    show ?thesis
      using assms(2) a b False r2 rel [OF r2] by (auto simp: daemon_init_def split: if_splits)
  qed
qed

lemma not_owner_quiet: "instances_ok f (ps, os) \<Longrightarrow> \<not> owns_pid (ps p) \<Longrightarrow> pid_quiet (ps p)"
  unfolding instances_ok_def pid_owned_def by (metis fst_conv)

lemma acquire_result:
  assumes "instances_ok f (ps, os)" "pid_quiet (ps p)" "skyuv_pid_acquire env (Some f) (ps p) os = Some (r, st, os')"
  shows "(r = 0 \<and> pid_owned f st os') \<or> (r = 1 \<and> pid_quiet st)"
proof -
  have f: "f \<noteq> []" using assms(1) by (simp add: instances_ok_def)
  from assms(1) consider "pid_idle f os" | q where "pid_owned f (ps q) os" unfolding instances_ok_def by auto
  then show ?thesis using acquire_idle [OF _ assms(2) f assms(3)] acquire_refused [OF _ assms(2) f assms(3)] by cases blast+
qed

text \<open>While one instance owns the file, the daemon does not start for another one, whatever the system calls do.\<close>

lemma acquire_returns:
  assumes o: "pid_owned f so os" and q: "pid_quiet st" and f: "f \<noteq> []"
  shows "\<exists>st' os'. skyuv_pid_acquire env (Some f) st os = Some (1, st', os')"
proof -
  obtain g d i j where own: "g < next_fd os" "d < next_fd os" "names os (guard_path f) = Some i"
    "opened os = [g \<mapsto> i, d \<mapsto> j]" "locked_by os = [i \<mapsto> g, j \<mapsto> d]"
    using o unfolding pid_owned_def by blast
  obtain l os1 where l: "lock_file (pe_guard env) (guard_path f) os = (l, os1)" by fastforce
  have "opened os (next_fd os) = None" "\<forall>k. locked_by os k \<noteq> Some (next_fd os)" "locked_by os i \<noteq> None"
    using own by (auto split: if_splits)
  then have "l = None" using lock_file_cases [OF l] own(3) by (auto simp: made_exists)
  then show ?thesis
    using q f l by (auto simp: skyuv_pid_acquire_def Let_def guard_path_def [symmetric] pid_quiet_def
        split: prod.splits)
qed

lemma daemon_refused:
  assumes "pid_reachable f (ps, os)" "owns_pid (ps p)" "q \<noteq> p"
  shows "\<exists>st os'. daemon_init apple env daemonize pid null_fd dup2 (Some f) (ps q) os = Some (1, st, os')
    \<and> pid_quiet st \<and> pid_owned f (ps p) os'"
proof -
  have ok: "instances_ok f (ps, os)" by (rule reachable_instances_ok [OF assms(1)])
  then have f: "f \<noteq> []" by (simp add: instances_ok_def)
  obtain p' where p': "\<forall>q. q \<noteq> p' \<longrightarrow> pid_quiet (ps q)" "pid_owned f (ps p') os"
    using ok assms(2) unfolding instances_ok_def pid_quiet_def by auto
  have "p' = p" using p'(1) assms(2) by (auto simp: pid_quiet_def)
  with p' assms(3) have o: "pid_owned f (ps p) os" and q: "pid_quiet (ps q)" by auto
  obtain st os' where a: "skyuv_pid_acquire env (Some f) (ps q) os = Some (1, st, os')"
    using acquire_returns [OF o q f] by blast
  then have "daemon_init apple env daemonize pid null_fd dup2 (Some f) (ps q) os = Some (1, st, os')"
    by (simp add: daemon_init_def)
  with acquire_refused [OF o q f a] show ?thesis by blast
qed

lemma daemon_init_result:
  assumes "instances_ok f (ps, os)" "pid_quiet (ps p)"
    and "daemon_init apple env daemonize pid null_fd dup2 (Some f) (ps p) os = Some (r, st, os')"
  shows "(r = 0 \<and> pid_owned f st os' \<and> content os' (the (names os' f)) = pid_text pid) \<or> (r = 1 \<and> pid_quiet st)"
proof -
  obtain r1 st1 os1 where a: "skyuv_pid_acquire env (Some f) (ps p) os = Some (r1, st1, os1)"
    using assms(3) by (auto simp: daemon_init_def bind_eq_Some_conv)
  have pid_quiet: "pid_quiet (fst (skyuv_pid_release env x o1))" for x o1
    by (simp add: skyuv_pid_release_def Let_def pid_quiet_def)
  show ?thesis
  proof (cases "r1 = 0")
    case False
    then show ?thesis using acquire_result [OF assms(1,2) a] assms(3) a by (auto simp: daemon_init_def)
  next
    case True
    then have o: "pid_owned f st1 os1" using acquire_result [OF assms(1,2) a] by auto
    show ?thesis
    proof (cases "\<not> apple \<and> \<not> daemonize")
      case True
      then show ?thesis
        using assms(3) a \<open>r1 = 0\<close> pid_quiet [of st1 os1] by (auto simp: daemon_init_def)
    next
      case False
      then obtain r2 st2 os2 where b: "skyuv_pid_publish env pid st1 os1 = Some (r2, st2, os2)"
        using assms(3) a True by (auto simp: daemon_init_def bind_eq_Some_conv)
      show ?thesis
        using assms(3) a b True False publish_owned [OF o b] pid_quiet [of st2 os2]
        by (auto simp: daemon_init_def split: if_splits)
    qed
  qed
qed

text \<open>
  C24. The PID file has one owner: in every state that instances sharing a PID file can reach, by
  acquiring, publishing, releasing, failing at any system call and crashing, at most one owns the
  file. The owner holds the lock of the coordination file and the lock of the PID file,
  and the name of the PID file still leads to the file it has locked. No descriptor is open
  and no lock is held except these two, so no failure leaks one. When the initialisation of the daemon returns for an
  instance that is not the owner, it has succeeded with the instance as owner and its PID in the file, or
  failed with the instance holding nothing, and the state is again one of these.
\<close>

theorem pid_file_exclusive:
  assumes "pid_reachable f (ps, os)"
  shows "(\<forall>p q. owns_pid (ps p) \<and> owns_pid (ps q) \<longrightarrow> p = q)
    \<and> (\<forall>p. owns_pid (ps p) \<longrightarrow> (\<exists>g d i j. guard_fd (ps p) = Some g \<and> pid_fd (ps p) = Some d
        \<and> names os (guard_path f) = Some i \<and> locked_by os i = Some g
        \<and> names os f = Some j \<and> opened os d = Some j \<and> locked_by os j = Some d))
    \<and> (\<forall>x. opened os x \<noteq> None \<longrightarrow> (\<exists>p. owns_pid (ps p) \<and> (guard_fd (ps p) = Some x \<or> pid_fd (ps p) = Some x)))
    \<and> (\<forall>i x. locked_by os i = Some x \<longrightarrow> opened os x = Some i)
    \<and> (\<forall>apple env dmn pid nul dup2 p r st os'. \<not> owns_pid (ps p)
          \<and> daemon_init apple env dmn pid nul dup2 (Some f) (ps p) os = Some (r, st, os')
        \<longrightarrow> ((r = 0 \<and> owns_pid st \<and> content os' (the (names os' f)) = pid_text pid)
             \<or> (r = 1 \<and> guard_fd st = None \<and> pid_fd st = None \<and> \<not> owns_pid st))
          \<and> pid_reachable f (ps(p := st), os'))"
proof -
  have ok: "instances_ok f (ps, os)" by (rule reachable_instances_ok [OF assms])
  have init: "\<forall>apple env dmn pid nul dup2 p r st os'. \<not> owns_pid (ps p)
          \<and> daemon_init apple env dmn pid nul dup2 (Some f) (ps p) os = Some (r, st, os')
        \<longrightarrow> ((r = 0 \<and> owns_pid st \<and> content os' (the (names os' f)) = pid_text pid)
             \<or> (r = 1 \<and> guard_fd st = None \<and> pid_fd st = None \<and> \<not> owns_pid st))
          \<and> pid_reachable f (ps(p := st), os')"
  proof (intro allI impI, elim conjE)
    fix apple env dmn pid nul dup2 p r st os'
    assume a: "\<not> owns_pid (ps p)" "daemon_init apple env dmn pid nul dup2 (Some f) (ps p) os = Some (r, st, os')"
    show "((r = 0 \<and> owns_pid st \<and> content os' (the (names os' f)) = pid_text pid)
             \<or> (r = 1 \<and> guard_fd st = None \<and> pid_fd st = None \<and> \<not> owns_pid st))
          \<and> pid_reachable f (ps(p := st), os')"
      using daemon_init_result [OF ok not_owner_quiet [OF ok a(1)] a(2)]
        daemon_init_reachable [OF assms a(2)] by (auto simp: pid_owned_def pid_quiet_def)
  qed
  consider (none) "\<forall>p. \<not> owns_pid (ps p)" "opened os = Map.empty" "locked_by os = Map.empty"
    | (one) p where "\<forall>q. q \<noteq> p \<longrightarrow> \<not> owns_pid (ps q)" "pid_owned f (ps p) os"
    using ok unfolding instances_ok_def pid_quiet_def pid_idle_def by auto
  then show ?thesis
  proof cases
    case none
    then show ?thesis using init by simp
  next
    case one
    obtain g d i j where o: "owns_pid (ps p)" "guard_fd (ps p) = Some g" "pid_fd (ps p) = Some d" "g \<noteq> d"
        "names os (guard_path f) = Some i" "names os f = Some j" "opened os = [g \<mapsto> i, d \<mapsto> j]"
        "locked_by os = [i \<mapsto> g, j \<mapsto> d]" "names_ok f os"
      using one(2) unfolding pid_owned_def by blast
    have only: "owns_pid (ps q) \<longleftrightarrow> q = p" for q using one(1) o(1) by blast
    have "i \<noteq> j" using o by (auto simp: names_ok_def)
    then have locks: "locked_by os i = Some g" "locked_by os j = Some d" "opened os g = Some i" "opened os d = Some j"
      and rest: "\<And>x. opened os x \<noteq> None \<Longrightarrow> x = g \<or> x = d" "\<And>k x. locked_by os k = Some x \<Longrightarrow> (k = i \<and> x = g) \<or> (k = j \<and> x = d)"
      using o by (auto split: if_splits)
    have "\<forall>x. opened os x \<noteq> None \<longrightarrow> (\<exists>p. owns_pid (ps p) \<and> (guard_fd (ps p) = Some x \<or> pid_fd (ps p) = Some x))"
      using rest(1) o(1-3) by blast
    moreover have "\<forall>k x. locked_by os k = Some x \<longrightarrow> opened os x = Some k"
      using rest(2) locks by blast
    moreover have "\<forall>q. owns_pid (ps q) \<longrightarrow> (\<exists>g d i j. guard_fd (ps q) = Some g \<and> pid_fd (ps q) = Some d
        \<and> names os (guard_path f) = Some i \<and> locked_by os i = Some g
        \<and> names os f = Some j \<and> opened os d = Some j \<and> locked_by os j = Some d)"
      using only o(2,3,5,6) locks by simp
    moreover have "\<forall>p q. owns_pid (ps p) \<and> owns_pid (ps q) \<longrightarrow> p = q" using only by simp
    ultimately show ?thesis using init by (intro conjI)
  qed
qed

text \<open>A run of three instances: the first owns the file, the second is refused, the first crashes.\<close>

definition ex_lock :: lock_env where
  "ex_lock = \<lparr>lk_open = True, lk_fstat = True, lk_fcntl = True, lk_flock = True\<rparr>"

definition ex_pid_env :: pid_env where
  "ex_pid_env = \<lparr>pe_malloc = True, pe_guard = ex_lock, pe_pid = ex_lock, pe_read = (\<lambda>_. Moved 0), pe_atexit = True,
     pe_fstat = True, pe_lstat = True, pe_unlink = True, pe_ftruncate = True, pe_lseek = True,
     pe_write = (\<lambda>k. if k = 0 then Interrupted else Moved 2), pe_fsync = True\<rparr>"

definition ex_os :: posix where
  "ex_os = \<lparr>names = Map.empty, regular = (\<lambda>_. False), content = (\<lambda>_. []), opened = Map.empty, locked_by = Map.empty,
     next_inode = 0, next_fd = 0, running = (\<lambda>_. False)\<rparr>"

definition ex_init :: "pid_state \<Rightarrow> posix \<Rightarrow> (int \<times> pid_state \<times> posix) option" where
  "ex_init = daemon_init False ex_pid_env True 1234 (Some 5) (\<lambda>_. True) (Some ''/p'')"

lemma ex_pid_start: "pid_reachable ''/p'' (\<lambda>_. zero_pid, ex_os)"
  by (rule pid_initial) (simp add: pid_start_def ex_os_def names_ok_def)

theorem pid_file_exclusive_witness:
  "\<exists>ps os. pid_reachable ''/p'' (ps, os) \<and> owns_pid (ps 1) \<and> \<not> owns_pid (ps 2)
    \<and> (\<exists>j. names os ''/p'' = Some j \<and> content os j = pid_text 1234)
    \<and> (\<exists>st os'. ex_init (ps 2) os = Some (1, st, os') \<and> \<not> owns_pid st)"
proof -
  obtain st os where i: "ex_init zero_pid ex_os = Some (0, st, os)"
  proof -
    have "map_option fst (ex_init zero_pid ex_os) = Some 0" by code_simp
    then show thesis using that by fastforce
  qed
  let ?ps = "(\<lambda>_ :: nat. zero_pid)(1 := st)"
  have z: "\<not> owns_pid zero_pid" by (simp add: zero_pid_def)
  note step = pid_file_exclusive [THEN conjunct2, THEN conjunct2, THEN conjunct2, THEN conjunct2, rule_format]
  have r: "owns_pid st" "content os (the (names os ''/p'')) = pid_text 1234" "pid_reachable ''/p'' (?ps, os)"
    using step [OF ex_pid_start, where p = 1] i z unfolding ex_init_def by fastforce+
  have "map_option fst (Option.bind (ex_init zero_pid ex_os) (\<lambda>(_, _, os). ex_init zero_pid os)) = Some 1"
    by code_simp
  then obtain st2 os2 where two: "ex_init zero_pid os = Some (1, st2, os2)" by (auto simp: i)
  have own: "owns_pid (?ps 1)" "\<not> owns_pid (?ps 2)" using r(1) z by simp_all
  have "\<not> owns_pid st2" using step [OF r(3), where p = 2] two z unfolding ex_init_def by fastforce
  moreover obtain j where "names os ''/p'' = Some j"
    using pid_file_exclusive [OF r(3), THEN conjunct2, THEN conjunct1, rule_format, OF own(1)] by blast
  ultimately show ?thesis
    using r two own by (intro exI [of _ ?ps] exI [of _ os]) simp
qed

section \<open>Restart after a crash\<close>

text \<open>No system call of the acquisition fails.\<close>

definition calls_succeed :: "pid_env \<Rightarrow> bool" where
  "calls_succeed env \<longleftrightarrow> pe_malloc env \<and> pe_atexit env
     \<and> (\<forall>l \<in> {pe_guard env, pe_pid env}. lk_open l \<and> lk_fstat l \<and> lk_fcntl l \<and> lk_flock l)
     \<and> (\<exists>k n. pe_read env k = Moved n \<and> (\<forall>i < k. pe_read env i = Interrupted))"

lemma lock_file_succeeds:
  assumes "lk_open l" "lk_fstat l" "lk_fcntl l" "lk_flock l" "names os path = Some i" "regular os i" "locked_by os i = None"
  shows "lock_file l path os = (Some (next_fd os), os\<lparr>opened := (opened os)(next_fd os \<mapsto> i),
     locked_by := (locked_by os)(i \<mapsto> next_fd os), next_fd := Suc (next_fd os)\<rparr>)"
  using assms by (simp add: lock_file_def open_create_def flock_exclusive_def)

lemma read_loop_succeeds:
  assumes "answer k = Moved n" "\<forall>i < k. answer i = Interrupted" "j \<le> k"
  shows "read_loop answer j = Some (Moved n)"
  using assms(3)
proof (induction j rule: inc_induct)
  case base
  then show ?case using assms(1) by (simp add: read_loop.simps [of answer k])
next
  case (step j)
  then show ?case using assms(2) by (simp add: read_loop.simps [of answer j])
qed

lemma crash_frame: "names (crash st os) = names os" "regular (crash st os) = regular os" "content (crash st os) = content os"
  by (auto simp: crash_def close_fd_def Let_def split: option.splits)

lemma acquire_stale:
  assumes "pid_idle f os" "pid_quiet st" "f \<noteq> []" "calls_succeed env"
    and "names os (guard_path f) = Some i" "names os f = Some j" "regular os i" "regular os j"
    and "content os j = pid_text pid" "length (pid_text pid) < 64" "0 < pid" "pid < 2 ^ 31"
  shows "\<exists>r st' os'. skyuv_pid_acquire env (Some f) st os = Some (r, st', os') \<and> (r = 0 \<longleftrightarrow> \<not> running os (int pid))"
proof -
  have o: "opened os = Map.empty" "locked_by os = Map.empty" "names_ok f os" using assms(1) by (auto simp: pid_idle_def)
  have ij: "i \<noteq> j" using o(3) assms(5,6) by (auto simp: names_ok_def)
  let ?os1 = "os\<lparr>opened := [next_fd os \<mapsto> i], locked_by := [i \<mapsto> next_fd os], next_fd := Suc (next_fd os)\<rparr>"
  let ?os2 = "?os1\<lparr>opened := [next_fd os \<mapsto> i, Suc (next_fd os) \<mapsto> j],
      locked_by := [i \<mapsto> next_fd os, j \<mapsto> Suc (next_fd os)], next_fd := Suc (Suc (next_fd os))\<rparr>"
  have l1: "lock_file (pe_guard env) (guard_path f) os = (Some (next_fd os), ?os1)"
    using lock_file_succeeds [of "pe_guard env" os "guard_path f" i] assms(4,5,7) o by (simp add: calls_succeed_def)
  have l2: "lock_file (pe_pid env) f ?os1 = (Some (Suc (next_fd os)), ?os2)"
    using lock_file_succeeds [of "pe_pid env" ?os1 f j] assms(4,6,8) ij by (simp add: calls_succeed_def)
  obtain n where rd: "read_loop (pe_read env) 0 = Some (Moved n)"
    using assms(4) read_loop_succeeds unfolding calls_succeed_def by blast
  have use: "pid_in_use (takeWhile (\<lambda>c. c \<noteq> CHR 0x00) (take 63 (pid_text pid))) ?os2 \<longleftrightarrow> running os (int pid)"
    using pid_in_use_text [OF assms(11,12), of ?os2] assms(10) by simp
  show ?thesis
    using assms(2,3,4,9) use
    by (simp add: skyuv_pid_acquire_def Let_def guard_path_def [symmetric] l1 l2 rd pid_quiet_def calls_succeed_def)
qed



section \<open>Release\<close>

text \<open>
  C26. Releasing: it closes the descriptors of the instance and touches no others, it may be
  repeated with no effect, and the only name it may remove is that of the PID file of an
  instance that owns it, and only if that name still leads to the locked file; a file that
  has replaced it stays. The coordination file stays in any case. The owner of a reachable state removes the
  PID file if no system call fails.
\<close>

theorem pid_release_safe:
  assumes "skyuv_pid_release env st os = (st', os')"
  shows "skyuv_pid_release env' st' os' = (st', os')
    \<and> guard_fd st' = None \<and> pid_fd st' = None \<and> \<not> owns_pid st'
    \<and> (\<forall>x. opened os' x = (if guard_fd st = Some x \<or> pid_fd st = Some x then None else opened os x))
    \<and> (\<forall>a. names os' a \<noteq> names os a \<longrightarrow>
        names os' a = None \<and> owns_pid st \<and> a = the (pid_path st)
        \<and> (\<exists>d. pid_fd st = Some d \<and> opened os d = names os a))
    \<and> (\<forall>f ps p. pid_reachable f (ps, os) \<and> st = ps p \<and> owns_pid st \<longrightarrow>
        names os' (guard_path f) = names os (guard_path f)
        \<and> (pe_fstat env \<and> pe_lstat env \<and> pe_unlink env \<longrightarrow> names os' f = None))"
proof -
  have st': "st' = st\<lparr>pid_fd := None, pid_path := None, owns_pid := False, guard_fd := None\<rparr>"
    using assms by (simp add: skyuv_pid_release_def Let_def)
  let ?own = "owns_pid st \<and> pid_fd st \<noteq> None \<and> pe_fstat env \<and> opened os (the (pid_fd st)) \<noteq> None
     \<and> pe_lstat env \<and> names os (the (pid_path st)) \<noteq> None
     \<and> opened os (the (pid_fd st)) = names os (the (pid_path st)) \<and> pe_unlink env"
  have os': "os' = crash st (if ?own then os\<lparr>names := (names os)(the (pid_path st) := None)\<rparr> else os)"
    using release_crash [of env st os] assms by (simp add: Let_def)
  have names: "names os' = (if ?own then (names os)(the (pid_path st) := None) else names os)"
    by (auto simp: os' crash_frame)
  have again: "skyuv_pid_release env' st' os' = (st', os')" by (simp add: st' skyuv_pid_release_def)
  have opened: "opened os' x = (if guard_fd st = Some x \<or> pid_fd st = Some x then None else opened os x)" for x
    by (auto simp: os' crash_def close_fd_def split: option.splits)
  have removed: "names os' a = None \<and> owns_pid st \<and> a = the (pid_path st) \<and> (\<exists>d. pid_fd st = Some d \<and> opened os d = names os a)"
    if "names os' a \<noteq> names os a" for a
    using that by (auto simp: names split: if_splits)
  have owner: "names os' (guard_path f) = names os (guard_path f)
      \<and> (pe_fstat env \<and> pe_lstat env \<and> pe_unlink env \<longrightarrow> names os' f = None)"
    if r: "pid_reachable f (ps, os)" "st = ps p" "owns_pid st" for f ps p
  proof -
    have "pid_owned f st os"
      using reachable_instances_ok [OF r(1)] r(2,3) unfolding instances_ok_def pid_quiet_def by (metis fst_conv snd_conv)
    then show ?thesis by (auto simp: names pid_owned_def)
  qed
  have shut: "guard_fd st' = None" "pid_fd st' = None" "\<not> owns_pid st'" by (simp_all add: st')
  show ?thesis
  proof (intro conjI allI impI again shut opened)
    fix a assume "names os' a \<noteq> names os a"
    then show "names os' a = None" "owns_pid st" "a = the (pid_path st)" "\<exists>d. pid_fd st = Some d \<and> opened os d = names os a"
      using removed [of a] by blast+
  next
    fix f ps p assume "pid_reachable f (ps, os) \<and> st = ps p \<and> owns_pid st"
    then show "names os' (guard_path f) = names os (guard_path f)" using owner [of f ps p] by blast
  next
    fix f ps p assume "pid_reachable f (ps, os) \<and> st = ps p \<and> owns_pid st" "pe_fstat env \<and> pe_lstat env \<and> pe_unlink env"
    then show "names os' f = None" using owner [of f ps p] by blast
  qed
qed

theorem pid_release_safe_witness:
  "\<exists>st os st' os'. skyuv_pid_acquire ex_pid_env (Some ''/p'') zero_pid ex_os = Some (0, st, os)
    \<and> skyuv_pid_release ex_pid_env st os = (st', os')
    \<and> skyuv_pid_release ex_pid_env st' os' = (st', os') \<and> names os' ''/p'' = None"
proof -
  have "map_option (\<lambda>(r, st, os). (r, owns_pid st)) (skyuv_pid_acquire ex_pid_env (Some ''/p'') zero_pid ex_os) = Some (0, True)"
    by code_simp
  then obtain st os where a: "skyuv_pid_acquire ex_pid_env (Some ''/p'') zero_pid ex_os = Some (0, st, os)" "owns_pid st"
    by fastforce
  have r: "pid_reachable ''/p'' ((\<lambda>_. zero_pid)(1 := st), os)"
    using pid_next [OF ex_pid_start step_acquire [where ps = "\<lambda>_. zero_pid" and p = 1, OF a(1)]] .
  obtain st' os' where b: "skyuv_pid_release ex_pid_env st os = (st', os')" by fastforce
  have "pe_fstat ex_pid_env" "pe_lstat ex_pid_env" "pe_unlink ex_pid_env" by (simp_all add: ex_pid_env_def)
  then have "names os' ''/p'' = None" "skyuv_pid_release ex_pid_env st' os' = (st', os')"
    using pid_release_safe [OF b, of ex_pid_env] r a(2) by (metis fun_upd_same)+
  then show ?thesis using a(1) b by blast
qed

end
