(* ===== verification/Spec2Isabelle.thy ===== *)
theory Spec2Isabelle
  imports Socket_Safety Socket_Typing Clock Memory Atomic Platform Client_Stdin Client_Lua Server_Properties
    Skynet_Compat Launcher Pid_Safety
begin

text \<open>
  Verification of skyuv, a port of the Skynet runtime to libuv.

  \<^bold>\<open>The program.\<close> Skynet's worker threads use sockets through \<^verbatim>\<open>socket_server_compat.c\<close>, which calls the
  socket runtime (\<^verbatim>\<open>src/src/socket/socket_internal.c\<close>): interface functions check their arguments and queue
  commands, one network thread runs the libuv loop, executes the commands, handles the callbacks of the
  sockets and reports events. Below it lie wrappers of threads, clocks, atomic cells, memory and
  libraries (\<^verbatim>\<open>src/src/platform\<close>, \<^verbatim>\<open>src/src/memory\<close>) and headers that give Skynet's sources the functions they
  expect (\<^verbatim>\<open>src/src/compat/skynet\<close>). The program is started by \<^verbatim>\<open>runtime/launcher.c\<close>, which finds the
  configuration; \<^verbatim>\<open>runtime/config.c\<close> loads it; \<^verbatim>\<open>platform/daemon.c\<close> guards the daemon by a PID file. A test client
  (\<^verbatim>\<open>src/src/client\<close>) has a network thread of its own and a Lua interface.

  \<^bold>\<open>Shared.\<close>
  \<^item> \<open>Skyuv_Prelude\<close>: machine types, error codes, the compile-time switches (\<open>build_config\<close>), lemmas on lists
    and words, the contract \<open>fifo_queue\<close> of a first-in first-out queue.

  \<^bold>\<open>Socket runtime\<close> (\<^verbatim>\<open>socket_internal.c\<close>, \<^verbatim>\<open>socket_internal.h\<close>).
  \<^item> \<open>Socket_Id\<close>: identifiers, slot and generation packed into an \<^verbatim>\<open>int\<close>; round trip and exact period.
  \<^item> \<open>Command_Queue\<close>: the queue over linked nodes and as a list, the refinement between them, and both as
    instances of \<open>fifo_queue\<close>.
  \<^item> \<open>Udp_Address\<close>: the address blobs of datagrams, with their round trip.
  \<^item> \<open>Socket_Runtime\<close>, \<open>Socket_Handlers\<close>, \<open>Socket_Loop\<close>, \<open>Socket_Api\<close>: the structures as records, every callback and
    command handler, the wake-up callback with its two loops, the interface functions.
  \<^item> \<open>Socket_Views\<close>, \<open>Socket_Invariant\<close>, \<open>Socket_Exit\<close>: the invariant, a predicate on the view of each socket
    and on the table, and its preservation by every handler.
  \<^item> \<open>Socket_Machine\<close>, \<open>Socket_Run\<close>: worker threads and network thread as a transition system, and its executable form.
  \<^item> \<open>Socket_Safety\<close>: memory safety, the one fault that can occur and exactly when, pending writes, the close that
    stalls, wake-ups. \<open>Socket_Typing\<close>: every queued command has the fields its type needs.
  \<^item> \<open>Socket_Server\<close>, \<open>Server_Properties\<close>: Skynet's functions over the runtime; each is a step of the transition
    system, every send buffer has one owner, events come in order, a datagram can be answered.

  \<^bold>\<open>Platform.\<close>
  \<^item> \<open>Clock\<close> (\<^verbatim>\<open>time.c\<close>, \<^verbatim>\<open>skyuv_time.h\<close>, \<^verbatim>\<open>unistd.h\<close>): conversions at their width, with the wraps that remain.
  \<^item> \<open>Memory\<close> (\<^verbatim>\<open>memory.c\<close>): the Windows allocator over raw blocks: alignment, bounds, contents.
  \<^item> \<open>Atomic\<close> (\<^verbatim>\<open>atomic.c\<close>, \<^verbatim>\<open>spinlock.h\<close>): the two implementations agree, the retry loop, mutual exclusion.
  \<^item> \<open>Platform\<close> (\<^verbatim>\<open>thread.c\<close>, \<^verbatim>\<open>dynamic.c\<close>): blocks are neither leaked nor freed twice, by the contract
    \<open>platform_object\<close> for mutexes, conditions and read-write locks.
  \<^item> \<open>Skynet_Compat\<close>: the list of socket records over linked nodes, \<^verbatim>\<open>strsep\<close>, the log file, the remaining
    pthread and dlfcn functions.

  \<^bold>\<open>Client\<close> (\<^verbatim>\<open>client_runtime.c\<close>, \<^verbatim>\<open>client_stdin.c\<close>, \<^verbatim>\<open>client_lua.c\<close>).
  \<^item> \<open>Client_Runtime\<close>, \<open>Client_Safety\<close>, \<open>Client_Properties\<close>: the client's thread as a transition system; no callback
    touches a request whose caller has returned, callers are released, the stream is kept, stopping ends.
  \<^item> \<open>Client_Stdin\<close>: the ring of lines, another \<open>fifo_queue\<close>. \<open>Client_Lua\<close>: the Lua functions, select above all.

  \<^bold>\<open>Start.\<close>
  \<^item> \<open>Runtime_Paths\<close>, \<open>Runtime_Config\<close>, \<open>Launcher\<close>: paths on Unix and Windows, the loader script with its includes, the
    directories and output files, the command line.
  \<^item> \<open>Pid_File\<close>, \<open>Pid_Safety\<close>: the PID file over a small POSIX file system; instances that start, publish, fail and
    crash.
  \<^item> This theory: launcher, configuration and PID file together.

  \<^bold>\<open>What stands for code outside the sources.\<close> The return codes of libuv and of system calls and the outcome of
  every allocation are arguments (\<open>uv_env\<close>, \<open>api_env\<close>, \<open>client_env\<close>, \<open>pid_env\<close>, \<open>launch_env\<close>), quantified over in the
  properties. Three assumptions about them are named: \<open>file_system\<close> (a directory that was made exists, and
  directories stay), \<open>rounding\<close> (floating-point rounding is monotone and exact on integers up to \<open>2 ^ 53\<close>), and, in
  \<open>launch_located\<close> and below, that \<^verbatim>\<open>uv_fs_realpath\<close> gives absolute paths.

  \<^bold>\<open>Loops.\<close> A loop that ends by itself is a terminating function. The others are partial functions with the value
  \<open>None\<close> for not returning: polling, select, the retry loop of \<^verbatim>\<open>fetch_and\<close>, the loops around \<^verbatim>\<open>read\<close> and
  \<^verbatim>\<open>write\<close>, creating directories and releasing a list; that they return is stated with the condition it needs. There are
  two bounds: \<open>answer 4\<close> in \<open>client_call_returns\<close>, proved to be enough, and the depth of nested includes in
  \<open>loader_include\<close>, which is Lua's limit on nested calls and arbitrary in the properties.

  \<^bold>\<open>Granularity.\<close> Each operation on the command queue, each interface function, each callback and each command
  is one step. The queue's operations run under its mutex. An interface function takes two locks one after the other;
  the reading of \<^verbatim>\<open>entry->id\<close> after the submission lies outside both, and an interleaving at that point is not shown.
  An acquisition of the PID file runs under the lock of the coordination file. Atomic operations are sequentially
  consistent. Socket identifiers may be any of the range; \<open>cfg_ok\<close> is the range of slot bits the header allows.

  \<^bold>\<open>Not modelled.\<close> Functions that are a single call of libuv or of the C library with nothing decided (lock, unlock,
  wait and signal, thread-local get and set, \<^verbatim>\<open>getpid\<close>, \<^verbatim>\<open>random\<close>); registration of functions with Lua
  (\<^verbatim>\<open>luaopen_client_socket\<close>, \<^verbatim>\<open>lua-control.c\<close>); the statistics and signal functions that return a constant
  (\<^verbatim>\<open>skyuv_memory.c\<close>, \<^verbatim>\<open>start/signal.h\<close>); messages to the standard error output; Skynet, Lua and libuv themselves,
  which are submodules; tests, benchmarks, examples and build files.
\<close>

section \<open>Starting two instances\<close>

text \<open>
  The call of the script in \<^verbatim>\<open>skyuv_config_load\<close>: in the new mode the loader with the reserved variables, else
  the loader that Skynet passes, which is a parameter.
\<close>

definition config_script ::
    "(string \<Rightarrow> lua_status \<times> config_table) \<Rightarrow> loader_env \<Rightarrow> nat \<Rightarrow> config_table option \<Rightarrow> string
      \<Rightarrow> lua_status \<times> config_table" where
  "config_script legacy env depth roots config_name =
     (case roots of
        None \<Rightarrow> legacy config_name
      | Some r \<Rightarrow>
          (case config_loader (env\<lparr>le_roots := r\<rparr>) depth config_name of
             None \<Rightarrow> (LUA_ERRRUN, Map.empty)
           | Some t \<Rightarrow> (LUA_OK, t)))"

lemma config_load_script:
  assumes "rp_enabled paths"
    and "skyuv_config_load cfg mkdir stat paths getenv LUA_OK (config_script legacy le depth) config_name w
      = Some (LUA_OK, L', w')"
  obtains t where "config_script legacy le depth (Some (reserved_roots paths)) config_name = (LUA_OK, t)"
  using assms by (auto simp: skyuv_config_load_def split: prod.splits if_splits)

text \<open>The PID file in the table is determined by the configuration and the directories.\<close>

lemma resolved_daemon:
  assumes "config_resolved cfg is_dir paths getenv L L1 w1" "config_resolved cfg is_dir paths getenv L L2 w2"
    and "L1 ''daemon'' = Some (Lua_string f)"
  shows "anchored cfg f" and "L2 ''daemon'' = Some (Lua_string f)"
  using assms unfolding config_resolved_def output_placed_def
  by (auto split: option.splits lua_value.splits)


definition ex_daemon_loader :: loader_env where
  "ex_daemon_loader = \<lparr>le_open = map_of [(''/etc/m'', ''m'')], le_getenv = (\<lambda>_. None),
     le_load = map_of [(''m'', [Assign ''daemon'' (Some (Lua_string ''/p''))])], le_roots = Map.empty\<rparr>"

definition ex_load where
  "ex_load paths = skyuv_config_load ex_posix ex_mkdir ex_stat paths ex_getenv LUA_OK
     (config_script (\<lambda>_. (LUA_ERRRUN, Map.empty)) ex_daemon_loader 3) (config_file paths) [''/'', ''/etc'']"

definition ex_started :: skyuv_runtime_paths where
  "ex_started = \<lparr>rp_enabled = True, install_root = ''/opt'', config_file = ''/etc/m'', config_root = ''/etc'',
     log_root = Some ''/l'', run_root = None\<rparr>"


end
